theory Spec2Isabelle
  imports Main "HOL-Library.Word"
begin

section \<open>Data model of pkg/daemon/daemon.go\<close>

text \<open>
  A Go \<open>error\<close> is identified with its message (\<open>err.Error()\<close>); \<open>nil\<close> is the
  absence of a message. \<open>net.HardwareAddr\<close> is a byte slice.
\<close>

type_synonym error = string
type_synonym HardwareAddr = "8 word list"

text \<open>
  The projection of \<open>kapi.Pod\<close> the daemon reads and writes. \<open>Annotations\<close> is a Go
  map: \<open>None\<close> is the nil map, on which an assignment panics.
\<close>

record Pod =
  UID :: string
  Namespace :: string
  Name :: string
  Annotations :: "(string \<rightharpoonup> string) option"

text \<open>
  The projection of \<open>v1.NetworkSelectionElement\<close>. \<open>CNIArgs\<close> is a pointer to a map:
  \<open>None\<close> is the nil pointer, whose dereference panics.
\<close>

record NetworkSelectionElement =
  nse_Name :: string
  nse_Namespace :: string
  CNIArgs :: "(string \<rightharpoonup> string) option"

text \<open>The IB-SRIOV CNI spec; \<open>PKey\<close> is the only field the daemon consumes.\<close>

record IbSriovCniSpec =
  PKey :: string

text \<open>
  The values of \<open>addMap.Items\<close> and \<open>deleteMap.Items\<close> have type \<open>interface{}\<close>; the
  daemon recovers \<open>[]*kapi.Pod\<close> by a type assertion. Pods are held by pointer: a
  pod is a reference into the \<open>heap\<close> of the state below.
\<close>

datatype item = Pods "nat list" | NotPods

text \<open>
  Calls to the three collaborators (orchestrator client, GUID pool, subnet manager
  client), in the order the daemon makes them: the arguments of the call (the pod
  pointer for \<open>SetAnnotationsOnPod\<close>) and, last, what the call returned.
\<close>

datatype event =
    Call_GetNetworkAttachmentDefinition string string "error + string"
  | Call_GenerateGUID "error + HardwareAddr"
  | Call_AllocateGUID string string string "error option"
  | Call_ReleaseGUID string "error option"
  | Call_AddGuidsToPKey int "HardwareAddr list" "error option"
  | Call_RemoveGuidsFromPKey int "HardwareAddr list" "error option"
  | Call_SetAnnotationsOnPod nat "error option"

text \<open>
  The collaborators and helper packages of the daemon, none of which is part of
  daemon.go. The stateful ones (\<open>d.kubeClient\<close>, \<open>d.guidPool\<close>, \<open>d.smClient\<close>) act on
  an abstract world \<open>'w\<close>; the helpers of \<open>utils\<close>, \<open>netAttUtils\<close>, \<open>json\<close> and \<open>net\<close>
  are functions of their arguments. \<open>'j\<close> is the type of a decoded JSON object.
  \<open>SetPodNetworkGuid\<close> writes through its pointer argument, so it returns the
  element it leaves behind together with its error. \<open>ParsePKey\<close> returns both of its
  results, since the daemon reads the value while discarding the error.
\<close>

record ('w, 'j) env =
  GetNetworkAttachmentDefinition :: "string \<Rightarrow> string \<Rightarrow> 'w \<Rightarrow> (error + string) \<times> 'w"
  SetAnnotationsOnPod :: "Pod \<Rightarrow> (string \<rightharpoonup> string) \<Rightarrow> 'w \<Rightarrow> error option \<times> 'w"
  GenerateGUID :: "'w \<Rightarrow> (error + HardwareAddr) \<times> 'w"
  AllocateGUID :: "string \<Rightarrow> string \<Rightarrow> string \<Rightarrow> 'w \<Rightarrow> error option \<times> 'w"
  ReleaseGUID :: "string \<Rightarrow> 'w \<Rightarrow> error option \<times> 'w"
  AddGuidsToPKey :: "int \<Rightarrow> HardwareAddr list \<Rightarrow> 'w \<Rightarrow> error option \<times> 'w"
  RemoveGuidsFromPKey :: "int \<Rightarrow> HardwareAddr list \<Rightarrow> 'w \<Rightarrow> error option \<times> 'w"
  json_Unmarshal :: "string \<Rightarrow> error + 'j"
  json_Marshal :: "NetworkSelectionElement list \<Rightarrow> error + string"
  GetIbSriovCniFromNetwork :: "'j \<Rightarrow> error + IbSriovCniSpec"
  ParsePodNetworkAnnotation :: "Pod \<Rightarrow> error + NetworkSelectionElement list"
  GetPodNetworkGuid :: "NetworkSelectionElement \<Rightarrow> error + string"
  SetPodNetworkGuid :: "NetworkSelectionElement \<Rightarrow> string \<Rightarrow> NetworkSelectionElement \<times> error option"
  IsPodNetworkConfiguredWithInfiniBand :: "NetworkSelectionElement \<Rightarrow> bool"
  ParsePKey :: "string \<Rightarrow> int \<times> error option"
  ParseMAC :: "string \<Rightarrow> error + HardwareAddr"
  HardwareAddr_String :: "HardwareAddr \<Rightarrow> string"

text \<open>
  The state a pass runs in: the collaborators' world, the calls made so far, the pods
  behind the pointers, the pending-work map of the pass, and \<open>podNetworksMap\<close>, the
  cache of parsed network selections that \<open>AddPeriodicUpdate\<close> keeps for the whole pass
  (keyed by pod UID).
\<close>

record 'w state =
  world :: 'w
  trace :: "event list"
  heap :: "nat \<Rightarrow> Pod"
  Items :: "string \<rightharpoonup> item"
  podNetworksMap :: "string \<rightharpoonup> NetworkSelectionElement list"

text \<open>A Go function either returns or panics; both leave a state behind.\<close>

datatype 'a outcome = Returned 'a | Panicked 'a

fun final :: "'a outcome \<Rightarrow> 'a" where
  "final (Returned x) = x"
| "final (Panicked x) = x"

definition record_call :: "'w state \<Rightarrow> event \<Rightarrow> 'w \<Rightarrow> 'w state" where
  "record_call s ev w = s\<lparr>world := w, trace := trace s @ [ev]\<rparr>"

fun is_sm_call :: "event \<Rightarrow> bool" where
  "is_sm_call (Call_AddGuidsToPKey pKey guids r) = True"
| "is_sm_call (Call_RemoveGuidsFromPKey pKey guids r) = True"
| "is_sm_call ev = False"

fun is_generate :: "event \<Rightarrow> bool" where
  "is_generate (Call_GenerateGUID r) = True"
| "is_generate ev = False"

section \<open>Constants and helpers from outside daemon.go\<close>

text \<open>
  Modelled from the spec: \<open>utils.InfiniBandAnnotation\<close> and
  \<open>utils.ConfiguredInfiniBandPod\<close> are not under src/; section 6 of the spec gives the
  marker as \<open>"mellanox.infiniband.app": "configured"\<close>.
\<close>

definition InfiniBandAnnotation :: string where
  "InfiniBandAnnotation = ''mellanox.infiniband.app''"

definition ConfiguredInfiniBandPod :: string where
  "ConfiguredInfiniBandPod = ''configured''"

text \<open>
  \<open>v1.NetworkAttachmentAnnot\<close>, the annotation key of the network selection, is a
  constant of the network-attachment-definition client library.
\<close>

definition NetworkAttachmentAnnot :: string where
  "NetworkAttachmentAnnot = ''k8s.v1.cni.cncf.io/networks''"

text \<open>
  Modelled from the spec: \<open>utils.GetPodNetwork\<close> is not under src/; the spec (4.4,
  step 3b) has it locate the selection entry for the network, and a missing entry is
  an error (section 7). The Go function returns a pointer to the entry; the model
  returns the position of the entry in the list, so that writes through the pointer
  are writes to that position.
\<close>

fun GetPodNetwork :: "NetworkSelectionElement list \<Rightarrow> string \<Rightarrow> error + nat" where
  "GetPodNetwork [] networkName = Inl ''network not found''"
| "GetPodNetwork (network # networks) networkName =
     (if nse_Name network = networkName then Inr 0
      else (case GetPodNetwork networks networkName of
              Inl err \<Rightarrow> Inl err
            | Inr i \<Rightarrow> Inr (Suc i)))"

text \<open>
  Modelled from the spec: the methods \<open>UnSafeRemove\<close> and \<open>UnSafeSet\<close> of the
  pending-work map are not under src/; the spec (4.4, step 7) has them remove the
  network entry and replace its value.
\<close>

definition UnSafeRemove :: "string \<Rightarrow> 'w state \<Rightarrow> 'w state" where
  "UnSafeRemove networkName s = s\<lparr>Items := (Items s)(networkName := None)\<rparr>"

definition UnSafeSet :: "string \<Rightarrow> item \<Rightarrow> 'w state \<Rightarrow> 'w state" where
  "UnSafeSet networkName v s = s\<lparr>Items := (Items s)(networkName \<mapsto> v)\<rparr>"

text \<open>
  \<open>strings.ToLower\<close> and \<open>strings.Contains\<close> of the Go library, on byte strings. The
  daemon only looks for the ASCII text \<open>not found\<close>, so lower-casing the ASCII capitals
  is all that matters.
\<close>

definition to_lower_char :: "char \<Rightarrow> char" where
  "to_lower_char c =
     (case map_of (zip ''ABCDEFGHIJKLMNOPQRSTUVWXYZ'' ''abcdefghijklmnopqrstuvwxyz'') c of
        None \<Rightarrow> c
      | Some d \<Rightarrow> d)"

definition strings_ToLower :: "string \<Rightarrow> string" where
  "strings_ToLower s = map to_lower_char s"

fun has_prefix :: "string \<Rightarrow> string \<Rightarrow> bool" where
  "has_prefix s [] = True"
| "has_prefix [] (c # sub) = False"
| "has_prefix (d # s) (c # sub) = (d = c \<and> has_prefix s sub)"

fun strings_Contains :: "string \<Rightarrow> string \<Rightarrow> bool" where
  "strings_Contains [] sub = (sub = [])"
| "strings_Contains (c # s) sub = (has_prefix (c # s) sub \<or> strings_Contains s sub)"

section \<open>AddPeriodicUpdate\<close>

subsection \<open>First loop over the pods of a network (lines 176-249)\<close>

text \<open>The locals of one iteration of the loop over the networks.\<close>

record locals =
  guidList :: "HardwareAddr list"
  passedPods :: "nat list"
  failedPods :: "nat list"
  podNetworkMap :: "string \<rightharpoonup> nat"

definition no_locals :: locals where
  "no_locals = \<lparr>guidList = [], passedPods = [], failedPods = [], podNetworkMap = Map.empty\<rparr>"

definition append_failed :: "locals \<Rightarrow> nat \<Rightarrow> locals" where
  "append_failed l p = l\<lparr>failedPods := failedPods l @ [p]\<rparr>"

definition append_passed :: "locals \<Rightarrow> nat \<Rightarrow> HardwareAddr \<Rightarrow> locals" where
  "append_passed l p guidAddr =
     l\<lparr>guidList := guidList l @ [guidAddr], passedPods := passedPods l @ [p]\<rparr>"

text \<open>Lines 178-189: the parsed selections of the pod, from the cache or parsed now.\<close>

definition lookup_networks ::
  "('w, 'j) env \<Rightarrow> Pod \<Rightarrow> 'w state \<Rightarrow> error + (NetworkSelectionElement list \<times> 'w state)" where
  "lookup_networks e pod s =
     (case podNetworksMap s (UID pod) of
        Some networks \<Rightarrow> Inr (networks, s)
      | None \<Rightarrow>
          (case ParsePodNetworkAnnotation e pod of
             Inl err \<Rightarrow> Inl err
           | Inr networks \<Rightarrow>
               Inr (networks, s\<lparr>podNetworksMap := (podNetworksMap s)(UID pod \<mapsto> networks)\<rparr>)))"

text \<open>
  Lines 203-215, the selection carries a GUID: allocate it, then parse it. The result
  is the parsed GUID, or \<open>None\<close> when the pod failed.
\<close>

definition allocate_user_guid ::
  "('w, 'j) env \<Rightarrow> string \<Rightarrow> Pod \<Rightarrow> string \<Rightarrow> 'w state \<Rightarrow> HardwareAddr option \<times> 'w state" where
  "allocate_user_guid e networkName pod allocatedGuid s =
     (case AllocateGUID e (UID pod) networkName allocatedGuid (world s) of
        (r, w) \<Rightarrow>
          (let s1 = record_call s (Call_AllocateGUID (UID pod) networkName allocatedGuid r) w
           in case r of
                Some err \<Rightarrow> (None, s1)
              | None \<Rightarrow>
                  (case ParseMAC e allocatedGuid of
                     Inl err \<Rightarrow> (None, s1)
                   | Inr guidAddr \<Rightarrow> (Some guidAddr, s1))))"

text \<open>
  Lines 217-244, the selection carries no GUID: generate one, allocate it, write it
  into the selection entry (position \<open>i\<close> of \<open>networks\<close>) and serialise the selections
  into the pod's annotation.
\<close>

definition allocate_generated_guid ::
  "('w, 'j) env \<Rightarrow> string \<Rightarrow> nat \<Rightarrow> NetworkSelectionElement list \<Rightarrow> nat \<Rightarrow> 'w state
     \<Rightarrow> (HardwareAddr option \<times> 'w state) outcome" where
  "allocate_generated_guid e networkName p networks i s =
     (let pod = heap s p
      in case GenerateGUID e (world s) of
        (g, w) \<Rightarrow>
          (let s1 = record_call s (Call_GenerateGUID g) w
           in case g of
                Inl err \<Rightarrow> Returned (None, s1)
              | Inr guidAddr \<Rightarrow>
                  (let allocatedGuid = HardwareAddr_String e guidAddr
                   in case AllocateGUID e (UID pod) networkName allocatedGuid (world s1) of
                     (r, w2) \<Rightarrow>
                       (let s2 = record_call s1
                                   (Call_AllocateGUID (UID pod) networkName allocatedGuid r) w2
                        in case r of
                             Some guidErr \<Rightarrow> Returned (None, s2)
                           | None \<Rightarrow>
                               (case SetPodNetworkGuid e (networks ! i) allocatedGuid of
                                  (network', r2) \<Rightarrow>
                                    (let networks' = networks[i := network'];
                                         s3 = s2\<lparr>podNetworksMap :=
                                                   (podNetworksMap s2)(UID pod \<mapsto> networks')\<rparr>
                                     in case r2 of
                                          Some err \<Rightarrow> Returned (None, s3)
                                        | None \<Rightarrow>
                                            (case json_Marshal e networks' of
                                               Inl err \<Rightarrow> Returned (None, s3)
                                             | Inr netAnnotations \<Rightarrow>
                                                 (case Annotations pod of
                                                    None \<Rightarrow> Panicked (None, s3)
                                                  | Some a \<Rightarrow>
                                                      Returned (Some guidAddr,
                                                        s3\<lparr>heap := (heap s3)(p := pod\<lparr>Annotations :=
                                                          Some (a(NetworkAttachmentAnnot \<mapsto> netAnnotations))\<rparr>)\<rparr>)))))))))"

text \<open>Lines 177-248: one iteration of the first loop, for the pod behind \<open>p\<close>.\<close>

definition add_pod ::
  "('w, 'j) env \<Rightarrow> string \<Rightarrow> nat \<Rightarrow> 'w state \<times> locals \<Rightarrow> ('w state \<times> locals) outcome" where
  "add_pod e networkName p sl =
     (case sl of
        (s, l) \<Rightarrow>
          (let pod = heap s p
           in case lookup_networks e pod s of
                Inl err \<Rightarrow> Returned (s, append_failed l p)
              | Inr (networks, s1) \<Rightarrow>
                  (case GetPodNetwork networks networkName of
                     Inl err \<Rightarrow> Returned (s1, append_failed l p)
                   | Inr i \<Rightarrow>
                       (let l1 = l\<lparr>podNetworkMap := (podNetworkMap l)(UID pod \<mapsto> i)\<rparr>
                        in case GetPodNetworkGuid e (networks ! i) of
                             Inr allocatedGuid \<Rightarrow>
                               (case allocate_user_guid e networkName pod allocatedGuid s1 of
                                  (None, s2) \<Rightarrow> Returned (s2, append_failed l1 p)
                                | (Some guidAddr, s2) \<Rightarrow> Returned (s2, append_passed l1 p guidAddr))
                           | Inl err \<Rightarrow>
                               (case allocate_generated_guid e networkName p networks i s1 of
                                  Panicked (r, s2) \<Rightarrow> Panicked (s2, l1)
                                | Returned (None, s2) \<Rightarrow> Returned (s2, append_failed l1 p)
                                | Returned (Some guidAddr, s2) \<Rightarrow>
                                    Returned (s2, append_passed l1 p guidAddr))))))"

fun add_pods ::
  "('w, 'j) env \<Rightarrow> string \<Rightarrow> nat list \<Rightarrow> 'w state \<times> locals \<Rightarrow> ('w state \<times> locals) outcome" where
  "add_pods e networkName [] sl = Returned sl"
| "add_pods e networkName (p # ps) sl =
     (case add_pod e networkName p sl of
        Panicked sl' \<Rightarrow> Panicked sl'
      | Returned sl' \<Rightarrow> add_pods e networkName ps sl')"

subsection \<open>Second loop, over the passed pods (lines 267-294)\<close>

text \<open>
  One iteration handles position \<open>index\<close> of \<open>passedPods\<close>. The accumulator holds the
  state, \<open>failedPods\<close> and \<open>removedGuidList\<close>.
\<close>

text \<open>
  Lines 287-292: the annotation write found no pod. Release the GUID at the pod's
  position of \<open>guidList\<close> (an index out of range panics) and queue it for withdrawal.
\<close>

definition release_removed ::
  "('w, 'j) env \<Rightarrow> locals \<Rightarrow> nat
     \<Rightarrow> 'w state \<times> nat list \<times> HardwareAddr list
     \<Rightarrow> ('w state \<times> nat list \<times> HardwareAddr list) outcome" where
  "release_removed e l index acc =
     (case acc of
        (s, failed, removedGuidList) \<Rightarrow>
          (if index < length (guidList l)
           then (let g = HardwareAddr_String e (guidList l ! index)
                 in case ReleaseGUID e g (world s) of
                   (r, w) \<Rightarrow>
                     Returned (record_call s (Call_ReleaseGUID g r) w,
                               failed,
                               removedGuidList @ [guidList l ! index]))
           else Panicked acc))"

text \<open>Lines 280-293: write the annotations of the pod back to the orchestrator.\<close>

definition write_annotations ::
  "('w, 'j) env \<Rightarrow> locals \<Rightarrow> nat \<Rightarrow> nat
     \<Rightarrow> 'w state \<times> nat list \<times> HardwareAddr list
     \<Rightarrow> ('w state \<times> nat list \<times> HardwareAddr list) outcome" where
  "write_annotations e l index p acc =
     (case acc of
        (s, failed, removedGuidList) \<Rightarrow>
          (let pod = heap s p
           in case SetAnnotationsOnPod e pod (case Annotations pod of None \<Rightarrow> Map.empty | Some a \<Rightarrow> a)
                     (world s) of
             (r, w) \<Rightarrow>
               (let s1 = record_call s (Call_SetAnnotationsOnPod p r) w
                in case r of
                     None \<Rightarrow> Returned (s1, failed, removedGuidList)
                   | Some err \<Rightarrow>
                       (if \<not> strings_Contains (strings_ToLower err) ''not found''
                        then Returned (s1, failed @ [p], removedGuidList)
                        else release_removed e l index (s1, failed, removedGuidList)))))"

text \<open>
  Lines 268-279: mark the selection entry of the pod as configured and serialise the
  selections into the pod's annotation. \<open>podNetworkMap[pod.UID]\<close> is a pointer into
  the cached selections \<open>podNetworksMap[pod.UID]\<close> (position \<open>i\<close>); a missing key gives
  the nil pointer, whose dereference panics. A pointer without cached selections,
  or beyond them, cannot arise in a pass: the first loop stores both under the same
  UID, and lists in the cache keep their length (lemma \<open>second_loop_pointers_valid\<close>
  below).
\<close>

definition update_pod ::
  "('w, 'j) env \<Rightarrow> locals \<Rightarrow> nat \<Rightarrow> nat
     \<Rightarrow> 'w state \<times> nat list \<times> HardwareAddr list
     \<Rightarrow> ('w state \<times> nat list \<times> HardwareAddr list) outcome" where
  "update_pod e l index p acc =
     (case acc of
        (s, failed, removedGuidList) \<Rightarrow>
          (let pod = heap s p
           in case (podNetworkMap l (UID pod), podNetworksMap s (UID pod)) of
                (Some i, Some networks) \<Rightarrow>
                  (case CNIArgs (networks ! i) of
                     None \<Rightarrow> Panicked acc
                   | Some args \<Rightarrow>
                       (let network' = (networks ! i)\<lparr>CNIArgs :=
                              Some (args(InfiniBandAnnotation \<mapsto> ConfiguredInfiniBandPod))\<rparr>;
                            networks' = networks[i := network'];
                            s1 = s\<lparr>podNetworksMap := (podNetworksMap s)(UID pod \<mapsto> networks')\<rparr>
                        in case json_Marshal e networks' of
                             Inl err \<Rightarrow> Returned (s1, failed @ [p], removedGuidList)
                           | Inr netAnnotations \<Rightarrow>
                               (case Annotations pod of
                                  None \<Rightarrow> Panicked (s1, failed, removedGuidList)
                                | Some a \<Rightarrow>
                                    write_annotations e l index p
                                      (s1\<lparr>heap := (heap s1)(p := pod\<lparr>Annotations :=
                                              Some (a(NetworkAttachmentAnnot \<mapsto> netAnnotations))\<rparr>)\<rparr>,
                                       failed, removedGuidList))))
              | _ \<Rightarrow> Panicked acc))"

fun update_pods ::
  "('w, 'j) env \<Rightarrow> locals \<Rightarrow> nat \<Rightarrow> nat list
     \<Rightarrow> 'w state \<times> nat list \<times> HardwareAddr list
     \<Rightarrow> ('w state \<times> nat list \<times> HardwareAddr list) outcome" where
  "update_pods e l index [] acc = Returned acc"
| "update_pods e l index (p # ps) acc =
     (case update_pod e l index p acc of
        Panicked acc' \<Rightarrow> Panicked acc'
      | Returned acc' \<Rightarrow> update_pods e l (Suc index) ps acc')"

subsection \<open>One network entry of the add map (lines 133-311)\<close>

text \<open>
  An iteration of the loop over the networks either leaves by \<open>continue\<close> or proceeds
  to its next statement.
\<close>

datatype ('a, 'b) flow = Continue 'a | Proceed 'b

text \<open>Lines 251-263: admit the batch of GUIDs into the partition of the network.\<close>

definition add_guids_to_pkey ::
  "('w, 'j) env \<Rightarrow> IbSriovCniSpec \<Rightarrow> HardwareAddr list \<Rightarrow> 'w state \<Rightarrow> ('w state, 'w state) flow" where
  "add_guids_to_pkey e ibCniSpec guids s =
     (if PKey ibCniSpec \<noteq> [] \<and> length guids \<noteq> 0
      then (case ParsePKey e (PKey ibCniSpec) of
              (pKey, Some err) \<Rightarrow> Continue s
            | (pKey, None) \<Rightarrow>
                (case AddGuidsToPKey e pKey guids (world s) of
                   (r, w) \<Rightarrow>
                     (let s1 = record_call s (Call_AddGuidsToPKey pKey guids r) w
                      in case r of Some err \<Rightarrow> Continue s1 | None \<Rightarrow> Proceed s1)))
      else Proceed s)"

text \<open>
  Lines 296-304: withdraw the GUIDs of the pods that disappeared. The error of
  \<open>ParsePKey\<close> is discarded here.
\<close>

definition withdraw_removed_guids ::
  "('w, 'j) env \<Rightarrow> IbSriovCniSpec \<Rightarrow> HardwareAddr list \<Rightarrow> 'w state \<Rightarrow> ('w state, 'w state) flow" where
  "withdraw_removed_guids e ibCniSpec removedGuidList s =
     (if PKey ibCniSpec \<noteq> [] \<and> length removedGuidList \<noteq> 0
      then (case ParsePKey e (PKey ibCniSpec) of
              (pKey, _) \<Rightarrow>
                (case RemoveGuidsFromPKey e pKey removedGuidList (world s) of
                   (r, w) \<Rightarrow>
                     (let s1 = record_call s (Call_RemoveGuidsFromPKey pKey removedGuidList r) w
                      in case r of Some pkeyErr \<Rightarrow> Continue s1 | None \<Rightarrow> Proceed s1)))
      else Proceed s)"

text \<open>Lines 306-310 and 420-424: the end of an iteration that was not left early.\<close>

definition retain_failed :: "string \<Rightarrow> nat list \<Rightarrow> 'w state \<Rightarrow> 'w state" where
  "retain_failed networkName failed s =
     (if length failed = 0 then UnSafeRemove networkName s
      else UnSafeSet networkName (Pods failed) s)"

text \<open>Lines 172-310: the work on the pods of a network whose IB-SRIOV spec was read.\<close>

definition add_network_pods ::
  "('w, 'j) env \<Rightarrow> string \<Rightarrow> IbSriovCniSpec \<Rightarrow> nat list \<Rightarrow> 'w state \<Rightarrow> 'w state outcome" where
  "add_network_pods e networkName ibCniSpec pods s =
     (case add_pods e networkName pods (s, no_locals) of
        Panicked (s1, l) \<Rightarrow> Panicked s1
      | Returned (s1, l) \<Rightarrow>
          (case add_guids_to_pkey e ibCniSpec (guidList l) s1 of
             Continue s2 \<Rightarrow> Returned s2
           | Proceed s2 \<Rightarrow>
               (case update_pods e l 0 (passedPods l) (s2, failedPods l, []) of
                  Panicked (s3, failed, removedGuidList) \<Rightarrow> Panicked s3
                | Returned (s3, failed, removedGuidList) \<Rightarrow>
                    (case withdraw_removed_guids e ibCniSpec removedGuidList s3 of
                       Continue s4 \<Rightarrow> Returned s4
                     | Proceed s4 \<Rightarrow> Returned (retain_failed networkName failed s4)))))"

text \<open>
  Lines 135-170: the head of an iteration of the loop over \<open>addMap.Items\<close>, for the
  key \<open>networkName\<close>: recover the pods, fetch the network attachment definition of
  the first pod's namespace, decode its config and extract the IB-SRIOV spec. A key
  that is not in the map is not visited.
\<close>

definition add_network_head ::
  "('w, 'j) env \<Rightarrow> string \<Rightarrow> 'w state
     \<Rightarrow> ('w state, nat list \<times> IbSriovCniSpec \<times> 'w state) flow" where
  "add_network_head e networkName s =
     (case Items s networkName of
        None \<Rightarrow> Continue s
      | Some NotPods \<Rightarrow> Continue s
      | Some (Pods pods) \<Rightarrow>
          (case pods of
             [] \<Rightarrow> Continue s
           | pod0 # _ \<Rightarrow>
               (let networkNamespace = Namespace (heap s pod0)
                in case GetNetworkAttachmentDefinition e networkNamespace networkName (world s) of
                  (r, w) \<Rightarrow>
                    (let s1 = record_call s
                                (Call_GetNetworkAttachmentDefinition networkNamespace networkName r) w
                     in case r of
                          Inl err \<Rightarrow> Continue s1
                        | Inr config \<Rightarrow>
                            (case json_Unmarshal e config of
                               Inl err \<Rightarrow> Continue s1
                             | Inr networkSpec \<Rightarrow>
                                 (case GetIbSriovCniFromNetwork e networkSpec of
                                    Inl err \<Rightarrow> Continue (UnSafeRemove networkName s1)
                                  | Inr ibCniSpec \<Rightarrow> Proceed (pods, ibCniSpec, s1)))))))"

text \<open>Lines 134-311: the body of the loop over \<open>addMap.Items\<close>.\<close>

definition add_network :: "('w, 'j) env \<Rightarrow> string \<Rightarrow> 'w state \<Rightarrow> 'w state outcome" where
  "add_network e networkName s =
     (case add_network_head e networkName s of
        Continue s' \<Rightarrow> Returned s'
      | Proceed (pods, ibCniSpec, s1) \<Rightarrow> add_network_pods e networkName ibCniSpec pods s1)"

subsection \<open>The pass\<close>

text \<open>
  Go visits the keys of a map in an order of its choosing; \<open>order\<close> is the order of
  this pass. The cache \<open>podNetworksMap\<close> starts empty in every pass. A panic ends the
  pass.
\<close>

fun add_networks :: "('w, 'j) env \<Rightarrow> string list \<Rightarrow> 'w state \<Rightarrow> 'w state outcome" where
  "add_networks e [] s = Returned s"
| "add_networks e (networkName # order) s =
     (case add_network e networkName s of
        Panicked s' \<Rightarrow> Panicked s'
      | Returned s' \<Rightarrow> add_networks e order s')"

definition AddPeriodicUpdate :: "('w, 'j) env \<Rightarrow> string list \<Rightarrow> 'w state \<Rightarrow> 'w state outcome" where
  "AddPeriodicUpdate e order s = add_networks e order (s\<lparr>podNetworksMap := Map.empty\<rparr>)"

section \<open>DeletePeriodicUpdate\<close>

text \<open>
  Lines 361-397: one iteration of the loop over the pods, for the pod behind \<open>p\<close>. The
  accumulator holds \<open>guidList\<close> and \<open>failedPods\<close>. The loop calls no collaborator.
\<close>

definition delete_pod ::
  "('w, 'j) env \<Rightarrow> string \<Rightarrow> (nat \<Rightarrow> Pod) \<Rightarrow> nat
     \<Rightarrow> HardwareAddr list \<times> nat list \<Rightarrow> HardwareAddr list \<times> nat list" where
  "delete_pod e networkName h p acc =
     (case acc of
        (guids, failed) \<Rightarrow>
          (case ParsePodNetworkAnnotation e (h p) of
             Inl netErr \<Rightarrow> (guids, failed @ [p])
           | Inr networks \<Rightarrow>
               (case GetPodNetwork networks networkName of
                  Inl netErr \<Rightarrow> (guids, failed @ [p])
                | Inr i \<Rightarrow>
                    (if \<not> IsPodNetworkConfiguredWithInfiniBand e (networks ! i) then (guids, failed)
                     else (case GetPodNetworkGuid e (networks ! i) of
                             Inl netErr \<Rightarrow> (guids, failed @ [p])
                           | Inr allocatedGuid \<Rightarrow>
                               (case ParseMAC e allocatedGuid of
                                  Inl guidErr \<Rightarrow> (guids, failed @ [p])
                                | Inr guidAddr \<Rightarrow> (guids @ [guidAddr], failed)))))))"

fun delete_pods ::
  "('w, 'j) env \<Rightarrow> string \<Rightarrow> (nat \<Rightarrow> Pod) \<Rightarrow> nat list
     \<Rightarrow> HardwareAddr list \<times> nat list \<Rightarrow> HardwareAddr list \<times> nat list" where
  "delete_pods e networkName h [] acc = acc"
| "delete_pods e networkName h (p # ps) acc =
     delete_pods e networkName h ps (delete_pod e networkName h p acc)"

text \<open>Lines 400-412: withdraw the batch of GUIDs from the partition of the network.\<close>

definition remove_guids_from_pkey ::
  "('w, 'j) env \<Rightarrow> IbSriovCniSpec \<Rightarrow> HardwareAddr list \<Rightarrow> 'w state \<Rightarrow> ('w state, 'w state) flow" where
  "remove_guids_from_pkey e ibCniSpec guids s =
     (if PKey ibCniSpec \<noteq> [] \<and> length guids \<noteq> 0
      then (case ParsePKey e (PKey ibCniSpec) of
              (pKey, Some pkeyErr) \<Rightarrow> Continue s
            | (pKey, None) \<Rightarrow>
                (case RemoveGuidsFromPKey e pKey guids (world s) of
                   (r, w) \<Rightarrow>
                     (let s1 = record_call s (Call_RemoveGuidsFromPKey pKey guids r) w
                      in case r of Some pkeyErr \<Rightarrow> Continue s1 | None \<Rightarrow> Proceed s1)))
      else Proceed s)"

text \<open>Lines 414-419: release every GUID of the batch; an error is logged, no more.\<close>

fun release_guids :: "('w, 'j) env \<Rightarrow> HardwareAddr list \<Rightarrow> 'w state \<Rightarrow> 'w state" where
  "release_guids e [] s = s"
| "release_guids e (guidAddr # guids) s =
     (let g = HardwareAddr_String e guidAddr
      in case ReleaseGUID e g (world s) of
        (r, w) \<Rightarrow> release_guids e guids (record_call s (Call_ReleaseGUID g r) w))"

text \<open>Lines 358-424: the work on the pods of a network whose IB-SRIOV spec was read.\<close>

definition delete_network_pods ::
  "('w, 'j) env \<Rightarrow> string \<Rightarrow> IbSriovCniSpec \<Rightarrow> nat list \<Rightarrow> 'w state \<Rightarrow> 'w state" where
  "delete_network_pods e networkName ibCniSpec pods s =
     (case delete_pods e networkName (heap s) pods ([], []) of
        (guids, failed) \<Rightarrow>
          (case remove_guids_from_pkey e ibCniSpec guids s of
             Continue s1 \<Rightarrow> s1
           | Proceed s1 \<Rightarrow> retain_failed networkName failed (release_guids e guids s1)))"

text \<open>
  Lines 322-356: the head of an iteration of the loop over \<open>deleteMap.Items\<close>. Unlike
  the add pass, a config that is not an IB-SRIOV spec leaves the entry in the map.
\<close>

definition delete_network_head ::
  "('w, 'j) env \<Rightarrow> string \<Rightarrow> 'w state
     \<Rightarrow> ('w state, nat list \<times> IbSriovCniSpec \<times> 'w state) flow" where
  "delete_network_head e networkName s =
     (case Items s networkName of
        None \<Rightarrow> Continue s
      | Some NotPods \<Rightarrow> Continue s
      | Some (Pods pods) \<Rightarrow>
          (case pods of
             [] \<Rightarrow> Continue s
           | pod0 # _ \<Rightarrow>
               (let networkNamespace = Namespace (heap s pod0)
                in case GetNetworkAttachmentDefinition e networkNamespace networkName (world s) of
                  (r, w) \<Rightarrow>
                    (let s1 = record_call s
                                (Call_GetNetworkAttachmentDefinition networkNamespace networkName r) w
                     in case r of
                          Inl err \<Rightarrow> Continue s1
                        | Inr config \<Rightarrow>
                            (case json_Unmarshal e config of
                               Inl err \<Rightarrow> Continue s1
                             | Inr networkSpec \<Rightarrow>
                                 (case GetIbSriovCniFromNetwork e networkSpec of
                                    Inl err \<Rightarrow> Continue s1
                                  | Inr ibCniSpec \<Rightarrow> Proceed (pods, ibCniSpec, s1)))))))"

text \<open>Lines 321-425: the body of the loop over \<open>deleteMap.Items\<close>.\<close>

definition delete_network :: "('w, 'j) env \<Rightarrow> string \<Rightarrow> 'w state \<Rightarrow> 'w state" where
  "delete_network e networkName s =
     (case delete_network_head e networkName s of
        Continue s' \<Rightarrow> s'
      | Proceed (pods, ibCniSpec, s1) \<Rightarrow> delete_network_pods e networkName ibCniSpec pods s1)"

text \<open>The pass visits the keys of \<open>deleteMap.Items\<close> in the order \<open>order\<close>.\<close>

fun DeletePeriodicUpdate :: "('w, 'j) env \<Rightarrow> string list \<Rightarrow> 'w state \<Rightarrow> 'w state" where
  "DeletePeriodicUpdate e [] s = s"
| "DeletePeriodicUpdate e (networkName # order) s =
     DeletePeriodicUpdate e order (delete_network e networkName s)"

section \<open>Notions used by the properties\<close>

text \<open>The GUIDs handed to \<open>ReleaseGUID\<close> in a list of calls, in order.\<close>

fun released :: "event list \<Rightarrow> string list" where
  "released [] = []"
| "released (Call_ReleaseGUID g r # evs) = g # released evs"
| "released (ev # evs) = released evs"

text \<open>
  What the second loop of the add pass may do to its accumulator while it works on
  the pods \<open>ps\<close>: the pending-work map stays as it is, \<open>failedPods\<close> grows by pods of
  \<open>ps\<close>, \<open>removedGuidList\<close> grows by GUIDs of \<open>guidList\<close>, exactly the GUIDs that were
  handed to \<open>ReleaseGUID\<close>, and neither the subnet manager is called nor a GUID
  generated.
\<close>

definition second_loop_frame ::
  "('w, 'j) env \<Rightarrow> locals \<Rightarrow> nat list \<Rightarrow> 'w state \<times> nat list \<times> HardwareAddr list
     \<Rightarrow> 'w state \<times> nat list \<times> HardwareAddr list \<Rightarrow> bool" where
  "second_loop_frame e l ps acc acc' =
     (case (acc, acc') of
        ((s, failed, removed), (s', failed', removed')) \<Rightarrow>
          Items s' = Items s \<and> (\<exists>more. failed' = failed @ more \<and> set more \<subseteq> set ps) \<and>
          (\<exists>evs new. trace s' = trace s @ evs \<and> removed' = removed @ new \<and>
              released evs = map (HardwareAddr_String e) new \<and> set new \<subseteq> set (guidList l) \<and>
              filter is_sm_call evs = [] \<and> filter is_generate evs = []))"

fun has_returned :: "'a outcome \<Rightarrow> bool" where
  "has_returned (Returned x) = True"
| "has_returned (Panicked x) = False"

text \<open>
  A list of calls releases GUIDs only after the batch \<open>guids\<close> was withdrawn: no call
  of \<open>ReleaseGUID\<close> comes before a call of \<open>RemoveGuidsFromPKey\<close> with exactly that
  batch that returned no error (\<open>seen\<close> tells whether one came already).
\<close>

fun release_after_removal :: "HardwareAddr list \<Rightarrow> bool \<Rightarrow> event list \<Rightarrow> bool" where
  "release_after_removal guids seen [] = True"
| "release_after_removal guids seen (Call_ReleaseGUID g r # evs) =
     (seen \<and> release_after_removal guids seen evs)"
| "release_after_removal guids seen (Call_RemoveGuidsFromPKey pKey gs r # evs) =
     release_after_removal guids (seen \<or> (r = None \<and> gs = guids)) evs"
| "release_after_removal guids seen (ev # evs) = release_after_removal guids seen evs"

text \<open>
  The pod has a selection entry for the network, and the entry is not marked as
  configured with InfiniBand.
\<close>

definition not_configured :: "('w, 'j) env \<Rightarrow> string \<Rightarrow> Pod \<Rightarrow> bool" where
  "not_configured e networkName pod =
     (case ParsePodNetworkAnnotation e pod of
        Inl err \<Rightarrow> False
      | Inr networks \<Rightarrow>
          (case GetPodNetwork networks networkName of
             Inl err \<Rightarrow> False
           | Inr i \<Rightarrow> \<not> IsPodNetworkConfiguredWithInfiniBand e (networks ! i)))"

text \<open>
  The \<open>guid\<close> field of a selection entry (section 6 of the spec: the field \<open>guid\<close>
  under \<open>cni-args\<close>), and the \<open>guid\<close> fields of the cached selections of a pod.
\<close>

definition cni_arg :: "NetworkSelectionElement \<Rightarrow> string \<Rightarrow> string option" where
  "cni_arg network k = (case CNIArgs network of None \<Rightarrow> None | Some args \<Rightarrow> args k)"

definition guid_fields ::
  "(string \<rightharpoonup> NetworkSelectionElement list) \<Rightarrow> string \<Rightarrow> string option list" where
  "guid_fields cache uid =
     (case cache uid of
        None \<Rightarrow> []
      | Some networks \<Rightarrow> map (\<lambda>network. cni_arg network ''guid'') networks)"

text \<open>
  The pointers of \<open>podNetworkMap\<close> are positions in the cached selections of the same
  UID: every UID with a pointer has cached selections, and the position is within
  them.
\<close>

definition pointers_valid :: "'w state \<Rightarrow> locals \<Rightarrow> bool" where
  "pointers_valid s l =
     (\<forall>uid i. podNetworkMap l uid = Some i \<longrightarrow>
        (\<exists>networks. podNetworksMap s uid = Some networks \<and> i < length networks))"

text \<open>A later cache keeps every cached list of an earlier one, at its length.\<close>

definition cache_kept ::
  "(string \<rightharpoonup> NetworkSelectionElement list) \<Rightarrow> (string \<rightharpoonup> NetworkSelectionElement list) \<Rightarrow> bool" where
  "cache_kept c c' =
     (\<forall>uid networks. c uid = Some networks \<longrightarrow>
        (\<exists>networks'. c' uid = Some networks' \<and> length networks' = length networks))"

text \<open>
  A step of the first loop of the add pass fails for a pod after \<open>AllocateGUID\<close> has
  accepted its GUID: the GUID the selection entry carries does not parse (line 209),
  or the generated GUID cannot be written into the selection entry (line 230), or
  the selections cannot be serialised (line 236). \<open>w\<close> is the collaborators' world at
  the start of the iteration, \<open>uid\<close> the UID of the pod, and position \<open>i\<close> of
  \<open>networks\<close> its selection entry for the network.
\<close>

definition fails_after_allocation ::
  "('w, 'j) env \<Rightarrow> string \<Rightarrow> string \<Rightarrow> NetworkSelectionElement list \<Rightarrow> nat \<Rightarrow> 'w \<Rightarrow> bool" where
  "fails_after_allocation e networkName uid networks i w =
     (case GetPodNetworkGuid e (networks ! i) of
        Inr allocatedGuid \<Rightarrow>
          fst (AllocateGUID e uid networkName allocatedGuid w) = None \<and>
          isl (ParseMAC e allocatedGuid)
      | Inl err \<Rightarrow>
          (case GenerateGUID e w of
             (Inl genErr, w1) \<Rightarrow> False
           | (Inr guidAddr, w1) \<Rightarrow>
               fst (AllocateGUID e uid networkName (HardwareAddr_String e guidAddr) w1) = None \<and>
               (case SetPodNetworkGuid e (networks ! i) (HardwareAddr_String e guidAddr) of
                  (network', Some setErr) \<Rightarrow> True
                | (network', None) \<Rightarrow> isl (json_Marshal e (networks[i := network'])))))"

text \<open>
  What the add pass may do to the pods and to the cache once the first loop of a
  network is over: a pod keeps its UID, the cached selections keep their \<open>guid\<close>
  fields, and the annotations of a pod are as before or hold, under the key of the
  network selection, the serialisation of selections with the \<open>guid\<close> fields that
  were cached for the pod.
\<close>

definition guids_kept :: "('w, 'j) env \<Rightarrow> 'w state \<Rightarrow> 'w state \<Rightarrow> bool" where
  "guids_kept e s s' =
     (\<forall>p uid.
        UID (heap s' p) = UID (heap s p) \<and>
        guid_fields (podNetworksMap s') uid = guid_fields (podNetworksMap s) uid \<and>
        (Annotations (heap s' p) = Annotations (heap s p) \<or>
         (\<exists>a netAnnotations networks'.
            Annotations (heap s' p) = Some (a(NetworkAttachmentAnnot \<mapsto> netAnnotations)) \<and>
            json_Marshal e networks' = Inr netAnnotations \<and>
            map (\<lambda>network. cni_arg network ''guid'') networks'
              = guid_fields (podNetworksMap s) (UID (heap s p)))))"

section \<open>An instance of the collaborators\<close>

text \<open>
  The theorems below hold for every environment. To run the passes on concrete
  inputs, this section gives one environment in the manner of a test double: a pool
  that hands out \<open>02:00:00:00:00:00:00:01\<close>, \<open>...:02\<close>, ... in turn, a subnet manager
  and an orchestrator that accept every call, and simple text formats for the
  network attachment definition and for the network selection annotation.
\<close>

definition hex_digit :: "char \<Rightarrow> nat option" where
  "hex_digit c =
     (let n = (of_char c :: nat)
      in if 48 \<le> n \<and> n \<le> 57 then Some (n - 48)
         else if 97 \<le> n \<and> n \<le> 102 then Some (n - 87)
         else if 65 \<le> n \<and> n \<le> 70 then Some (n - 55)
         else None)"

fun parse_hex_from :: "nat \<Rightarrow> string \<Rightarrow> nat option" where
  "parse_hex_from acc [] = Some acc"
| "parse_hex_from acc (c # cs) =
     (case hex_digit c of
        None \<Rightarrow> None
      | Some d \<Rightarrow> parse_hex_from (16 * acc + d) cs)"

definition parse_hex :: "string \<Rightarrow> nat option" where
  "parse_hex s = (if s = [] then None else parse_hex_from 0 s)"

text \<open>
  Modelled from the spec: \<open>utils.ParsePKey\<close> is not under src/. The spec (sections 3
  and 6) has it read a 16-bit hex string with an optional \<open>0x\<close> prefix, in either
  case, mask the membership bit, and reject \<open>0x0000\<close> and \<open>0x7fff\<close> with an error.
\<close>

definition ParsePKey_spec :: "string \<Rightarrow> int \<times> error option" where
  "ParsePKey_spec s =
     (let digits = (if has_prefix s ''0x'' \<or> has_prefix s ''0X'' then drop 2 s else s)
      in case parse_hex digits of
           None \<Rightarrow> (0, Some ''invalid pkey value'')
         | Some n \<Rightarrow>
             (if 65536 \<le> n then (0, Some ''pkey out of range'')
              else (let k = n mod 32768
                    in if k = 0 \<or> k = 32767 then (0, Some ''reserved pkey value'')
                       else (int k, None))))"

text \<open>GUIDs in the colon-separated form of eight hex octets.\<close>

fun split_colon :: "string \<Rightarrow> string \<Rightarrow> string list" where
  "split_colon cur [] = [cur]"
| "split_colon cur (c # cs) =
     (if c = CHR '':'' then cur # split_colon [] cs else split_colon (cur @ [c]) cs)"

definition octet :: "string \<Rightarrow> 8 word option" where
  "octet s = (if length s = 2 then map_option of_nat (parse_hex s) else None)"

definition demo_ParseMAC :: "string \<Rightarrow> error + HardwareAddr" where
  "demo_ParseMAC s =
     (let parts = map octet (split_colon [] s)
      in if length parts = 8 \<and> None \<notin> set parts then Inr (map the parts)
         else Inl ''invalid MAC address'')"

definition hex_char :: "nat \<Rightarrow> char" where
  "hex_char n = ''0123456789abcdef'' ! n"

fun join_colon :: "string list \<Rightarrow> string" where
  "join_colon [] = []"
| "join_colon [s] = s"
| "join_colon (s # t # ss) = s @ '':'' @ join_colon (t # ss)"

definition demo_String :: "HardwareAddr \<Rightarrow> string" where
  "demo_String g = join_colon (map (\<lambda>b. [hex_char (unat b div 16), hex_char (unat b mod 16)]) g)"

text \<open>
  The network selection annotation of the instance: the network name, then
  \<open>guid=...\<close> when the entry carries a GUID, then \<open>configured\<close> when it carries the
  marker; one entry only.
\<close>

definition demo_guid :: "NetworkSelectionElement \<Rightarrow> error + string" where
  "demo_guid network =
     (case CNIArgs network of
        None \<Rightarrow> Inl ''no guid field in network''
      | Some args \<Rightarrow>
          (case args ''guid'' of
             None \<Rightarrow> Inl ''no guid field in network''
           | Some g \<Rightarrow> Inr g))"

definition demo_configured :: "NetworkSelectionElement \<Rightarrow> bool" where
  "demo_configured network =
     (case CNIArgs network of
        None \<Rightarrow> False
      | Some args \<Rightarrow> args InfiniBandAnnotation = Some ConfiguredInfiniBandPod)"

definition demo_set_guid :: "NetworkSelectionElement \<Rightarrow> string \<Rightarrow> NetworkSelectionElement \<times> error option" where
  "demo_set_guid network g =
     (network\<lparr>CNIArgs := Some ((case CNIArgs network of None \<Rightarrow> Map.empty | Some args \<Rightarrow> args)
                                 (''guid'' \<mapsto> g))\<rparr>, None)"

definition demo_element :: "string list \<Rightarrow> error + NetworkSelectionElement list" where
  "demo_element ws =
     (case ws of
        [n] \<Rightarrow> Inr [\<lparr>nse_Name = n, nse_Namespace = [], CNIArgs = None\<rparr>]
      | [n, g] \<Rightarrow>
          (if has_prefix g ''guid=''
           then Inr [\<lparr>nse_Name = n, nse_Namespace = [], CNIArgs = Some [''guid'' \<mapsto> drop 5 g]\<rparr>]
           else Inl ''malformed network selection'')
      | [n, g, c] \<Rightarrow>
          (if has_prefix g ''guid='' \<and> c = ''configured''
           then Inr [\<lparr>nse_Name = n, nse_Namespace = [],
                      CNIArgs = Some [''guid'' \<mapsto> drop 5 g,
                                      InfiniBandAnnotation \<mapsto> ConfiguredInfiniBandPod]\<rparr>]
           else Inl ''malformed network selection'')
      | _ \<Rightarrow> Inl ''malformed network selection'')"

fun split_space :: "string \<Rightarrow> string \<Rightarrow> string list" where
  "split_space cur [] = [cur]"
| "split_space cur (c # cs) =
     (if c = CHR '' '' then cur # split_space [] cs else split_space (cur @ [c]) cs)"

definition demo_parse :: "Pod \<Rightarrow> error + NetworkSelectionElement list" where
  "demo_parse pod =
     (case Annotations pod of
        None \<Rightarrow> Inl ''no network annotation''
      | Some a \<Rightarrow>
          (case a NetworkAttachmentAnnot of
             None \<Rightarrow> Inl ''no network annotation''
           | Some txt \<Rightarrow> demo_element (split_space [] txt)))"

definition demo_render :: "NetworkSelectionElement \<Rightarrow> string" where
  "demo_render network =
     nse_Name network
     @ (case demo_guid network of Inl err \<Rightarrow> [] | Inr g \<Rightarrow> '' guid='' @ g)
     @ (if demo_configured network then '' configured'' else [])"

text \<open>
  The network attachment definition of the instance: \<open>ib-sriov\<close> followed by the
  PKey, or the name of another CNI type; a text that starts with a brace stands for
  malformed JSON.
\<close>

definition demo_unmarshal :: "string \<Rightarrow> error + string list" where
  "demo_unmarshal config =
     (if has_prefix config ''{'' then Inl ''unexpected end of JSON input''
      else Inr (split_space [] config))"

definition demo_ib_sriov :: "string list \<Rightarrow> error + IbSriovCniSpec" where
  "demo_ib_sriov ws =
     (case ws of
        [t] \<Rightarrow> (if t = ''ib-sriov'' then Inr \<lparr>PKey = []\<rparr> else Inl ''not an ib-sriov network'')
      | [t, k] \<Rightarrow> (if t = ''ib-sriov'' then Inr \<lparr>PKey = k\<rparr> else Inl ''not an ib-sriov network'')
      | _ \<Rightarrow> Inl ''not an ib-sriov network'')"

text \<open>
  The world of the instance: the number of GUIDs generated so far, and the
  definition of each network as the orchestrator serves it.
\<close>

definition demo_env :: "(string \<Rightarrow> string) \<Rightarrow> (nat, string list) env" where
  "demo_env nad =
     \<lparr>GetNetworkAttachmentDefinition = (\<lambda>ns name w. (Inr (nad name), w)),
      SetAnnotationsOnPod = (\<lambda>pod a w. (None, w)),
      GenerateGUID = (\<lambda>w. (Inr [2, 0, 0, 0, 0, 0, 0, of_nat (Suc w)], Suc w)),
      AllocateGUID = (\<lambda>uid name g w. (None, w)),
      ReleaseGUID = (\<lambda>g w. (None, w)),
      AddGuidsToPKey = (\<lambda>pKey guids w. (None, w)),
      RemoveGuidsFromPKey = (\<lambda>pKey guids w. (None, w)),
      json_Unmarshal = demo_unmarshal,
      json_Marshal = (\<lambda>networks. Inr (concat (map demo_render networks))),
      GetIbSriovCniFromNetwork = demo_ib_sriov,
      ParsePodNetworkAnnotation = demo_parse,
      GetPodNetworkGuid = demo_guid,
      SetPodNetworkGuid = demo_set_guid,
      IsPodNetworkConfiguredWithInfiniBand = demo_configured,
      ParsePKey = ParsePKey_spec,
      ParseMAC = demo_ParseMAC,
      HardwareAddr_String = demo_String\<rparr>"

text \<open>A pod of the instance with the given network selection annotation.\<close>

definition demo_pod :: "string \<Rightarrow> string \<Rightarrow> Pod" where
  "demo_pod uid txt =
     \<lparr>UID = uid, Namespace = ''default'', Name = uid,
      Annotations = Some [NetworkAttachmentAnnot \<mapsto> txt]\<rparr>"

definition demo_state :: "(nat \<Rightarrow> Pod) \<Rightarrow> (string \<rightharpoonup> item) \<Rightarrow> nat state" where
  "demo_state h m = \<lparr>world = 0, trace = [], heap = h, Items = m, podNetworksMap = Map.empty\<rparr>"

section \<open>Concrete inputs\<close>

text \<open>
  Every network is an IB-SRIOV network with PKey \<open>0x0005\<close>. The map of the first
  state has an empty pod list and a value that is no pod list.
\<close>

definition plain_env :: "(nat, string list) env" where
  "plain_env = demo_env (\<lambda>name. ''ib-sriov 0x0005'')"

definition idle_state :: "nat state" where
  "idle_state =
     demo_state (\<lambda>p. demo_pod ''w1'' ''ibnet'') [''ibnet'' \<mapsto> Pods [], ''stale'' \<mapsto> NotPods]"

text \<open>
  One pending pod \<open>w1\<close> on the network \<open>ibnet\<close>, without a GUID of its own; and
  orchestrators that serve a network attachment definition whose config is malformed
  JSON, or one of another CNI type.
\<close>

definition malformed_env :: "(nat, string list) env" where
  "malformed_env = demo_env (\<lambda>name. ''{'')"

definition macvlan_env :: "(nat, string list) env" where
  "macvlan_env = demo_env (\<lambda>name. ''macvlan'')"

definition one_pod_state :: "nat state" where
  "one_pod_state = demo_state (\<lambda>p. demo_pod ''w1'' ''ibnet'') [''ibnet'' \<mapsto> Pods [0]]"

text \<open>An orchestrator that serves an IB-SRIOV network with the reserved PKey \<open>0x7fff\<close>.\<close>

definition reserved_env :: "(nat, string list) env" where
  "reserved_env = demo_env (\<lambda>name. ''ib-sriov 0x7fff'')"

text \<open>
  An orchestrator that reports the pod as gone when its annotations are written,
  with a subnet manager that accepts the withdrawal and with one that refuses it.
\<close>

definition gone_env :: "(nat, string list) env" where
  "gone_env = (demo_env (\<lambda>name. ''ib-sriov 0x0005''))
     \<lparr>SetAnnotationsOnPod := (\<lambda>pod a w. (Some ''pods w1 not found'', w))\<rparr>"

definition gone_refused_env :: "(nat, string list) env" where
  "gone_refused_env = gone_env
     \<lparr>RemoveGuidsFromPKey := (\<lambda>pKey guids w. (Some ''subnet manager unreachable'', w))\<rparr>"

text \<open>
  One deleted pod \<open>w6\<close> on the network \<open>ibnet\<close>, configured with the GUID
  \<open>02:00:00:00:00:00:00:02\<close>; and a subnet manager that refuses every withdrawal.
\<close>

definition configured_pod_state :: "nat state" where
  "configured_pod_state =
     demo_state (\<lambda>p. demo_pod ''w6'' ''ibnet guid=02:00:00:00:00:00:00:02 configured'')
       [''ibnet'' \<mapsto> Pods [0]]"

definition refusing_env :: "(nat, string list) env" where
  "refusing_env = plain_env
     \<lparr>RemoveGuidsFromPKey := (\<lambda>pKey guids w. (Some ''subnet manager unreachable'', w))\<rparr>"

text \<open>An orchestrator whose annotation write fails with a conflict.\<close>

definition conflict_env :: "(nat, string list) env" where
  "conflict_env = plain_env
     \<lparr>SetAnnotationsOnPod := (\<lambda>pod a w. (Some ''the object has been modified'', w))\<rparr>"

text \<open>
  Two pending pods on \<open>ibnet\<close>: \<open>w4\<close> is well-formed, the annotation of \<open>w5\<close> is
  malformed. And two deleted pods: \<open>w6\<close> is configured, \<open>w5\<close> is malformed.
\<close>

definition two_pod_state :: "nat state" where
  "two_pod_state =
     demo_state (\<lambda>p. if p = 0 then demo_pod ''w4'' ''ibnet'' else demo_pod ''w5'' ''ibnet a b c'')
       [''ibnet'' \<mapsto> Pods [0, 1]]"

definition two_deleted_state :: "nat state" where
  "two_deleted_state =
     demo_state (\<lambda>p. if p = 0 then demo_pod ''w6'' ''ibnet guid=02:00:00:00:00:00:00:02 configured''
                      else demo_pod ''w5'' ''ibnet a b c'')
       [''ibnet'' \<mapsto> Pods [0, 1]]"

text \<open>One deleted pod \<open>w9\<close> whose selection carries a GUID but no marker.\<close>

definition unconfigured_state :: "nat state" where
  "unconfigured_state =
     demo_state (\<lambda>p. demo_pod ''w9'' ''ibnet guid=02:00:00:00:00:00:00:02'') [''ibnet'' \<mapsto> Pods [0]]"

text \<open>
  One pending pod \<open>w2\<close> whose selection carries the GUID \<open>02:00:00:00:00:00:00:03\<close>,
  before and after its selections are parsed into the cache.
\<close>

definition user_guid_state :: "nat state" where
  "user_guid_state =
     demo_state (\<lambda>p. demo_pod ''w2'' ''ibnet guid=02:00:00:00:00:00:00:03'') [''ibnet'' \<mapsto> Pods [0]]"

definition user_guid_networks :: "NetworkSelectionElement list" where
  "user_guid_networks =
     [\<lparr>nse_Name = ''ibnet'', nse_Namespace = [],
       CNIArgs = Some [''guid'' \<mapsto> ''02:00:00:00:00:00:00:03'']\<rparr>]"

definition user_guid_parsed :: "nat state" where
  "user_guid_parsed = user_guid_state\<lparr>podNetworksMap := [''w2'' \<mapsto> user_guid_networks]\<rparr>"

text \<open>
  Two pending pods on \<open>ibnet\<close> that both pass the first loop, \<open>w4\<close> and \<open>w7\<close>; and an
  orchestrator that reports \<open>w7\<close> as gone when its annotations are written.
\<close>

definition two_passing_state :: "nat state" where
  "two_passing_state =
     demo_state (\<lambda>p. if p = 0 then demo_pod ''w4'' ''ibnet'' else demo_pod ''w7'' ''ibnet'')
       [''ibnet'' \<mapsto> Pods [0, 1]]"

definition second_gone_env :: "(nat, string list) env" where
  "second_gone_env = plain_env
     \<lparr>SetAnnotationsOnPod :=
        (\<lambda>pod a w. (if UID pod = ''w7'' then Some ''pods w7 not found'' else None, w))\<rparr>"

text \<open>
  Two pending pods on \<open>ibnet\<close>: the selection of \<open>w8\<close> carries a GUID that is no GUID,
  \<open>w4\<close> is well-formed. And a helper \<open>SetPodNetworkGuid\<close> that refuses every entry.
\<close>

definition bad_then_good_state :: "nat state" where
  "bad_then_good_state =
     demo_state (\<lambda>p. if p = 0 then demo_pod ''w8'' ''ibnet guid=zz'' else demo_pod ''w4'' ''ibnet'')
       [''ibnet'' \<mapsto> Pods [0, 1]]"

definition unsettable_env :: "(nat, string list) env" where
  "unsettable_env = plain_env
     \<lparr>SetPodNetworkGuid := (\<lambda>network g. (network, Some ''network cni-args is not a map''))\<rparr>"

text \<open>
  Two pending pods on \<open>ibnet\<close>: the selection of \<open>w2\<close> carries the GUID
  \<open>02:00:00:00:00:00:00:03\<close>, \<open>w4\<close> carries none. A pool in which that GUID is taken
  already. And an orchestrator that serves an IB-SRIOV network without a PKey.
\<close>

definition user_and_plain_state :: "nat state" where
  "user_and_plain_state =
     demo_state (\<lambda>p. if p = 0 then demo_pod ''w2'' ''ibnet guid=02:00:00:00:00:00:00:03''
                      else demo_pod ''w4'' ''ibnet'')
       [''ibnet'' \<mapsto> Pods [0, 1]]"

definition taken_env :: "(nat, string list) env" where
  "taken_env = plain_env
     \<lparr>AllocateGUID :=
        (\<lambda>uid name g w. (if g = ''02:00:00:00:00:00:00:03'' then Some ''guid already allocated''
                           else None, w))\<rparr>"

definition no_pkey_env :: "(nat, string list) env" where
  "no_pkey_env = demo_env (\<lambda>name. ''ib-sriov'')"

section \<open>Unfolding the definitions\<close>

text \<open>The definitions of the instance and of the passes, for evaluation on concrete inputs.\<close>

lemmas demo_defs = demo_env_def demo_state_def demo_pod_def demo_parse_def demo_element_def
  demo_render_def demo_guid_def demo_configured_def demo_set_guid_def demo_unmarshal_def demo_ib_sriov_def
  demo_ParseMAC_def demo_String_def octet_def hex_char_def parse_hex_def hex_digit_def ParsePKey_spec_def
  NetworkAttachmentAnnot_def InfiniBandAnnotation_def ConfiguredInfiniBandPod_def

lemmas pass_defs = AddPeriodicUpdate_def add_network_def add_network_head_def add_network_pods_def add_pod_def lookup_networks_def
  allocate_user_guid_def allocate_generated_guid_def update_pod_def write_annotations_def release_removed_def
  add_guids_to_pkey_def withdraw_removed_guids_def retain_failed_def UnSafeRemove_def UnSafeSet_def
  record_call_def no_locals_def append_failed_def append_passed_def strings_ToLower_def to_lower_char_def
  delete_network_def delete_network_head_def delete_network_pods_def delete_pod_def remove_guids_from_pkey_def
  Let_def

section \<open>What a pass leaves unchanged\<close>

lemma released_append: "released (xs @ ys) = released xs @ released ys"
  by (induction xs rule: released.induct) auto

lemma GetPodNetwork_less: "GetPodNetwork networks networkName = Inr i \<Longrightarrow> i < length networks"
  by (induction networks arbitrary: i) (auto split: if_splits sum.splits)

subsection \<open>The first loop of the add pass\<close>

lemma allocate_user_guid_frame:
  "allocate_user_guid e n pod g s = (r, s') \<Longrightarrow>
     Items s' = Items s \<and> heap s' = heap s \<and> podNetworksMap s' = podNetworksMap s \<and>
     (\<exists>x. trace s' = trace s @ [Call_AllocateGUID (UID pod) n g x])"
  by (auto simp: allocate_user_guid_def record_call_def Let_def split: prod.splits option.splits sum.splits)

lemma allocate_generated_guid_frame:
  "allocate_generated_guid e n p networks i s = r \<Longrightarrow>
     Items (snd (final r)) = Items s \<and>
     (\<exists>evs. trace (snd (final r)) = trace s @ evs \<and> released evs = [] \<and> filter is_sm_call evs = [])"
  by (auto simp: allocate_generated_guid_def record_call_def Let_def split: prod.splits option.splits sum.splits)

lemma lookup_networks_frame:
  "lookup_networks e pod s = Inr (networks, s1) \<Longrightarrow>
     Items s1 = Items s \<and> trace s1 = trace s \<and> world s1 = world s \<and> heap s1 = heap s"
  by (auto simp: lookup_networks_def split: option.splits sum.splits)

lemma add_pod_frame:
  "add_pod e n p (s, l) = r \<Longrightarrow>
     Items (fst (final r)) = Items s \<and>
     (\<exists>evs. trace (fst (final r)) = trace s @ evs \<and> released evs = [] \<and> filter is_sm_call evs = [])"
  by (auto simp: add_pod_def Let_def dest!: lookup_networks_frame allocate_user_guid_frame allocate_generated_guid_frame
      split: prod.splits option.splits sum.splits outcome.splits)

lemma add_pods_frame:
  "add_pods e n ps sl = r \<Longrightarrow>
     Items (fst (final r)) = Items (fst sl) \<and>
     (\<exists>evs. trace (fst (final r)) = trace (fst sl) @ evs \<and> released evs = [] \<and> filter is_sm_call evs = [])"
proof (induction ps arbitrary: sl r)
  case Nil
  then show ?case by auto
next
  case (Cons p ps)
  obtain s l where sl: "sl = (s, l)" by (cases sl)
  show ?case
  proof (cases "add_pod e n p (s, l)")
    case (Returned sl')
    from add_pod_frame[OF this] Cons.IH[of sl' r] Cons.prems sl Returned
    show ?thesis by (auto simp: released_append)
  next
    case (Panicked sl')
    from add_pod_frame[OF this] Cons.prems sl Panicked
    show ?thesis by auto
  qed
qed

subsection \<open>The second loop of the add pass\<close>

lemma second_loop_frame_refl: "second_loop_frame e l ps acc acc"
  by (auto simp: second_loop_frame_def split: prod.splits)

lemma second_loop_frame_trans:
  "second_loop_frame e l [p] a b \<Longrightarrow> second_loop_frame e l ps b c \<Longrightarrow> second_loop_frame e l (p # ps) a c"
  unfolding second_loop_frame_def
  by (auto split: prod.splits simp: released_append)

lemma release_removed_frame:
  "second_loop_frame e l [p] acc (final (release_removed e l index acc))"
  by (auto simp: second_loop_frame_def release_removed_def record_call_def Let_def split: prod.splits if_splits)

lemma second_loop_frame_step:
  "second_loop_frame e l [p] (s1, failed1, removed) acc' \<Longrightarrow>
   Items s1 = Items s \<Longrightarrow> trace s1 = trace s @ evs \<Longrightarrow> released evs = [] \<Longrightarrow>
   filter is_sm_call evs = [] \<Longrightarrow> filter is_generate evs = [] \<Longrightarrow>
   failed1 = failed \<or> failed1 = failed @ [p] \<Longrightarrow>
   second_loop_frame e l [p] (s, failed, removed) acc'"
  unfolding second_loop_frame_def
  by (auto split: prod.splits simp: released_append)

lemma write_annotations_frame:
  "second_loop_frame e l [p] acc (final (write_annotations e l index p acc))"
proof -
  obtain s failed removed where acc: "acc = (s, failed, removed)" by (cases acc)
  obtain r w where set: "SetAnnotationsOnPod e (heap s p)
        (case Annotations (heap s p) of None \<Rightarrow> Map.empty | Some a \<Rightarrow> a) (world s) = (r, w)"
    by (cases "SetAnnotationsOnPod e (heap s p)
        (case Annotations (heap s p) of None \<Rightarrow> Map.empty | Some a \<Rightarrow> a) (world s)")
  let ?s1 = "record_call s (Call_SetAnnotationsOnPod p r) w"
  have s1: "Items ?s1 = Items s" "trace ?s1 = trace s @ [Call_SetAnnotationsOnPod p r]"
    by (simp_all add: record_call_def)
  show ?thesis
  proof (cases r)
    case None
    then show ?thesis using acc set
      by (auto simp: write_annotations_def Let_def second_loop_frame_def record_call_def)
  next
    case (Some err)
    show ?thesis
    proof (cases "strings_Contains (strings_ToLower err) ''not found''")
      case False
      then show ?thesis using acc set Some
        by (auto simp: write_annotations_def Let_def second_loop_frame_def record_call_def)
    next
      case True
      have "second_loop_frame e l [p] (?s1, failed, removed) (final (release_removed e l index (?s1, failed, removed)))"
        by (rule release_removed_frame)
      then have "second_loop_frame e l [p] (s, failed, removed) (final (release_removed e l index (?s1, failed, removed)))"
        by (rule second_loop_frame_step[where evs = "[Call_SetAnnotationsOnPod p r]"]) (simp_all add: s1)
      then show ?thesis using acc set Some True
        by (simp add: write_annotations_def Let_def)
    qed
  qed
qed

lemma update_pod_frame:
  "second_loop_frame e l [p] acc (final (update_pod e l index p acc))"
proof -
  obtain s failed removed where acc: "acc = (s, failed, removed)" by (cases acc)
  have wa: "\<And>s1. Items s1 = Items s \<Longrightarrow> trace s1 = trace s \<Longrightarrow>
     second_loop_frame e l [p] (s, failed, removed) (final (write_annotations e l index p (s1, failed, removed)))"
    by (rule second_loop_frame_step[OF write_annotations_frame, where evs = "[]"]) simp_all
  show ?thesis
    unfolding acc
    by (auto simp: update_pod_def Let_def second_loop_frame_refl intro!: wa
        split: prod.splits option.splits sum.splits)
       (auto simp: second_loop_frame_def)
qed

lemma update_pods_frame:
  "second_loop_frame e l ps acc (final (update_pods e l index ps acc))"
proof (induction ps arbitrary: index acc)
  case Nil
  then show ?case by (simp add: second_loop_frame_refl)
next
  case (Cons p ps)
  show ?case
  proof (cases "update_pod e l index p acc")
    case (Panicked acc')
    from update_pod_frame[of e l p acc index] Panicked
    have "second_loop_frame e l [p] acc acc'" by simp
    from second_loop_frame_trans[OF this second_loop_frame_refl]
    show ?thesis using Panicked by simp
  next
    case (Returned acc')
    from update_pod_frame[of e l p acc index] Returned
    have "second_loop_frame e l [p] acc acc'" by simp
    from second_loop_frame_trans[OF this Cons.IH[of acc' "Suc index"]]
    show ?thesis using Returned by simp
  qed
qed

subsection \<open>One network entry, and the add pass\<close>

lemma add_guids_to_pkey_Items:
  "add_guids_to_pkey e spec guids s = Continue s' \<or> add_guids_to_pkey e spec guids s = Proceed s'
     \<Longrightarrow> Items s' = Items s"
  by (auto simp: add_guids_to_pkey_def record_call_def Let_def split: if_splits prod.splits option.splits)

lemma withdraw_removed_guids_Items:
  "withdraw_removed_guids e spec guids s = Continue s' \<or> withdraw_removed_guids e spec guids s = Proceed s'
     \<Longrightarrow> Items s' = Items s"
  by (auto simp: withdraw_removed_guids_def record_call_def Let_def split: if_splits prod.splits option.splits)

lemma retain_failed_other: "n \<noteq> k \<Longrightarrow> Items (retain_failed k failed s) n = Items s n"
  by (simp add: retain_failed_def UnSafeRemove_def UnSafeSet_def)

lemma retain_failed_entry:
  "Items (retain_failed k failed s) k = (if failed = [] then None else Some (Pods failed))"
  by (simp add: retain_failed_def UnSafeRemove_def UnSafeSet_def)

lemma update_pods_Items:
  "update_pods e l index ps (s, failed, removed) = r \<Longrightarrow> Items (fst (final r)) = Items s"
  using update_pods_frame[of e l ps "(s, failed, removed)" index]
  by (auto simp: second_loop_frame_def split: prod.splits)

lemma add_network_pods_other:
  assumes "n \<noteq> k"
  shows "Items (final (add_network_pods e k spec pods s)) n = Items s n"
proof (cases "add_pods e k pods (s, no_locals)")
  case (Panicked sl)
  from add_pods_frame[OF this] Panicked show ?thesis
    by (auto simp: add_network_pods_def split: prod.splits)
next
  case (Returned sl)
  obtain s1 l where sl: "sl = (s1, l)" by (cases sl)
  from add_pods_frame[OF Returned] sl have i1: "Items s1 = Items s" by simp
  show ?thesis
  proof (cases "add_guids_to_pkey e spec (guidList l) s1")
    case (Continue s2)
    with add_guids_to_pkey_Items[of e spec "guidList l" s1 s2] i1 Returned sl show ?thesis
      by (simp add: add_network_pods_def)
  next
    case (Proceed s2)
    with add_guids_to_pkey_Items[of e spec "guidList l" s1 s2] i1 have i2: "Items s2 = Items s" by simp
    show ?thesis
    proof (cases "update_pods e l 0 (passedPods l) (s2, failedPods l, [])")
      case (Panicked acc)
      from update_pods_Items[OF this] i2 Returned sl Proceed Panicked show ?thesis
        by (auto simp: add_network_pods_def split: prod.splits)
    next
      case R: (Returned acc)
      obtain s3 failed removed where acc: "acc = (s3, failed, removed)" by (cases acc)
      from update_pods_Items[OF R] i2 acc have i3: "Items s3 = Items s" by simp
      show ?thesis
      proof (cases "withdraw_removed_guids e spec removed s3")
        case (Continue s4)
        with withdraw_removed_guids_Items[of e spec removed s3 s4] i3 Returned sl Proceed R acc
        show ?thesis by (simp add: add_network_pods_def)
      next
        case P: (Proceed s4)
        with withdraw_removed_guids_Items[of e spec removed s3 s4] i3 have "Items s4 = Items s" by simp
        with Returned sl Proceed R acc P assms show ?thesis
          by (simp add: add_network_pods_def retain_failed_other)
      qed
    qed
  qed
qed

lemma add_network_head_Items:
  "add_network_head e k s = Proceed (pods, spec, s1) \<Longrightarrow> Items s1 = Items s \<and> Items s k = Some (Pods pods) \<and> pods \<noteq> []"
  by (auto simp: add_network_head_def record_call_def Let_def
      split: option.splits item.splits list.splits prod.splits sum.splits)

lemma add_network_head_other:
  "add_network_head e k s = Continue s' \<Longrightarrow> n \<noteq> k \<Longrightarrow> Items s' n = Items s n"
  by (auto simp: add_network_head_def record_call_def Let_def UnSafeRemove_def
      split: option.splits item.splits list.splits prod.splits sum.splits)

lemma add_network_other:
  assumes "n \<noteq> k"
  shows "Items (final (add_network e k s)) n = Items s n"
proof (cases "add_network_head e k s")
  case (Continue s')
  with add_network_head_other[OF Continue assms] show ?thesis by (simp add: add_network_def)
next
  case (Proceed x)
  obtain pods spec s1 where x: "x = (pods, spec, s1)" by (cases x)
  from add_network_head_Items[of e k s pods spec s1] Proceed x
    add_network_pods_other[OF assms, of e spec pods s1]
  show ?thesis by (simp add: add_network_def)
qed

lemma add_networks_other:
  "n \<notin> set order \<Longrightarrow> Items (final (add_networks e order s)) n = Items s n"
proof (induction order arbitrary: s)
  case Nil
  then show ?case by simp
next
  case (Cons k order)
  then have nk: "n \<noteq> k" and rest: "n \<notin> set order" by auto
  show ?case
    using add_network_other[OF nk, of e s] Cons.IH[OF rest]
    by (cases "add_network e k s") auto
qed

lemma add_networks_append:
  "add_networks e (xs @ ys) s =
     (case add_networks e xs s of Panicked s' \<Rightarrow> Panicked s' | Returned s' \<Rightarrow> add_networks e ys s')"
  by (induction xs arbitrary: s) (auto split: outcome.splits)

lemma add_pass_entry:
  assumes "add_networks e before (s0\<lparr>podNetworksMap := Map.empty\<rparr>) = Returned s"
      and "n \<notin> set after"
  shows "Items (final (AddPeriodicUpdate e (before @ n # after) s0)) n = Items (final (add_network e n s)) n"
  using assms add_networks_other[of n after e]
  by (cases "add_network e n s") (auto simp: AddPeriodicUpdate_def add_networks_append)

subsection \<open>The delete pass\<close>

lemma remove_guids_from_pkey_Items:
  "remove_guids_from_pkey e spec guids s = Continue s' \<or> remove_guids_from_pkey e spec guids s = Proceed s'
     \<Longrightarrow> Items s' = Items s"
  by (auto simp: remove_guids_from_pkey_def record_call_def Let_def split: if_splits prod.splits option.splits)

lemma release_guids_Items: "Items (release_guids e guids s) = Items s"
  by (induction guids arbitrary: s) (auto simp: record_call_def Let_def split: prod.splits)

lemma delete_network_pods_other:
  assumes "n \<noteq> k"
  shows "Items (delete_network_pods e k spec pods s) n = Items s n"
proof -
  obtain guids failed where dp: "delete_pods e k (heap s) pods ([], []) = (guids, failed)"
    by (cases "delete_pods e k (heap s) pods ([], [])")
  show ?thesis
  proof (cases "remove_guids_from_pkey e spec guids s")
    case (Continue s1)
    with remove_guids_from_pkey_Items[of e spec guids s s1] dp show ?thesis
      by (simp add: delete_network_pods_def)
  next
    case (Proceed s1)
    with remove_guids_from_pkey_Items[of e spec guids s s1] dp assms show ?thesis
      by (simp add: delete_network_pods_def retain_failed_other release_guids_Items)
  qed
qed

lemma delete_network_head_Items:
  "delete_network_head e k s = Proceed (pods, spec, s1) \<Longrightarrow> Items s1 = Items s \<and> Items s k = Some (Pods pods) \<and> pods \<noteq> []"
  by (auto simp: delete_network_head_def record_call_def Let_def
      split: option.splits item.splits list.splits prod.splits sum.splits)

lemma delete_network_head_Continue:
  "delete_network_head e k s = Continue s' \<Longrightarrow> Items s' = Items s"
  by (auto simp: delete_network_head_def record_call_def Let_def
      split: option.splits item.splits list.splits prod.splits sum.splits)

lemma delete_network_other:
  assumes "n \<noteq> k"
  shows "Items (delete_network e k s) n = Items s n"
proof (cases "delete_network_head e k s")
  case (Continue s')
  with delete_network_head_Continue[OF Continue] show ?thesis by (simp add: delete_network_def)
next
  case (Proceed x)
  obtain pods spec s1 where x: "x = (pods, spec, s1)" by (cases x)
  from delete_network_head_Items[of e k s pods spec s1] Proceed x
    delete_network_pods_other[OF assms, of e spec pods s1]
  show ?thesis by (simp add: delete_network_def)
qed

lemma DeletePeriodicUpdate_other:
  "n \<notin> set order \<Longrightarrow> Items (DeletePeriodicUpdate e order s) n = Items s n"
  by (induction order arbitrary: s) (auto simp: delete_network_other)

lemma DeletePeriodicUpdate_append:
  "DeletePeriodicUpdate e (xs @ ys) s = DeletePeriodicUpdate e ys (DeletePeriodicUpdate e xs s)"
  by (induction xs arbitrary: s) auto

lemma delete_pass_entry:
  assumes "n \<notin> set after"
  shows "Items (DeletePeriodicUpdate e (before @ n # after) s0) n
           = Items (delete_network e n (DeletePeriodicUpdate e before s0)) n"
  using assms by (simp add: DeletePeriodicUpdate_append DeletePeriodicUpdate_other)

subsection \<open>Entries without pods\<close>

lemma add_network_idle:
  "Items s n = Some (Pods []) \<or> Items s n = Some NotPods \<Longrightarrow> add_network e n s = Returned s"
  by (auto simp: add_network_def add_network_head_def)

lemma delete_network_idle:
  "Items s n = Some (Pods []) \<or> Items s n = Some NotPods \<Longrightarrow> delete_network e n s = s"
  by (auto simp: delete_network_def delete_network_head_def)

lemma add_networks_idle:
  "Items s n = Some (Pods []) \<or> Items s n = Some NotPods \<Longrightarrow>
     Items (final (add_networks e order s)) n = Items s n"
proof (induction order arbitrary: s)
  case Nil
  then show ?case by simp
next
  case (Cons k order)
  show ?case
  proof (cases "k = n")
    case True
    with Cons.prems add_network_idle[OF Cons.prems, of e] Cons.IH[OF Cons.prems] show ?thesis by simp
  next
    case False
    then have nk: "n \<noteq> k" by simp
    show ?thesis
    proof (cases "add_network e k s")
      case (Panicked s')
      with add_network_other[OF nk, of e s] show ?thesis by simp
    next
      case (Returned s')
      with add_network_other[OF nk, of e s] have same: "Items s' n = Items s n" by simp
      with Cons.prems have "Items s' n = Some (Pods []) \<or> Items s' n = Some NotPods" by simp
      from Cons.IH[OF this] same Returned show ?thesis by simp
    qed
  qed
qed

lemma DeletePeriodicUpdate_idle:
  "Items s n = Some (Pods []) \<or> Items s n = Some NotPods \<Longrightarrow>
     Items (DeletePeriodicUpdate e order s) n = Items s n"
proof (induction order arbitrary: s)
  case Nil
  then show ?case by simp
next
  case (Cons k order)
  show ?case
  proof (cases "k = n")
    case True
    with delete_network_idle[OF Cons.prems, of e] Cons.IH[OF Cons.prems] show ?thesis by simp
  next
    case False
    then have nk: "n \<noteq> k" by simp
    from delete_network_other[OF nk, of e s] Cons.prems
    have "Items (delete_network e k s) n = Some (Pods []) \<or> Items (delete_network e k s) n = Some NotPods"
      by simp
    from Cons.IH[OF this] delete_network_other[OF nk, of e s] show ?thesis by simp
  qed
qed

subsection \<open>The head of an iteration, and the pods of the first loop\<close>

lemma add_network_head_Proceed:
  "add_network_head e k s = Proceed (pods, spec, s1) \<Longrightarrow>
     Items s1 = Items s \<and> heap s1 = heap s \<and> podNetworksMap s1 = podNetworksMap s \<and>
     (\<exists>ns r. trace s1 = trace s @ [Call_GetNetworkAttachmentDefinition ns k r])"
  by (auto simp: add_network_head_def record_call_def Let_def
      split: option.splits item.splits list.splits prod.splits sum.splits)

lemma add_pod_partition:
  "add_pod e n p (s, l) = Returned (s', l') \<Longrightarrow>
     (guidList l' = guidList l \<and> passedPods l' = passedPods l \<and> failedPods l' = failedPods l @ [p]) \<or>
     (\<exists>g. guidList l' = guidList l @ [g] \<and> passedPods l' = passedPods l @ [p] \<and> failedPods l' = failedPods l)"
  by (auto simp: add_pod_def Let_def append_failed_def append_passed_def
      split: prod.splits option.splits sum.splits outcome.splits)

lemma add_pods_partition:
  "add_pods e n ps (s, l) = Returned (s', l') \<Longrightarrow>
     \<exists>gs pp ff. guidList l' = guidList l @ gs \<and> passedPods l' = passedPods l @ pp \<and>
        failedPods l' = failedPods l @ ff \<and> length gs = length pp \<and>
        set pp \<subseteq> set ps \<and> set ff \<subseteq> set ps \<and> (gs = [] \<longrightarrow> ff = ps)"
proof (induction ps arbitrary: s l)
  case Nil
  then show ?case by simp
next
  case (Cons p ps)
  from Cons.prems obtain s1 l1 where step: "add_pod e n p (s, l) = Returned (s1, l1)"
    and rest: "add_pods e n ps (s1, l1) = Returned (s', l')"
    by (auto split: outcome.splits)
  from Cons.IH[OF rest] obtain gs pp ff where
    ih: "guidList l' = guidList l1 @ gs" "passedPods l' = passedPods l1 @ pp"
        "failedPods l' = failedPods l1 @ ff" "length gs = length pp"
        "set pp \<subseteq> set ps" "set ff \<subseteq> set ps" "gs = [] \<longrightarrow> ff = ps"
    by blast
  from add_pod_partition[OF step] show ?case
  proof
    assume "guidList l1 = guidList l \<and> passedPods l1 = passedPods l \<and> failedPods l1 = failedPods l @ [p]"
    with ih show ?thesis
      by (intro exI[of _ gs] exI[of _ pp] exI[of _ "p # ff"]) auto
  next
    assume "\<exists>g. guidList l1 = guidList l @ [g] \<and> passedPods l1 = passedPods l @ [p] \<and> failedPods l1 = failedPods l"
    then obtain g where "guidList l1 = guidList l @ [g]" "passedPods l1 = passedPods l @ [p]"
      "failedPods l1 = failedPods l" by blast
    with ih show ?thesis
      by (intro exI[of _ "g # gs"] exI[of _ "p # pp"] exI[of _ ff]) auto
  qed
qed

subsection \<open>A PKey that does not parse\<close>

lemma add_network_pods_unparsable:
  assumes pkey: "PKey spec \<noteq> []" and parse: "snd (ParsePKey e (PKey spec)) = Some err"
      and pods: "pods \<noteq> []" and entry: "Items s n = Some (Pods pods)"
  shows "Items (final (add_network_pods e n spec pods s)) n = Some (Pods pods) \<and>
         (\<exists>evs. trace (final (add_network_pods e n spec pods s)) = trace s @ evs \<and> filter is_sm_call evs = [])"
proof (cases "add_pods e n pods (s, no_locals)")
  case (Panicked sl)
  from add_pods_frame[OF this] Panicked entry show ?thesis
    by (auto simp: add_network_pods_def split: prod.splits)
next
  case (Returned sl)
  obtain s1 l where sl: "sl = (s1, l)" by (cases sl)
  from add_pods_frame[OF Returned] sl obtain evs where
    i1: "Items s1 = Items s" and t1: "trace s1 = trace s @ evs" "filter is_sm_call evs = []" by auto
  from add_pods_partition[of e n pods s no_locals s1 l] Returned sl
  have part: "length (guidList l) = length (passedPods l)" "guidList l = [] \<longrightarrow> failedPods l = pods"
    by (auto simp: no_locals_def)
  show ?thesis
  proof (cases "guidList l = []")
    case False
    with pkey parse have "add_guids_to_pkey e spec (guidList l) s1 = Continue s1"
      by (auto simp: add_guids_to_pkey_def split: prod.splits)
    with Returned sl i1 t1 entry show ?thesis
      by (simp add: add_network_pods_def)
  next
    case True
    with part have pp: "passedPods l = []" and ff: "failedPods l = pods" by auto
    from True have "add_guids_to_pkey e spec (guidList l) s1 = Proceed s1"
      by (simp add: add_guids_to_pkey_def)
    with Returned sl pp ff pods i1 t1 show ?thesis
      by (simp add: add_network_pods_def withdraw_removed_guids_def retain_failed_def UnSafeSet_def)
  qed
qed

lemma has_returned_final: "has_returned r \<Longrightarrow> r = Returned (final r)"
  by (cases r) simp_all

subsection \<open>The calls of the delete pass\<close>

lemma release_after_removal_seen: "release_after_removal guids True evs"
  by (induction guids True evs rule: release_after_removal.induct) simp_all

lemma release_guids_trace:
  "\<exists>evs. trace (release_guids e guids s) = trace s @ evs \<and>
         released evs = map (HardwareAddr_String e) guids"
proof (induction guids arbitrary: s)
  case Nil
  then show ?case by simp
next
  case (Cons g guids)
  obtain r w where rel: "ReleaseGUID e (HardwareAddr_String e g) (world s) = (r, w)"
    by (cases "ReleaseGUID e (HardwareAddr_String e g) (world s)")
  let ?s1 = "record_call s (Call_ReleaseGUID (HardwareAddr_String e g) r) w"
  from Cons.IH[of ?s1] obtain evs where
    "trace (release_guids e guids ?s1) = trace ?s1 @ evs" "released evs = map (HardwareAddr_String e) guids"
    by blast
  with rel show ?case
    by (intro exI[of _ "Call_ReleaseGUID (HardwareAddr_String e g) r # evs"])
       (simp add: record_call_def Let_def)
qed

lemma retain_failed_trace: "trace (retain_failed n failed s) = trace s"
  by (simp add: retain_failed_def UnSafeRemove_def UnSafeSet_def)

subsection \<open>Releases of the add pass\<close>

lemma add_pod_released:
  "trace (fst (final (add_pod e n p (s, l)))) = trace s @ evs \<Longrightarrow> released evs = []"
  using add_pod_frame[OF refl, of e n p s l] by auto

lemma update_pods_released:
  "\<exists>evs. trace (fst (final (update_pods e l index ps acc))) = trace (fst acc) @ evs \<and>
         set (released evs) \<subseteq> HardwareAddr_String e ` set (guidList l)"
proof -
  obtain s failed removed where acc: "acc = (s, failed, removed)" by (cases acc)
  obtain s' failed' removed' where fin: "final (update_pods e l index ps acc) = (s', failed', removed')"
    by (cases "final (update_pods e l index ps acc)")
  from update_pods_frame[of e l ps acc index] acc fin obtain evs new where
    "trace s' = trace s @ evs" "released evs = map (HardwareAddr_String e) new" "set new \<subseteq> set (guidList l)"
    by (auto simp: second_loop_frame_def)
  with acc fin show ?thesis by (intro exI[of _ evs]) auto
qed

subsection \<open>The failed pods are pods of the entry\<close>

lemma delete_pod_subset:
  "delete_pod e n h p (guids, failed) = (guids', failed') \<Longrightarrow> set failed' \<subseteq> set failed \<union> {p}"
  by (auto simp: delete_pod_def split: sum.splits if_splits)

lemma delete_pods_subset:
  "delete_pods e n h ps (guids, failed) = (guids', failed') \<Longrightarrow> set failed' \<subseteq> set failed \<union> set ps"
proof (induction ps arbitrary: guids failed)
  case Nil
  then show ?case by simp
next
  case (Cons p ps)
  obtain g1 f1 where step: "delete_pod e n h p (guids, failed) = (g1, f1)"
    by (cases "delete_pod e n h p (guids, failed)")
  with Cons.prems have "delete_pods e n h ps (g1, f1) = (guids', failed')" by simp
  from Cons.IH[OF this] delete_pod_subset[OF step] show ?case by auto
qed

lemma add_network_pods_failed_subset:
  assumes loop1: "add_pods e n pods (s1, no_locals) = Returned (s2, l)"
      and loop2: "update_pods e l 0 (passedPods l) (s3, failedPods l, []) = Returned (s4, failed, removed)"
  shows "set failed \<subseteq> set pods"
proof -
  from add_pods_partition[OF loop1]
  have "set (passedPods l) \<subseteq> set pods" "set (failedPods l) \<subseteq> set pods"
    by (auto simp: no_locals_def)
  moreover from update_pods_frame[of e l "passedPods l" "(s3, failedPods l, [])" 0] loop2
  obtain more where "failed = failedPods l @ more" "set more \<subseteq> set (passedPods l)"
    by (auto simp: second_loop_frame_def)
  ultimately show ?thesis by auto
qed

subsection \<open>Pods that are not configured\<close>

lemma delete_pod_skip: "not_configured e n (h p) \<Longrightarrow> delete_pod e n h p acc = acc"
  by (auto simp: not_configured_def delete_pod_def split: sum.splits prod.splits)

lemma delete_pods_skip:
  "delete_pods e n h ps acc = delete_pods e n h (filter (\<lambda>p. \<not> not_configured e n (h p)) ps) acc"
  by (induction ps arbitrary: acc) (simp_all add: delete_pod_skip)

subsection \<open>A GUID supplied by the pod\<close>

lemma add_pod_guidList:
  "\<exists>gs. guidList (snd (final (add_pod e n p (s, l)))) = guidList l @ gs"
  by (auto simp: add_pod_def append_failed_def append_passed_def Let_def
      split: sum.splits prod.splits option.splits outcome.splits)

lemma add_pods_guidList:
  "\<exists>gs. guidList (snd (final (add_pods e n ps (s, l)))) = guidList l @ gs"
proof (induction ps arbitrary: s l)
  case Nil
  then show ?case by simp
next
  case (Cons p ps)
  from add_pod_guidList[of e n p s l] obtain gs where
    g1: "guidList (snd (final (add_pod e n p (s, l)))) = guidList l @ gs" by blast
  show ?case
  proof (cases "add_pod e n p (s, l)")
    case (Panicked sl)
    with g1 show ?thesis by simp
  next
    case (Returned sl)
    obtain s1 l1 where sl: "sl = (s1, l1)" by (cases sl)
    from Cons.IH[of s1 l1] obtain gs' where
      "guidList (snd (final (add_pods e n ps (s1, l1)))) = guidList l1 @ gs'" by blast
    with g1 Returned sl show ?thesis by simp
  qed
qed

lemma write_annotations_cache:
  "podNetworksMap (fst (final (write_annotations e l index p (s, failed, removed)))) = podNetworksMap s"
  by (auto simp: write_annotations_def release_removed_def record_call_def Let_def
      split: prod.splits option.splits)

lemma guid_field_marked:
  "cni_arg (network\<lparr>CNIArgs := Some (args(InfiniBandAnnotation \<mapsto> ConfiguredInfiniBandPod))\<rparr>) ''guid''
     = args ''guid''"
  by (simp add: cni_arg_def InfiniBandAnnotation_def)

lemma guid_fields_marked:
  assumes "CNIArgs (networks ! i) = Some args"
  shows "map (\<lambda>network. cni_arg network ''guid'')
           (networks[i := (networks ! i)\<lparr>CNIArgs := Some (args(InfiniBandAnnotation \<mapsto> ConfiguredInfiniBandPod))\<rparr>])
         = map (\<lambda>network. cni_arg network ''guid'') networks"
proof (cases "i < length networks")
  case True
  have "cni_arg (networks ! i) ''guid'' = args ''guid''"
    using assms by (simp add: cni_arg_def)
  then show ?thesis
    using True by (simp add: map_update guid_field_marked list_update_same_conv)
next
  case False
  then have "length networks \<le> i" by simp
  then show ?thesis by (simp add: list_update_beyond)
qed

subsection \<open>The pointers into the cache stay valid\<close>

lemma cache_kept_refl: "cache_kept c c"
  by (simp add: cache_kept_def)

lemma cache_kept_trans: "cache_kept a b \<Longrightarrow> cache_kept b c \<Longrightarrow> cache_kept a c"
  unfolding cache_kept_def by fastforce

lemma cache_kept_update:
  "c uid = Some networks \<Longrightarrow> length networks' = length networks \<Longrightarrow> cache_kept c (c(uid \<mapsto> networks'))"
  by (simp add: cache_kept_def)

lemma cache_kept_new: "c uid = None \<Longrightarrow> cache_kept c (c(uid \<mapsto> networks))"
  by (auto simp: cache_kept_def)

lemma pointers_valid_kept:
  "pointers_valid s l \<Longrightarrow> cache_kept (podNetworksMap s) (podNetworksMap s') \<Longrightarrow>
     podNetworkMap l' = podNetworkMap l \<Longrightarrow> pointers_valid s' l'"
  unfolding pointers_valid_def cache_kept_def by fastforce

lemma lookup_networks_cache:
  "lookup_networks e pod s = Inr (networks, s1) \<Longrightarrow>
     podNetworksMap s1 (UID pod) = Some networks \<and> cache_kept (podNetworksMap s) (podNetworksMap s1)"
  by (auto simp: lookup_networks_def cache_kept_refl cache_kept_new split: option.splits sum.splits)

lemma allocate_generated_guid_cache:
  "podNetworksMap s (UID (heap s p)) = Some networks \<Longrightarrow>
     cache_kept (podNetworksMap s)
       (podNetworksMap (snd (final (allocate_generated_guid e n p networks i s))))"
  by (auto simp: allocate_generated_guid_def record_call_def Let_def cache_kept_refl cache_kept_update
      split: prod.splits option.splits sum.splits)

lemma add_pod_pointers:
  assumes "pointers_valid s l"
  shows "pointers_valid (fst (final (add_pod e n p (s, l)))) (snd (final (add_pod e n p (s, l)))) \<and>
         cache_kept (podNetworksMap s) (podNetworksMap (fst (final (add_pod e n p (s, l)))))"
proof (cases "lookup_networks e (heap s p) s")
  case (Inl err)
  with assms show ?thesis
    by (simp add: add_pod_def append_failed_def pointers_valid_def cache_kept_refl)
next
  case (Inr x)
  obtain networks s1 where x: "x = (networks, s1)" by (cases x)
  from lookup_networks_cache[of e "heap s p" s networks s1] Inr x
  have c1: "podNetworksMap s1 (UID (heap s p)) = Some networks"
    and k1: "cache_kept (podNetworksMap s) (podNetworksMap s1)" by simp_all
  from lookup_networks_frame[of e "heap s p" s networks s1] Inr x
  have h1: "heap s1 = heap s" by simp
  from pointers_valid_kept[OF assms k1 refl] have v1: "pointers_valid s1 l" .
  show ?thesis
  proof (cases "GetPodNetwork networks n")
    case (Inl err)
    with Inr x v1 k1 show ?thesis
      by (simp add: add_pod_def append_failed_def pointers_valid_def)
  next
    case found: (Inr i)
    let ?l1 = "l\<lparr>podNetworkMap := (podNetworkMap l)(UID (heap s p) \<mapsto> i)\<rparr>"
    from GetPodNetwork_less[OF found] have il: "i < length networks" .
    have v2: "pointers_valid s2 l2"
      if "cache_kept (podNetworksMap s1) (podNetworksMap s2)" "podNetworkMap l2 = podNetworkMap ?l1"
      for s2 l2
    proof -
      from that c1 obtain networks' where
        here: "podNetworksMap s2 (UID (heap s p)) = Some networks'" "length networks' = length networks"
        unfolding cache_kept_def by blast
      show ?thesis
        unfolding pointers_valid_def
      proof (intro allI impI)
        fix uid j
        assume ptr: "podNetworkMap l2 uid = Some j"
        show "\<exists>networks. podNetworksMap s2 uid = Some networks \<and> j < length networks"
        proof (cases "uid = UID (heap s p)")
          case True
          with ptr that(2) have "j = i" by simp
          with True here il show ?thesis by simp
        next
          case False
          with ptr that(2) have "podNetworkMap l uid = Some j" by simp
          with v1 obtain nets where "podNetworksMap s1 uid = Some nets" "j < length nets"
            unfolding pointers_valid_def by blast
          with that(1) show ?thesis
            unfolding cache_kept_def by fastforce
        qed
      qed
    qed
    show ?thesis
    proof (cases "GetPodNetworkGuid e (networks ! i)")
      case given: (Inr g)
      obtain r s2 where user: "allocate_user_guid e n (heap s p) g s1 = (r, s2)"
        by (cases "allocate_user_guid e n (heap s p) g s1")
      from allocate_user_guid_frame[OF user] have same: "podNetworksMap s2 = podNetworksMap s1" by simp
      then have k2: "cache_kept (podNetworksMap s1) (podNetworksMap s2)" by (simp add: cache_kept_refl)
      have fin: "fst (final (add_pod e n p (s, l))) = s2 \<and>
                 podNetworkMap (snd (final (add_pod e n p (s, l)))) = podNetworkMap ?l1"
        using Inr x found given user
        by (cases r) (simp_all add: add_pod_def Let_def append_failed_def append_passed_def)
      with v2[OF k2] cache_kept_trans[OF k1 k2] show ?thesis by simp
    next
      case (Inl err)
      define out where "out = allocate_generated_guid e n p networks i s1"
      from allocate_generated_guid_cache[of s1 p networks e n i] c1 h1
      have k2: "cache_kept (podNetworksMap s1) (podNetworksMap (snd (final out)))"
        by (simp add: out_def)
      have fin: "fst (final (add_pod e n p (s, l))) = snd (final out) \<and>
                 podNetworkMap (snd (final (add_pod e n p (s, l)))) = podNetworkMap ?l1"
        using \<open>lookup_networks e (heap s p) s = Inr x\<close> x found Inl
        unfolding out_def
        by (cases "allocate_generated_guid e n p networks i s1")
           (auto simp: add_pod_def Let_def append_failed_def append_passed_def split: option.splits)
      with v2[OF k2] cache_kept_trans[OF k1 k2] show ?thesis by simp
    qed
  qed
qed

lemma add_pods_pointers:
  "pointers_valid s l \<Longrightarrow>
     pointers_valid (fst (final (add_pods e n ps (s, l)))) (snd (final (add_pods e n ps (s, l))))"
proof (induction ps arbitrary: s l)
  case Nil
  then show ?case by simp
next
  case (Cons p ps)
  from add_pod_pointers[OF Cons.prems, of e n p]
  have step: "pointers_valid (fst (final (add_pod e n p (s, l)))) (snd (final (add_pod e n p (s, l))))"
    by simp
  show ?case
  proof (cases "add_pod e n p (s, l)")
    case (Panicked sl)
    with step show ?thesis by simp
  next
    case (Returned sl)
    obtain s1 l1 where sl: "sl = (s1, l1)" by (cases sl)
    with step Returned have "pointers_valid s1 l1" by simp
    from Cons.IH[OF this] Returned sl show ?thesis by simp
  qed
qed

lemma update_pod_cache:
  "cache_kept (podNetworksMap (fst acc)) (podNetworksMap (fst (final (update_pod e l index p acc))))"
proof -
  obtain s failed removed where acc: "acc = (s, failed, removed)" by (cases acc)
  show ?thesis
    unfolding acc
    by (auto simp: update_pod_def Let_def write_annotations_cache cache_kept_refl cache_kept_update
        split: prod.splits option.splits sum.splits)
qed

lemma update_pods_cache:
  "cache_kept (podNetworksMap (fst acc)) (podNetworksMap (fst (final (update_pods e l index ps acc))))"
proof (induction ps arbitrary: index acc)
  case Nil
  then show ?case by (simp add: cache_kept_refl)
next
  case (Cons p ps)
  show ?case
  proof (cases "update_pod e l index p acc")
    case (Panicked acc')
    with update_pod_cache[of acc e l index p] show ?thesis by simp
  next
    case (Returned acc')
    with update_pod_cache[of acc e l index p] Cons.IH[of acc' "Suc index"] show ?thesis
      by (auto intro: cache_kept_trans)
  qed
qed

text \<open>
  In the second loop, as the add pass runs it, every pod meets a pointer into cached
  selections: the pointers are valid after the first loop, which starts without
  any, and stay valid through the second.
\<close>

lemma second_loop_pointers_valid:
  assumes "add_pods e n pods (s, no_locals) = Returned (s1, l)"
      and "cache_kept (podNetworksMap s1) (podNetworksMap s2)"
  shows "pointers_valid (fst (final (update_pods e l index ps (s2, failed, removed)))) l"
proof -
  have "pointers_valid s no_locals" by (simp add: pointers_valid_def no_locals_def)
  from add_pods_pointers[OF this, of e n pods] assms(1) have "pointers_valid s1 l" by simp
  from pointers_valid_kept[OF this assms(2) refl] have "pointers_valid s2 l" .
  moreover from update_pods_cache[of "(s2, failed, removed)" e l index ps]
  have "cache_kept (podNetworksMap s2)
          (podNetworksMap (fst (final (update_pods e l index ps (s2, failed, removed)))))"
    by simp
  ultimately show ?thesis by (rule pointers_valid_kept) simp
qed

subsection \<open>The loops over a list of pods that is split in two\<close>

lemma add_pods_append:
  "add_pods e n (xs @ ys) sl =
     (case add_pods e n xs sl of Panicked sl' \<Rightarrow> Panicked sl' | Returned sl' \<Rightarrow> add_pods e n ys sl')"
  by (induction xs arbitrary: sl) (auto split: outcome.splits)

lemma update_pods_append:
  "update_pods e l index (xs @ ys) acc =
     (case update_pods e l index xs acc of
        Panicked acc' \<Rightarrow> Panicked acc'
      | Returned acc' \<Rightarrow> update_pods e l (index + length xs) ys acc')"
  by (induction xs arbitrary: index acc) (auto split: outcome.splits)

subsection \<open>The GUID of a pod that passed the first loop\<close>

lemma allocate_user_guid_passed:
  "allocate_user_guid e n pod gs s = (Some g, s') \<Longrightarrow>
     trace s' = trace s @ [Call_AllocateGUID (UID pod) n gs None] \<and> ParseMAC e gs = Inr g"
  by (auto simp: allocate_user_guid_def record_call_def Let_def split: prod.splits option.splits sum.splits)

lemma allocate_generated_guid_passed:
  "allocate_generated_guid e n p networks i s = Returned (Some g, s') \<Longrightarrow>
     \<exists>x. trace s' = trace s @ [Call_GenerateGUID x,
            Call_AllocateGUID (UID (heap s p)) n (HardwareAddr_String e g) None]"
  by (auto simp: allocate_generated_guid_def record_call_def Let_def
      split: prod.splits option.splits sum.splits)

lemma add_pod_passed_allocated:
  assumes step: "add_pod e n p (s, l) = Returned (s', l')"
      and own: "guidList l' = guidList l @ [g]"
  shows "\<exists>gs evs. trace s' = trace s @ evs \<and> Call_AllocateGUID (UID (heap s p)) n gs None \<in> set evs \<and>
           (ParseMAC e gs = Inr g \<or> gs = HardwareAddr_String e g)"
proof (cases "lookup_networks e (heap s p) s")
  case (Inl err)
  with step own show ?thesis by (auto simp: add_pod_def append_failed_def)
next
  case (Inr x)
  obtain networks s1 where x: "x = (networks, s1)" by (cases x)
  from lookup_networks_frame[of e "heap s p" s networks s1] Inr x
  have s1: "trace s1 = trace s" "heap s1 = heap s" by simp_all
  show ?thesis
  proof (cases "GetPodNetwork networks n")
    case (Inl err)
    with Inr x step own show ?thesis by (auto simp: add_pod_def append_failed_def)
  next
    case found: (Inr i)
    show ?thesis
    proof (cases "GetPodNetworkGuid e (networks ! i)")
      case given: (Inr gs)
      obtain r s2 where user: "allocate_user_guid e n (heap s p) gs s1 = (r, s2)"
        by (cases "allocate_user_guid e n (heap s p) gs s1")
      show ?thesis
      proof (cases r)
        case None
        with Inr x found given user step own show ?thesis
          by (auto simp: add_pod_def Let_def append_failed_def)
      next
        case (Some a)
        with Inr x found given user step own have "a = g" "s2 = s'"
          by (auto simp: add_pod_def Let_def append_passed_def)
        with allocate_user_guid_passed[of e n "heap s p" gs s1 g s'] user Some s1
        show ?thesis by auto
      qed
    next
      case (Inl err)
      from Inr x found Inl step own
      have "allocate_generated_guid e n p networks i s1 = Returned (Some g, s')"
        by (auto simp: add_pod_def Let_def append_failed_def append_passed_def
            split: outcome.splits option.splits prod.splits)
      from allocate_generated_guid_passed[OF this] s1 show ?thesis by auto
    qed
  qed
qed


subsection \<open>A failed annotation write\<close>

lemma update_pod_write_failure:
  assumes idx: "index < length (guidList l)"
      and wrote: "trace (fst (final (update_pod e l index p (s, failed, removed))))
                    = trace s @ Call_SetAnnotationsOnPod p (Some err) # rest"
  shows "has_returned (update_pod e l index p (s, failed, removed)) \<and>
         (if strings_Contains (strings_ToLower err) ''not found''
          then length rest = 1 \<and>
               released rest = [HardwareAddr_String e (guidList l ! index)] \<and>
               snd (snd (final (update_pod e l index p (s, failed, removed)))) = removed @ [guidList l ! index] \<and>
               fst (snd (final (update_pod e l index p (s, failed, removed)))) = failed
          else rest = [] \<and>
               fst (snd (final (update_pod e l index p (s, failed, removed)))) = failed @ [p] \<and>
               snd (snd (final (update_pod e l index p (s, failed, removed)))) = removed)"
  using idx wrote
  by (auto simp: update_pod_def write_annotations_def release_removed_def record_call_def
        Let_def
      split: prod.splits option.splits sum.splits if_splits)

lemma passed_position:
  assumes before: "add_pods e n pre (s0, no_locals) = Returned (sa, la)"
      and passed: "add_pod e n p (sa, la) = Returned (sb, lb)"
      and own: "guidList lb = guidList la @ [g]"
      and after: "add_pods e n post (sb, lb) = Returned (s1, l)"
  shows "length (guidList la) = length (passedPods la) \<and>
         (\<exists>gs pp. guidList l = guidList la @ g # gs \<and> passedPods l = passedPods la @ p # pp \<and>
                  length gs = length pp)"
proof -
  from add_pods_partition[OF before] have len: "length (guidList la) = length (passedPods la)"
    by (auto simp: no_locals_def)
  from add_pod_partition[OF passed] own have pp: "passedPods lb = passedPods la @ [p]"
    by auto
  from add_pods_partition[OF after] obtain gs pp where
    "guidList l = guidList lb @ gs" "passedPods l = passedPods lb @ pp" "length gs = length pp"
    by blast
  with own pp len show ?thesis by simp
qed

lemma add_network_pods_withdraws:
  assumes loop1: "add_pods e n pods (s0, no_locals) = Returned (s1, l)"
      and admit: "add_guids_to_pkey e spec (guidList l) s1 = Proceed s2"
      and loop2: "update_pods e l 0 (passedPods l) (s2, failedPods l, []) = Returned (s3, failed, removed)"
      and pkey: "PKey spec \<noteq> []" and batch: "removed \<noteq> []"
  shows "\<exists>r. trace (final (add_network_pods e n spec pods s0))
               = trace s3 @ [Call_RemoveGuidsFromPKey (fst (ParsePKey e (PKey spec))) removed r]"
proof -
  obtain pk perr where pk: "ParsePKey e (PKey spec) = (pk, perr)" by (cases "ParsePKey e (PKey spec)")
  obtain r w where sm: "RemoveGuidsFromPKey e pk removed (world s3) = (r, w)"
    by (cases "RemoveGuidsFromPKey e pk removed (world s3)")
  show ?thesis
    using loop1 admit loop2 pkey batch pk sm
    by (cases r)
       (simp_all add: add_network_pods_def withdraw_removed_guids_def record_call_def Let_def
          retain_failed_trace)
qed

subsection \<open>A step that fails after the allocation\<close>

lemma allocate_user_guid_fails:
  assumes "fst (AllocateGUID e (UID pod) n g (world s)) = None" and "isl (ParseMAC e g)"
  shows "\<exists>s'. allocate_user_guid e n pod g s = (None, s') \<and>
               trace s' = trace s @ [Call_AllocateGUID (UID pod) n g None]"
  using assms
  by (auto simp: allocate_user_guid_def record_call_def Let_def split: prod.splits option.splits sum.splits)

lemma allocate_generated_guid_fails:
  assumes "GenerateGUID e (world s) = (Inr guidAddr, w1)"
      and "fst (AllocateGUID e (UID (heap s p)) n (HardwareAddr_String e guidAddr) w1) = None"
      and "case SetPodNetworkGuid e (networks ! i) (HardwareAddr_String e guidAddr) of
             (network', Some setErr) \<Rightarrow> True
           | (network', None) \<Rightarrow> isl (json_Marshal e (networks[i := network']))"
  shows "\<exists>s'. allocate_generated_guid e n p networks i s = Returned (None, s') \<and>
               trace s' = trace s @ [Call_GenerateGUID (Inr guidAddr),
                 Call_AllocateGUID (UID (heap s p)) n (HardwareAddr_String e guidAddr) None]"
  using assms
  by (auto simp: allocate_generated_guid_def record_call_def Let_def split: prod.splits option.splits sum.splits)

lemma add_pod_fails_after_allocation:
  assumes look: "lookup_networks e (heap s p) s = Inr (networks, s1)"
      and entry: "GetPodNetwork networks n = Inr i"
      and fails: "fails_after_allocation e n (UID (heap s p)) networks i (world s)"
  shows "\<exists>s' evs gs.
           add_pod e n p (s, l)
             = Returned (s', append_failed (l\<lparr>podNetworkMap := (podNetworkMap l)(UID (heap s p) \<mapsto> i)\<rparr>) p) \<and>
           trace s' = trace s @ evs \<and> Call_AllocateGUID (UID (heap s p)) n gs None \<in> set evs"
proof -
  from lookup_networks_frame[OF look]
  have s1: "trace s1 = trace s" "world s1 = world s" "heap s1 = heap s" by simp_all
  show ?thesis
  proof (cases "GetPodNetworkGuid e (networks ! i)")
    case (Inr g)
    with fails s1 have "fst (AllocateGUID e (UID (heap s p)) n g (world s1)) = None" "isl (ParseMAC e g)"
      by (simp_all add: fails_after_allocation_def)
    from allocate_user_guid_fails[OF this] obtain s' where
      "allocate_user_guid e n (heap s p) g s1 = (None, s')"
      "trace s' = trace s1 @ [Call_AllocateGUID (UID (heap s p)) n g None]"
      by blast
    with look entry Inr s1 show ?thesis
      by (auto simp: add_pod_def Let_def)
  next
    case (Inl err)
    obtain r w1 where gen: "GenerateGUID e (world s1) = (r, w1)" by (cases "GenerateGUID e (world s1)")
    with fails Inl s1 obtain guidAddr where r: "r = Inr guidAddr"
      by (cases r) (simp_all add: fails_after_allocation_def)
    from fails Inl s1 gen r
    have "fst (AllocateGUID e (UID (heap s1 p)) n (HardwareAddr_String e guidAddr) w1) = None"
      and "case SetPodNetworkGuid e (networks ! i) (HardwareAddr_String e guidAddr) of
             (network', Some setErr) \<Rightarrow> True
           | (network', None) \<Rightarrow> isl (json_Marshal e (networks[i := network']))"
      by (simp_all add: fails_after_allocation_def)
    from allocate_generated_guid_fails[OF gen[unfolded r] this] obtain s' where
      "allocate_generated_guid e n p networks i s1 = Returned (None, s')"
      "trace s' = trace s1 @ [Call_GenerateGUID (Inr guidAddr),
                 Call_AllocateGUID (UID (heap s1 p)) n (HardwareAddr_String e guidAddr) None]"
      by blast
    with look entry Inl s1 show ?thesis
      by (auto simp: add_pod_def Let_def)
  qed
qed

subsection \<open>The releases of one network entry\<close>

lemma add_guids_to_pkey_trace:
  "add_guids_to_pkey e spec guids s = Continue s' \<or> add_guids_to_pkey e spec guids s = Proceed s'
     \<Longrightarrow> \<exists>evs. trace s' = trace s @ evs \<and> released evs = []"
  by (auto simp: add_guids_to_pkey_def record_call_def Let_def split: if_splits prod.splits option.splits)

lemma withdraw_removed_guids_trace:
  "withdraw_removed_guids e spec guids s = Continue s' \<or> withdraw_removed_guids e spec guids s = Proceed s'
     \<Longrightarrow> \<exists>evs. trace s' = trace s @ evs \<and> released evs = []"
  by (auto simp: withdraw_removed_guids_def record_call_def Let_def split: if_splits prod.splits option.splits)

lemma add_network_pods_released:
  "\<exists>evs. trace (final (add_network_pods e n spec pods s)) = trace s @ evs \<and>
         set (released evs)
           \<subseteq> HardwareAddr_String e ` set (guidList (snd (final (add_pods e n pods (s, no_locals)))))"
proof (cases "add_pods e n pods (s, no_locals)")
  case (Panicked sl)
  from add_pods_frame[OF this] Panicked show ?thesis
    by (auto simp: add_network_pods_def split: prod.splits)
next
  case (Returned sl)
  obtain s1 l where sl: "sl = (s1, l)" by (cases sl)
  from add_pods_frame[OF Returned] sl obtain evs1 where
    t1: "trace s1 = trace s @ evs1" "released evs1 = []" by auto
  have gl: "guidList (snd (final (add_pods e n pods (s, no_locals)))) = guidList l"
    using Returned sl by simp
  show ?thesis
  proof (cases "add_guids_to_pkey e spec (guidList l) s1")
    case (Continue s2)
    with add_guids_to_pkey_trace[of e spec "guidList l" s1 s2] obtain evs2 where
      "trace s2 = trace s1 @ evs2" "released evs2 = []" by auto
    with t1 Returned sl Continue show ?thesis
      by (intro exI[of _ "evs1 @ evs2"]) (simp add: add_network_pods_def released_append)
  next
    case (Proceed s2)
    with add_guids_to_pkey_trace[of e spec "guidList l" s1 s2] obtain evs2 where
      t2: "trace s2 = trace s1 @ evs2" "released evs2 = []" by auto
    define r3 where "r3 = update_pods e l 0 (passedPods l) (s2, failedPods l, [])"
    from update_pods_released[of e l 0 "passedPods l" "(s2, failedPods l, [])"] obtain evs3 where
      t3: "trace (fst (final r3)) = trace s2 @ evs3"
          "set (released evs3) \<subseteq> HardwareAddr_String e ` set (guidList l)"
      by (auto simp: r3_def)
    show ?thesis
    proof (cases r3)
      case (Panicked acc)
      obtain s3 failed removed where acc: "acc = (s3, failed, removed)" by (cases acc)
      from t3 Panicked acc have "trace s3 = trace s2 @ evs3" by simp
      with t1 t2 t3(2) Returned sl Proceed Panicked acc gl show ?thesis
        by (intro exI[of _ "evs1 @ evs2 @ evs3"])
           (simp add: add_network_pods_def released_append r3_def[symmetric])
    next
      case R: (Returned acc)
      obtain s3 failed removed where acc: "acc = (s3, failed, removed)" by (cases acc)
      from t3 R acc have t3': "trace s3 = trace s2 @ evs3" by simp
      show ?thesis
      proof (cases "withdraw_removed_guids e spec removed s3")
        case (Continue s4)
        with withdraw_removed_guids_trace[of e spec removed s3 s4] obtain evs4 where
          "trace s4 = trace s3 @ evs4" "released evs4 = []" by auto
        with t1 t2 t3(2) t3' Returned sl Proceed R acc Continue gl show ?thesis
          by (intro exI[of _ "evs1 @ evs2 @ evs3 @ evs4"])
             (simp add: add_network_pods_def released_append r3_def[symmetric])
      next
        case P: (Proceed s4)
        with withdraw_removed_guids_trace[of e spec removed s3 s4] obtain evs4 where
          "trace s4 = trace s3 @ evs4" "released evs4 = []" by auto
        with t1 t2 t3(2) t3' Returned sl Proceed R acc P gl show ?thesis
          by (intro exI[of _ "evs1 @ evs2 @ evs3 @ evs4"])
             (simp add: add_network_pods_def released_append r3_def[symmetric] retain_failed_trace)
      qed
    qed
  qed
qed

subsection \<open>The batch handed to the subnet manager\<close>

lemma add_network_pods_admits:
  assumes loop1: "add_pods e n pods (s0, no_locals) = Returned (s2, lf)"
      and batch: "guidList lf \<noteq> []"
      and pkey: "PKey spec \<noteq> []" and parse: "ParsePKey e (PKey spec) = (pKey, None)"
  shows "\<exists>r more. trace (final (add_network_pods e n spec pods s0))
                    = trace s2 @ Call_AddGuidsToPKey pKey (guidList lf) r # more"
proof -
  obtain r w where sm: "AddGuidsToPKey e pKey (guidList lf) (world s2) = (r, w)"
    by (cases "AddGuidsToPKey e pKey (guidList lf) (world s2)")
  define s3 where "s3 = record_call s2 (Call_AddGuidsToPKey pKey (guidList lf) r) w"
  have t3: "trace s3 = trace s2 @ [Call_AddGuidsToPKey pKey (guidList lf) r]"
    by (simp add: s3_def record_call_def)
  have admit: "add_guids_to_pkey e spec (guidList lf) s2
                 = (case r of Some err \<Rightarrow> Continue s3 | None \<Rightarrow> Proceed s3)"
    using batch pkey parse sm by (cases r) (simp_all add: add_guids_to_pkey_def s3_def Let_def)
  show ?thesis
  proof (cases r)
    case (Some err)
    with loop1 admit t3 show ?thesis by (simp add: add_network_pods_def)
  next
    case None
    define r3 where "r3 = update_pods e lf 0 (passedPods lf) (s3, failedPods lf, [])"
    from update_pods_released[of e lf 0 "passedPods lf" "(s3, failedPods lf, [])"] obtain evs3 where
      t4: "trace (fst (final r3)) = trace s3 @ evs3" by (auto simp: r3_def)
    show ?thesis
    proof (cases r3)
      case (Panicked acc)
      obtain s4 failed removed where acc: "acc = (s4, failed, removed)" by (cases acc)
      with t4 Panicked t3 loop1 admit None show ?thesis
        by (simp add: add_network_pods_def r3_def[symmetric])
    next
      case (Returned acc)
      obtain s4 failed removed where acc: "acc = (s4, failed, removed)" by (cases acc)
      from t4 Returned acc have t4': "trace s4 = trace s3 @ evs3" by simp
      show ?thesis
      proof (cases "withdraw_removed_guids e spec removed s4")
        case (Continue s5)
        with withdraw_removed_guids_trace[of e spec removed s4 s5] obtain evs5 where
          "trace s5 = trace s4 @ evs5" by auto
        with t4' t3 loop1 admit None Returned acc Continue show ?thesis
          by (simp add: add_network_pods_def r3_def[symmetric])
      next
        case (Proceed s5)
        with withdraw_removed_guids_trace[of e spec removed s4 s5] obtain evs5 where
          "trace s5 = trace s4 @ evs5" by auto
        with t4' t3 loop1 admit None Returned acc Proceed show ?thesis
          by (simp add: add_network_pods_def r3_def[symmetric] retain_failed_trace)
      qed
    qed
  qed
qed

subsection \<open>A selection entry that carries a GUID stays as it was parsed\<close>

lemma allocate_generated_guid_elsewhere:
  "u \<noteq> UID (heap s q) \<Longrightarrow>
     podNetworksMap (snd (final (allocate_generated_guid e n q networks i s))) u = podNetworksMap s u"
  "p \<noteq> q \<Longrightarrow> heap (snd (final (allocate_generated_guid e n q networks i s))) p = heap s p"
  by (auto simp: allocate_generated_guid_def record_call_def Let_def
      split: prod.splits option.splits sum.splits)

lemma lookup_networks_elsewhere:
  "lookup_networks e pod s = Inr (networks, s1) \<Longrightarrow> u \<noteq> UID pod \<Longrightarrow>
     podNetworksMap s1 u = podNetworksMap s u"
  by (auto simp: lookup_networks_def split: option.splits sum.splits)

lemma lookup_networks_cached:
  "podNetworksMap s (UID pod) = Some networks \<Longrightarrow> lookup_networks e pod s = Inr (networks, s)"
  by (simp add: lookup_networks_def)

lemma add_pod_user_entry_kept:
  assumes cache: "podNetworksMap s u = Some networks"
      and entry: "GetPodNetwork networks n = Inr i"
      and given: "GetPodNetworkGuid e (networks ! i) = Inr g"
      and uid: "UID (heap s p) = u"
  shows "podNetworksMap (fst (final (add_pod e n q (s, l)))) u = Some networks \<and>
         heap (fst (final (add_pod e n q (s, l)))) p = heap s p"
proof (cases "UID (heap s q) = u")
  case True
  with cache have look: "lookup_networks e (heap s q) s = Inr (networks, s)"
    by (simp add: lookup_networks_cached)
  obtain r s2 where user: "allocate_user_guid e n (heap s q) g s = (r, s2)"
    by (cases "allocate_user_guid e n (heap s q) g s")
  from allocate_user_guid_frame[OF user]
  have "heap s2 = heap s" "podNetworksMap s2 = podNetworksMap s" by simp_all
  moreover have "fst (final (add_pod e n q (s, l))) = s2"
    using look entry given user by (cases r) (simp_all add: add_pod_def Let_def)
  ultimately show ?thesis using cache by simp
next
  case False
  then have pq: "p \<noteq> q" using uid by auto
  show ?thesis
  proof (cases "lookup_networks e (heap s q) s")
    case (Inl err)
    with cache show ?thesis by (simp add: add_pod_def)
  next
    case (Inr x)
    obtain nets s1 where x: "x = (nets, s1)" by (cases x)
    from lookup_networks_frame[of e "heap s q" s nets s1] Inr x
    have h1: "heap s1 = heap s" by simp
    from lookup_networks_elsewhere[of e "heap s q" s nets s1 u] Inr x False cache
    have c1: "podNetworksMap s1 u = Some networks" by simp
    show ?thesis
    proof (cases "GetPodNetwork nets n")
      case (Inl err)
      with Inr x h1 c1 show ?thesis by (simp add: add_pod_def)
    next
      case found: (Inr j)
      show ?thesis
      proof (cases "GetPodNetworkGuid e (nets ! j)")
        case has: (Inr g')
        obtain r s2 where user: "allocate_user_guid e n (heap s q) g' s1 = (r, s2)"
          by (cases "allocate_user_guid e n (heap s q) g' s1")
        from allocate_user_guid_frame[OF user]
        have "heap s2 = heap s1" "podNetworksMap s2 = podNetworksMap s1" by simp_all
        moreover have "fst (final (add_pod e n q (s, l))) = s2"
          using \<open>lookup_networks e (heap s q) s = Inr x\<close> x found has user
          by (cases r) (simp_all add: add_pod_def Let_def)
        ultimately show ?thesis using h1 c1 by simp
      next
        case (Inl err)
        define out where "out = allocate_generated_guid e n q nets j s1"
        from False h1 have ne: "u \<noteq> UID (heap s1 q)" by auto
        from allocate_generated_guid_elsewhere(1)[OF ne, of e n nets j]
             allocate_generated_guid_elsewhere(2)[OF pq, of e n nets j s1] h1 c1
        have "podNetworksMap (snd (final out)) u = Some networks" "heap (snd (final out)) p = heap s p"
          by (simp_all add: out_def)
        moreover have "fst (final (add_pod e n q (s, l))) = snd (final out)"
          using \<open>lookup_networks e (heap s q) s = Inr x\<close> x found Inl
          unfolding out_def
          by (cases "allocate_generated_guid e n q nets j s1")
             (auto simp: add_pod_def Let_def split: option.splits)
        ultimately show ?thesis by simp
      qed
    qed
  qed
qed

lemma add_pods_user_entry_kept:
  assumes entry: "GetPodNetwork networks n = Inr i"
      and given: "GetPodNetworkGuid e (networks ! i) = Inr g"
  shows "podNetworksMap s (UID (heap s p)) = Some networks \<Longrightarrow>
         podNetworksMap (fst (final (add_pods e n qs (s, l)))) (UID (heap s p)) = Some networks \<and>
         heap (fst (final (add_pods e n qs (s, l)))) p = heap s p"
proof (induction qs arbitrary: s l)
  case Nil
  then show ?case by simp
next
  case (Cons q qs)
  from add_pod_user_entry_kept[OF Cons.prems entry given refl, of q l]
  have step: "podNetworksMap (fst (final (add_pod e n q (s, l)))) (UID (heap s p)) = Some networks"
             "heap (fst (final (add_pod e n q (s, l)))) p = heap s p"
    by simp_all
  show ?case
  proof (cases "add_pod e n q (s, l)")
    case (Panicked sl)
    with step show ?thesis by simp
  next
    case (Returned sl)
    obtain s1 l1 where sl: "sl = (s1, l1)" by (cases sl)
    with step Returned have s1: "podNetworksMap s1 (UID (heap s p)) = Some networks" "heap s1 p = heap s p"
      by simp_all
    then have "podNetworksMap s1 (UID (heap s1 p)) = Some networks" by simp
    from Cons.IH[OF this, of l1] s1 Returned sl show ?thesis by simp
  qed
qed

subsection \<open>The second loop keeps the \<open>guid\<close> fields\<close>

lemma guids_kept_refl: "guids_kept e s s"
  by (simp add: guids_kept_def)

lemma guids_kept_same:
  "heap s' = heap s \<Longrightarrow> podNetworksMap s' = podNetworksMap s \<Longrightarrow> guids_kept e s s'"
  by (simp add: guids_kept_def)

lemma guids_kept_trans:
  assumes "guids_kept e a b" and "guids_kept e b c"
  shows "guids_kept e a c"
  unfolding guids_kept_def
proof (intro allI conjI)
  fix p uid
  from assms show "UID (heap c p) = UID (heap a p)" by (simp add: guids_kept_def)
  from assms show "guid_fields (podNetworksMap c) uid = guid_fields (podNetworksMap a) uid"
    by (simp add: guids_kept_def)
  from assms(2) have "Annotations (heap c p) = Annotations (heap b p) \<or>
         (\<exists>a' netAnnotations networks'.
            Annotations (heap c p) = Some (a'(NetworkAttachmentAnnot \<mapsto> netAnnotations)) \<and>
            json_Marshal e networks' = Inr netAnnotations \<and>
            map (\<lambda>network. cni_arg network ''guid'') networks'
              = guid_fields (podNetworksMap b) (UID (heap b p)))"
    unfolding guids_kept_def by blast
  moreover from assms(1)
  have "guid_fields (podNetworksMap b) (UID (heap b p)) = guid_fields (podNetworksMap a) (UID (heap a p))"
    by (simp add: guids_kept_def)
  moreover from assms(1) have "Annotations (heap b p) = Annotations (heap a p) \<or>
         (\<exists>a' netAnnotations networks'.
            Annotations (heap b p) = Some (a'(NetworkAttachmentAnnot \<mapsto> netAnnotations)) \<and>
            json_Marshal e networks' = Inr netAnnotations \<and>
            map (\<lambda>network. cni_arg network ''guid'') networks'
              = guid_fields (podNetworksMap a) (UID (heap a p)))"
    unfolding guids_kept_def by blast
  ultimately show "Annotations (heap c p) = Annotations (heap a p) \<or>
         (\<exists>a' netAnnotations networks'.
            Annotations (heap c p) = Some (a'(NetworkAttachmentAnnot \<mapsto> netAnnotations)) \<and>
            json_Marshal e networks' = Inr netAnnotations \<and>
            map (\<lambda>network. cni_arg network ''guid'') networks'
              = guid_fields (podNetworksMap a) (UID (heap a p)))"
    by auto
qed

lemma write_annotations_heap:
  "heap (fst (final (write_annotations e l index p (s, failed, removed)))) = heap s"
  by (auto simp: write_annotations_def release_removed_def record_call_def Let_def
      split: prod.splits option.splits)

lemma update_pod_guids_kept:
  "guids_kept e (fst acc) (fst (final (update_pod e l index q acc)))"
proof -
  obtain s failed removed where acc: "acc = (s, failed, removed)" by (cases acc)
  show ?thesis
  proof (cases "podNetworkMap l (UID (heap s q))")
    case None
    then show ?thesis by (simp add: acc update_pod_def guids_kept_refl)
  next
    case (Some i)
    show ?thesis
    proof (cases "podNetworksMap s (UID (heap s q))")
      case None
      with Some show ?thesis by (simp add: acc update_pod_def guids_kept_refl)
    next
      case cached: (Some networks)
      show ?thesis
      proof (cases "CNIArgs (networks ! i)")
        case None
        with Some cached show ?thesis by (simp add: acc update_pod_def guids_kept_refl)
      next
        case args: (Some args)
        define networks' where "networks' = networks[i := (networks ! i)\<lparr>CNIArgs :=
                              Some (args(InfiniBandAnnotation \<mapsto> ConfiguredInfiniBandPod))\<rparr>]"
        define s1 where "s1 = s\<lparr>podNetworksMap := (podNetworksMap s)(UID (heap s q) \<mapsto> networks')\<rparr>"
        from guid_fields_marked[OF args]
        have gf: "map (\<lambda>network. cni_arg network ''guid'') networks'
                    = map (\<lambda>network. cni_arg network ''guid'') networks"
          by (simp add: networks'_def)
        have g1: "guid_fields (podNetworksMap s1) uid = guid_fields (podNetworksMap s) uid" for uid
          using gf cached by (simp add: s1_def guid_fields_def)
        have k1: "guids_kept e s s1"
          using g1 by (simp add: guids_kept_def s1_def)
        show ?thesis
        proof (cases "json_Marshal e networks'")
          case (Inl err)
          with Some cached args k1 show ?thesis
            by (simp add: acc update_pod_def Let_def networks'_def s1_def)
        next
          case (Inr netAnnotations)
          show ?thesis
          proof (cases "Annotations (heap s q)")
            case None
            with Some cached args Inr k1 show ?thesis
              by (simp add: acc update_pod_def Let_def networks'_def s1_def)
          next
            case ann: (Some a)
            define s2 where "s2 = s1\<lparr>heap := (heap s1)(q := (heap s q)\<lparr>Annotations :=
                                              Some (a(NetworkAttachmentAnnot \<mapsto> netAnnotations))\<rparr>)\<rparr>"
            have fin: "final (update_pod e l index q acc)
                         = final (write_annotations e l index q (s2, failed, removed))"
              using Some cached args Inr ann
              by (simp add: acc update_pod_def Let_def networks'_def s1_def s2_def)
            have k2: "guids_kept e s s2"
              unfolding guids_kept_def
            proof (intro allI conjI)
              fix p uid
              show "UID (heap s2 p) = UID (heap s p)" by (simp add: s2_def s1_def)
              show "guid_fields (podNetworksMap s2) uid = guid_fields (podNetworksMap s) uid"
                using g1[of uid] by (simp add: s2_def)
              show "Annotations (heap s2 p) = Annotations (heap s p) \<or>
                    (\<exists>a netAnnotations networks'.
                       Annotations (heap s2 p) = Some (a(NetworkAttachmentAnnot \<mapsto> netAnnotations)) \<and>
                       json_Marshal e networks' = Inr netAnnotations \<and>
                       map (\<lambda>network. cni_arg network ''guid'') networks'
                         = guid_fields (podNetworksMap s) (UID (heap s p)))"
              proof (cases "p = q")
                case False
                then show ?thesis by (simp add: s2_def s1_def)
              next
                case True
                have "Annotations (heap s2 p) = Some (a(NetworkAttachmentAnnot \<mapsto> netAnnotations))"
                  using True by (simp add: s2_def)
                moreover have "map (\<lambda>network. cni_arg network ''guid'') networks'
                                 = guid_fields (podNetworksMap s) (UID (heap s p))"
                  using True gf cached by (simp add: guid_fields_def)
                ultimately show ?thesis using Inr by blast
              qed
            qed
            have "guids_kept e s2 (fst (final (write_annotations e l index q (s2, failed, removed))))"
              by (rule guids_kept_same) (simp_all add: write_annotations_heap write_annotations_cache)
            from guids_kept_trans[OF k2 this] fin show ?thesis by (simp add: acc)
          qed
        qed
      qed
    qed
  qed
qed

lemma update_pods_guids_kept:
  "guids_kept e (fst acc) (fst (final (update_pods e l index ps acc)))"
proof (induction ps arbitrary: index acc)
  case Nil
  then show ?case by (simp add: guids_kept_refl)
next
  case (Cons p ps)
  show ?case
  proof (cases "update_pod e l index p acc")
    case (Panicked acc')
    with update_pod_guids_kept[of e acc l index p] show ?thesis by simp
  next
    case (Returned acc')
    with update_pod_guids_kept[of e acc l index p] Cons.IH[of acc' "Suc index"] show ?thesis
      by (auto intro: guids_kept_trans)
  qed
qed

lemma add_guids_to_pkey_same:
  "add_guids_to_pkey e spec guids s = Continue s' \<or> add_guids_to_pkey e spec guids s = Proceed s'
     \<Longrightarrow> heap s' = heap s \<and> podNetworksMap s' = podNetworksMap s"
  by (auto simp: add_guids_to_pkey_def record_call_def Let_def split: if_splits prod.splits option.splits)

lemma withdraw_removed_guids_same:
  "withdraw_removed_guids e spec guids s = Continue s' \<or> withdraw_removed_guids e spec guids s = Proceed s'
     \<Longrightarrow> heap s' = heap s \<and> podNetworksMap s' = podNetworksMap s"
  by (auto simp: withdraw_removed_guids_def record_call_def Let_def split: if_splits prod.splits option.splits)

lemma retain_failed_same:
  "heap (retain_failed n failed s) = heap s \<and> podNetworksMap (retain_failed n failed s) = podNetworksMap s"
  by (simp add: retain_failed_def UnSafeRemove_def UnSafeSet_def)

lemma add_network_pods_guids_kept:
  "guids_kept e (fst (final (add_pods e n pods (s, no_locals)))) (final (add_network_pods e n spec pods s))"
proof (cases "add_pods e n pods (s, no_locals)")
  case (Panicked sl)
  then show ?thesis by (auto simp: add_network_pods_def guids_kept_refl split: prod.splits)
next
  case (Returned sl)
  obtain s1 l where sl: "sl = (s1, l)" by (cases sl)
  show ?thesis
  proof (cases "add_guids_to_pkey e spec (guidList l) s1")
    case (Continue s2)
    with add_guids_to_pkey_same[of e spec "guidList l" s1 s2] Returned sl show ?thesis
      by (simp add: add_network_pods_def guids_kept_same)
  next
    case (Proceed s2)
    with add_guids_to_pkey_same[of e spec "guidList l" s1 s2]
    have k2: "guids_kept e s1 s2" by (simp add: guids_kept_same)
    define r3 where "r3 = update_pods e l 0 (passedPods l) (s2, failedPods l, [])"
    from update_pods_guids_kept[of e "(s2, failedPods l, [])" l 0 "passedPods l"]
    have "guids_kept e s2 (fst (final r3))" by (simp add: r3_def)
    from guids_kept_trans[OF k2 this] have k3: "guids_kept e s1 (fst (final r3))" .
    show ?thesis
    proof (cases r3)
      case (Panicked acc)
      obtain s3 failed removed where acc: "acc = (s3, failed, removed)" by (cases acc)
      with k3 Panicked Returned sl Proceed show ?thesis
        by (simp add: add_network_pods_def r3_def[symmetric])
    next
      case R: (Returned acc)
      obtain s3 failed removed where acc: "acc = (s3, failed, removed)" by (cases acc)
      from k3 R acc have k3': "guids_kept e s1 s3" by simp
      show ?thesis
      proof (cases "withdraw_removed_guids e spec removed s3")
        case (Continue s4)
        with withdraw_removed_guids_same[of e spec removed s3 s4]
        have "guids_kept e s3 s4" by (simp add: guids_kept_same)
        from guids_kept_trans[OF k3' this] Returned sl Proceed R acc Continue show ?thesis
          by (simp add: add_network_pods_def r3_def[symmetric])
      next
        case P: (Proceed s4)
        with withdraw_removed_guids_same[of e spec removed s3 s4]
        have "guids_kept e s3 (retain_failed n failed s4)"
          by (simp add: guids_kept_same retain_failed_same)
        from guids_kept_trans[OF k3' this] Returned sl Proceed R acc P show ?thesis
          by (simp add: add_network_pods_def r3_def[symmetric])
      qed
    qed
  qed
qed

section \<open>The claims\<close>

text \<open>
  C1, as stated, fails: when the config of the network attachment definition is
  malformed JSON, the add pass leaves the entry in the map. Here the orchestrator
  serves the config \<open>{\<close>; after the pass the entry still holds its pod.
\<close>

theorem malformed_json_entry_stays:
  "json_Unmarshal malformed_env ''{'' = Inl ''unexpected end of JSON input'' \<and>
   trace (final (AddPeriodicUpdate malformed_env [''ibnet''] one_pod_state))
     = [Call_GetNetworkAttachmentDefinition ''default'' ''ibnet'' (Inr ''{'')] \<and>
   Items (final (AddPeriodicUpdate malformed_env [''ibnet''] one_pod_state)) ''ibnet'' = Some (Pods [0])"
  by (simp add: malformed_env_def one_pod_state_def pass_defs demo_defs)

text \<open>
  C1, amended. When the pass reaches a network entry with at least one pod and the
  network attachment definition is fetched, a config that is malformed JSON or holds
  no IB-SRIOV spec makes that fetch the only call of the iteration. If the config
  decodes as JSON but holds no IB-SRIOV spec, the entry is absent at the end of the
  pass; if the config is malformed JSON, the entry is in the map with its pods at
  the end of the pass.
\<close>

theorem non_ib_sriov_removed_malformed_kept:
  assumes reach: "add_networks e before (s0\<lparr>podNetworksMap := Map.empty\<rparr>) = Returned s"
      and after: "n \<notin> set after"
      and entry: "Items s n = Some (Pods (p # ps))"
      and nad: "GetNetworkAttachmentDefinition e (Namespace (heap s p)) n (world s) = (Inr config, w)"
      and bad: "json_Unmarshal e config = Inl err \<or>
                (json_Unmarshal e config = Inr networkSpec \<and>
                 GetIbSriovCniFromNetwork e networkSpec = Inl err)"
  shows "trace (final (add_network e n s))
           = trace s @ [Call_GetNetworkAttachmentDefinition (Namespace (heap s p)) n (Inr config)] \<and>
         Items (final (AddPeriodicUpdate e (before @ n # after) s0)) n
           = (if isl (json_Unmarshal e config) then Some (Pods (p # ps)) else None)"
proof -
  let ?s1 = "record_call s (Call_GetNetworkAttachmentDefinition (Namespace (heap s p)) n (Inr config)) w"
  from bad have step: "add_network e n s
                         = Returned (if isl (json_Unmarshal e config) then ?s1 else UnSafeRemove n ?s1)"
    using entry nad by (auto simp: add_network_def add_network_head_def)
  then have "trace (final (add_network e n s))
               = trace s @ [Call_GetNetworkAttachmentDefinition (Namespace (heap s p)) n (Inr config)]"
    and "Items (final (add_network e n s)) n
           = (if isl (json_Unmarshal e config) then Some (Pods (p # ps)) else None)"
    using entry by (simp_all add: UnSafeRemove_def record_call_def)
  with add_pass_entry[OF reach after] show ?thesis by simp
qed

theorem non_ib_sriov_removed_malformed_kept_witness:
  "json_Unmarshal macvlan_env ''macvlan'' = Inr [''macvlan''] \<and>
   GetIbSriovCniFromNetwork macvlan_env [''macvlan''] = Inl ''not an ib-sriov network'' \<and>
   Items (final (AddPeriodicUpdate macvlan_env [''ibnet''] one_pod_state)) ''ibnet'' = None \<and>
   json_Unmarshal malformed_env ''{'' = Inl ''unexpected end of JSON input'' \<and>
   Items (final (AddPeriodicUpdate malformed_env [''ibnet''] one_pod_state)) ''ibnet'' = Some (Pods [0])"
proof -
  let ?s = "one_pod_state\<lparr>podNetworksMap := Map.empty\<rparr>"
  have after: "''ibnet'' \<notin> set []" by simp
  have entry: "Items ?s ''ibnet'' = Some (Pods (0 # []))"
    by (simp add: one_pod_state_def demo_state_def)
  have reach1: "add_networks macvlan_env [] ?s = Returned ?s" by simp
  have nad1: "GetNetworkAttachmentDefinition macvlan_env (Namespace (heap ?s 0)) ''ibnet'' (world ?s)
                = (Inr ''macvlan'', 0)"
    by (simp add: macvlan_env_def one_pod_state_def demo_defs)
  have json1: "json_Unmarshal macvlan_env ''macvlan'' = Inr [''macvlan'']"
    by (simp add: macvlan_env_def demo_defs)
  have spec1: "GetIbSriovCniFromNetwork macvlan_env [''macvlan''] = Inl ''not an ib-sriov network''"
    by (simp add: macvlan_env_def demo_defs)
  from json1 spec1
  have bad1: "json_Unmarshal macvlan_env ''macvlan'' = Inl ''not an ib-sriov network'' \<or>
              (json_Unmarshal macvlan_env ''macvlan'' = Inr [''macvlan''] \<and>
               GetIbSriovCniFromNetwork macvlan_env [''macvlan''] = Inl ''not an ib-sriov network'')"
    by simp
  have reach2: "add_networks malformed_env [] ?s = Returned ?s" by simp
  have nad2: "GetNetworkAttachmentDefinition malformed_env (Namespace (heap ?s 0)) ''ibnet'' (world ?s)
                = (Inr ''{'', 0)"
    by (simp add: malformed_env_def one_pod_state_def demo_defs)
  have json2: "json_Unmarshal malformed_env ''{'' = Inl ''unexpected end of JSON input''"
    by (simp add: malformed_env_def demo_defs)
  then have bad2: "json_Unmarshal malformed_env ''{'' = Inl ''unexpected end of JSON input'' \<or>
              (json_Unmarshal malformed_env ''{'' = Inr [] \<and>
               GetIbSriovCniFromNetwork malformed_env [] = Inl ''unexpected end of JSON input'')"
    by simp
  from non_ib_sriov_removed_malformed_kept[OF reach1 after entry nad1 bad1]
       non_ib_sriov_removed_malformed_kept[OF reach2 after entry nad2 bad2]
       json1 spec1 json2
  show ?thesis by simp
qed

text \<open>
  C2, as stated, fails: a PKey that does not parse makes the iteration leave by
  \<open>continue\<close>, and the entry stays in the map. Here the network carries the reserved
  PKey \<open>0x7fff\<close>: the pass fetches the definition, generates and allocates a GUID
  for the pod, calls the subnet manager not at all, and the entry still holds the
  pod afterwards.
\<close>

theorem reserved_pkey_entry_stays:
  "ParsePKey reserved_env ''0x7fff'' = (0, Some ''reserved pkey value'') \<and>
   trace (final (AddPeriodicUpdate reserved_env [''ibnet''] one_pod_state))
     = [Call_GetNetworkAttachmentDefinition ''default'' ''ibnet'' (Inr ''ib-sriov 0x7fff''),
        Call_GenerateGUID (Inr [2, 0, 0, 0, 0, 0, 0, 1]),
        Call_AllocateGUID ''w1'' ''ibnet'' ''02:00:00:00:00:00:00:01'' None] \<and>
   Items (final (AddPeriodicUpdate reserved_env [''ibnet''] one_pod_state)) ''ibnet'' = Some (Pods [0])"
  by (simp add: reserved_env_def one_pod_state_def pass_defs demo_defs)

text \<open>
  C2, amended. When the pass reaches a network entry, reads its IB-SRIOV spec, and
  the spec carries a non-empty PKey that \<open>ParsePKey\<close> rejects, the iteration makes no
  call to the subnet manager, and at the end of the pass the entry is in the map
  with all its pods (kept for the next pass), whether or not any GUID was gathered
  and even if the iteration panics.
\<close>

theorem unparsable_pkey_entry_stays:
  assumes reach: "add_networks e before (s0\<lparr>podNetworksMap := Map.empty\<rparr>) = Returned s"
      and after: "n \<notin> set after"
      and head: "add_network_head e n s = Proceed (pods, spec, s1)"
      and pkey: "PKey spec \<noteq> []"
      and parse: "snd (ParsePKey e (PKey spec)) = Some err"
  shows "(\<exists>evs. trace (final (add_network e n s)) = trace s @ evs \<and> filter is_sm_call evs = []) \<and>
         Items (final (AddPeriodicUpdate e (before @ n # after) s0)) n = Some (Pods pods)"
proof -
  from add_network_head_Items[OF head]
  have i1: "Items s1 = Items s" and entry: "Items s n = Some (Pods pods)" and pods: "pods \<noteq> []"
    by simp_all
  from add_network_head_Proceed[OF head] obtain ns r where
    t1: "trace s1 = trace s @ [Call_GetNetworkAttachmentDefinition ns n r]" by blast
  from entry i1 have entry1: "Items s1 n = Some (Pods pods)" by simp
  from add_network_pods_unparsable[OF pkey parse pods entry1] obtain evs where
    st: "Items (final (add_network_pods e n spec pods s1)) n = Some (Pods pods)"
    and tr: "trace (final (add_network_pods e n spec pods s1)) = trace s1 @ evs"
    and sm: "filter is_sm_call evs = []"
    by blast
  have step: "add_network e n s = add_network_pods e n spec pods s1"
    using head by (simp add: add_network_def)
  from tr t1 have "trace (final (add_network e n s))
        = trace s @ Call_GetNetworkAttachmentDefinition ns n r # evs"
    by (simp add: step)
  with sm have "\<exists>evs. trace (final (add_network e n s)) = trace s @ evs \<and> filter is_sm_call evs = []"
    by (intro exI[of _ "Call_GetNetworkAttachmentDefinition ns n r # evs"]) simp
  moreover from add_pass_entry[OF reach after] st step
  have "Items (final (AddPeriodicUpdate e (before @ n # after) s0)) n = Some (Pods pods)" by simp
  ultimately show ?thesis by simp
qed

theorem unparsable_pkey_entry_stays_witness:
  "add_networks reserved_env [] (one_pod_state\<lparr>podNetworksMap := Map.empty\<rparr>)
     = Returned (one_pod_state\<lparr>podNetworksMap := Map.empty\<rparr>) \<and>
   ''ibnet'' \<notin> set [] \<and>
   PKey \<lparr>PKey = ''0x7fff''\<rparr> \<noteq> [] \<and>
   snd (ParsePKey reserved_env (PKey \<lparr>PKey = ''0x7fff''\<rparr>)) = Some ''reserved pkey value'' \<and>
   filter is_sm_call
     (trace (final (add_network reserved_env ''ibnet'' (one_pod_state\<lparr>podNetworksMap := Map.empty\<rparr>)))) = [] \<and>
   Items (final (AddPeriodicUpdate reserved_env [''ibnet''] one_pod_state)) ''ibnet'' = Some (Pods [0])"
proof -
  let ?s = "one_pod_state\<lparr>podNetworksMap := Map.empty\<rparr>"
  let ?s1 = "record_call ?s
     (Call_GetNetworkAttachmentDefinition ''default'' ''ibnet'' (Inr ''ib-sriov 0x7fff'')) 0"
  have reach: "add_networks reserved_env [] ?s = Returned ?s" by simp
  have after: "''ibnet'' \<notin> set []" by simp
  have head: "add_network_head reserved_env ''ibnet'' ?s = Proceed ([0], \<lparr>PKey = ''0x7fff''\<rparr>, ?s1)"
    by (simp add: reserved_env_def one_pod_state_def add_network_head_def demo_defs)
  have pkey: "PKey \<lparr>PKey = ''0x7fff''\<rparr> \<noteq> []" by simp
  have parse: "snd (ParsePKey reserved_env (PKey \<lparr>PKey = ''0x7fff''\<rparr>)) = Some ''reserved pkey value''"
    by (simp add: reserved_env_def demo_defs)
  have t0: "trace ?s = []" by (simp add: one_pod_state_def demo_state_def)
  from unparsable_pkey_entry_stays[OF reach after head pkey parse] reach parse t0
  show ?thesis by auto
qed

text \<open>
  C3, as stated, fails: when \<open>RemoveGuidsFromPKey\<close> returns an error, the iteration
  leaves by \<open>continue\<close> and the bookkeeping at its end is skipped. Here the only pod
  passes, its annotation write finds no pod, its GUID is released, and the subnet
  manager refuses the withdrawal: \<open>failedPods\<close> is empty, yet the entry stays in the
  map. With a subnet manager that accepts the withdrawal, all else equal, the entry
  is removed.
\<close>

theorem refused_withdrawal_entry_stays:
  "trace (final (AddPeriodicUpdate gone_refused_env [''ibnet''] one_pod_state))
     = [Call_GetNetworkAttachmentDefinition ''default'' ''ibnet'' (Inr ''ib-sriov 0x0005''),
        Call_GenerateGUID (Inr [2, 0, 0, 0, 0, 0, 0, 1]),
        Call_AllocateGUID ''w1'' ''ibnet'' ''02:00:00:00:00:00:00:01'' None,
        Call_AddGuidsToPKey 5 [[2, 0, 0, 0, 0, 0, 0, 1]] None,
        Call_SetAnnotationsOnPod 0 (Some ''pods w1 not found''),
        Call_ReleaseGUID ''02:00:00:00:00:00:00:01'' None,
        Call_RemoveGuidsFromPKey 5 [[2, 0, 0, 0, 0, 0, 0, 1]] (Some ''subnet manager unreachable'')] \<and>
   Items (final (AddPeriodicUpdate gone_refused_env [''ibnet''] one_pod_state)) ''ibnet'' = Some (Pods [0]) \<and>
   Items (final (AddPeriodicUpdate gone_env [''ibnet''] one_pod_state)) ''ibnet'' = None"
  by (simp add: gone_refused_env_def gone_env_def one_pod_state_def pass_defs demo_defs)

text \<open>
  C3, amended. When the iteration for a network has run both loops, the PKey of the
  network is not empty and \<open>removedGuidList\<close> is not empty, \<open>RemoveGuidsFromPKey\<close> is
  called with the parsed PKey and that list, as the last call of the iteration. If
  it returns an error, the entry is left in the map as it was; if it succeeds, the
  entry is removed when \<open>failedPods\<close> is empty and replaced by \<open>failedPods\<close> otherwise.
\<close>

theorem withdrawal_decides_bookkeeping:
  assumes reach: "add_networks e before (s0\<lparr>podNetworksMap := Map.empty\<rparr>) = Returned s"
      and after: "n \<notin> set after"
      and head: "add_network_head e n s = Proceed (pods, spec, s1)"
      and loop1: "add_pods e n pods (s1, no_locals) = Returned (s2, l)"
      and admit: "add_guids_to_pkey e spec (guidList l) s2 = Proceed s3"
      and loop2: "update_pods e l 0 (passedPods l) (s3, failedPods l, []) = Returned (s4, failed, removed)"
      and pkey: "PKey spec \<noteq> []"
      and removed: "removed \<noteq> []"
      and sm: "RemoveGuidsFromPKey e (fst (ParsePKey e (PKey spec))) removed (world s4) = (r, w)"
  shows "trace (final (add_network e n s))
           = trace s4 @ [Call_RemoveGuidsFromPKey (fst (ParsePKey e (PKey spec))) removed r] \<and>
         Items (final (AddPeriodicUpdate e (before @ n # after) s0)) n
           = (case r of
                Some pkeyErr \<Rightarrow> Some (Pods pods)
              | None \<Rightarrow> if failed = [] then None else Some (Pods failed))"
proof -
  from add_network_head_Items[OF head]
  have i1: "Items s1 = Items s" and entry: "Items s n = Some (Pods pods)" by simp_all
  from add_pods_frame[OF loop1] have i2: "Items s2 = Items s1" by simp
  from add_guids_to_pkey_Items[of e spec "guidList l" s2 s3] admit have i3: "Items s3 = Items s2" by simp
  from update_pods_Items[OF loop2] have i4: "Items s4 = Items s3" by simp
  let ?s5 = "record_call s4 (Call_RemoveGuidsFromPKey (fst (ParsePKey e (PKey spec))) removed r) w"
  have i5: "Items ?s5 n = Some (Pods pods)"
    using i1 i2 i3 i4 entry by (simp add: record_call_def)
  have t5: "trace ?s5 = trace s4 @ [Call_RemoveGuidsFromPKey (fst (ParsePKey e (PKey spec))) removed r]"
    by (simp add: record_call_def)
  have wd: "withdraw_removed_guids e spec removed s4
              = (case r of Some pkeyErr \<Rightarrow> Continue ?s5 | None \<Rightarrow> Proceed ?s5)"
  proof -
    obtain pk perr where pp: "ParsePKey e (PKey spec) = (pk, perr)"
      by (cases "ParsePKey e (PKey spec)")
    then have pk: "fst (ParsePKey e (PKey spec)) = pk" by simp
    with sm have "RemoveGuidsFromPKey e pk removed (world s4) = (r, w)" by simp
    with pkey removed pp show ?thesis
      unfolding pk by (simp add: withdraw_removed_guids_def Let_def)
  qed
  have step: "add_network e n s
                = (case r of Some pkeyErr \<Rightarrow> Returned ?s5
                           | None \<Rightarrow> Returned (retain_failed n failed ?s5))"
    using head loop1 admit loop2 wd
    by (simp add: add_network_def add_network_pods_def split: option.splits)
  have tr: "trace (final (add_network e n s)) = trace ?s5"
    by (cases r) (simp_all add: step retain_failed_def UnSafeRemove_def UnSafeSet_def)
  have it: "Items (final (add_network e n s)) n
              = (case r of
                   Some pkeyErr \<Rightarrow> Some (Pods pods)
                 | None \<Rightarrow> if failed = [] then None else Some (Pods failed))"
    using i5 by (cases r) (simp_all add: step retain_failed_entry)
  from add_pass_entry[OF reach after] it tr t5 show ?thesis by simp
qed

theorem withdrawal_decides_bookkeeping_witness:
  "last (trace (final (add_network gone_refused_env ''ibnet'' (one_pod_state\<lparr>podNetworksMap := Map.empty\<rparr>))))
     = Call_RemoveGuidsFromPKey 5 [[2, 0, 0, 0, 0, 0, 0, 1]] (Some ''subnet manager unreachable'') \<and>
   Items (final (AddPeriodicUpdate gone_refused_env [''ibnet''] one_pod_state)) ''ibnet'' = Some (Pods [0])"
proof -
  let ?e = gone_refused_env
  let ?s = "one_pod_state\<lparr>podNetworksMap := Map.empty\<rparr>"
  let ?spec = "\<lparr>PKey = ''0x0005''\<rparr>"
  let ?g = "[2, 0, 0, 0, 0, 0, 0, 1] :: HardwareAddr"
  note defs = gone_refused_env_def gone_env_def one_pod_state_def pass_defs demo_defs
  define s1 where "s1 = record_call ?s
     (Call_GetNetworkAttachmentDefinition ''default'' ''ibnet'' (Inr ''ib-sriov 0x0005'')) 0"
  define r1 where "r1 = add_pods ?e ''ibnet'' [0] (s1, no_locals)"
  define s2 where "s2 = fst (final r1)"
  define l where "l = snd (final r1)"
  define s3 where "s3 = record_call s2 (Call_AddGuidsToPKey 5 [?g] None) (Suc 0)"
  define r2 where "r2 = update_pods ?e l 0 [0] (s3, [], [])"
  define s4 where "s4 = fst (final r2)"
  have reach: "add_networks ?e [] ?s = Returned ?s" by simp
  have after: "''ibnet'' \<notin> set []" by simp
  have head: "add_network_head ?e ''ibnet'' ?s = Proceed ([0], ?spec, s1)"
    by (simp add: s1_def gone_refused_env_def gone_env_def one_pod_state_def add_network_head_def demo_defs)
  have v1: "has_returned r1" "guidList l = [?g]" "passedPods l = [0]" "failedPods l = []" "world s2 = Suc 0"
    by (simp_all add: l_def s2_def r1_def s1_def defs)
  from v1(1) have loop1: "add_pods ?e ''ibnet'' [0] (s1, no_locals) = Returned (s2, l)"
    unfolding r1_def[symmetric] s2_def l_def by (cases r1) simp_all
  have admit: "add_guids_to_pkey ?e ?spec (guidList l) s2 = Proceed s3"
    by (simp add: v1 s3_def add_guids_to_pkey_def gone_refused_env_def gone_env_def demo_defs)
  have v2: "has_returned r2" "fst (snd (final r2)) = []" "snd (snd (final r2)) = [?g]" "world s4 = Suc 0"
    by (simp_all add: s4_def r2_def s3_def l_def s2_def r1_def s1_def defs)
  then have loop2: "update_pods ?e l 0 (passedPods l) (s3, failedPods l, []) = Returned (s4, [], [?g])"
    unfolding v1 r2_def[symmetric] s4_def by (cases r2) auto
  have pkey: "PKey ?spec \<noteq> []" by simp
  have removed: "[?g] \<noteq> []" by simp
  have pk: "fst (ParsePKey ?e (PKey ?spec)) = 5"
    by (simp add: gone_refused_env_def gone_env_def demo_defs)
  have sm: "RemoveGuidsFromPKey ?e (fst (ParsePKey ?e (PKey ?spec))) [?g] (world s4)
              = (Some ''subnet manager unreachable'', Suc 0)"
    by (simp add: v2 pk) (simp add: gone_refused_env_def gone_env_def demo_defs)
  from withdrawal_decides_bookkeeping[OF reach after head loop1 admit loop2 pkey removed sm] pk
  show ?thesis by simp
qed

text \<open>
  C4. When the delete pass reaches a network entry, reads its IB-SRIOV spec with a
  non-empty PKey and gathers a non-empty batch of GUIDs, the calls of the iteration
  after the fetch release a GUID only after \<open>RemoveGuidsFromPKey\<close> returned without
  error for the batch. If the PKey does not parse or the subnet manager returns an
  error, no GUID is released and the entry is in the map with its pods at the end
  of the pass; otherwise exactly the GUIDs of the batch are released, in order.
\<close>

theorem release_only_after_removal:
  assumes after: "n \<notin> set after"
      and head: "delete_network_head e n (DeletePeriodicUpdate e before s0) = Proceed (pods, spec, s1)"
      and batch: "delete_pods e n (heap s1) pods ([], []) = (guids, failed)"
      and pkey: "PKey spec \<noteq> []"
      and guids: "guids \<noteq> []"
  shows "\<exists>evs. trace (delete_network e n (DeletePeriodicUpdate e before s0)) = trace s1 @ evs \<and>
           release_after_removal guids False evs \<and>
           (if snd (ParsePKey e (PKey spec)) \<noteq> None \<or>
               fst (RemoveGuidsFromPKey e (fst (ParsePKey e (PKey spec))) guids (world s1)) \<noteq> None
            then released evs = [] \<and>
                 Items (DeletePeriodicUpdate e (before @ n # after) s0) n = Some (Pods pods)
            else released evs = map (HardwareAddr_String e) guids)"
proof -
  let ?s = "DeletePeriodicUpdate e before s0"
  from delete_network_head_Items[OF head]
  have i1: "Items s1 = Items ?s" and entry: "Items ?s n = Some (Pods pods)" by simp_all
  have step: "delete_network e n ?s = delete_network_pods e n spec pods s1"
    using head by (simp add: delete_network_def)
  obtain pk perr where pp: "ParsePKey e (PKey spec) = (pk, perr)"
    by (cases "ParsePKey e (PKey spec)")
  obtain r w where sm: "RemoveGuidsFromPKey e pk guids (world s1) = (r, w)"
    by (cases "RemoveGuidsFromPKey e pk guids (world s1)")
  let ?s2 = "record_call s1 (Call_RemoveGuidsFromPKey pk guids r) w"
  show ?thesis
  proof (cases perr)
    case (Some err)
    with pp pkey guids batch have "delete_network e n ?s = s1"
      by (simp add: step delete_network_pods_def remove_guids_from_pkey_def)
    with delete_pass_entry[OF after, of e before s0] i1 entry pp Some show ?thesis
      by (intro exI[of _ "[]"]) simp
  next
    case None
    show ?thesis
    proof (cases r)
      case (Some err)
      with pp None sm pkey guids batch have "delete_network e n ?s = ?s2"
        by (simp add: step delete_network_pods_def remove_guids_from_pkey_def)
      with delete_pass_entry[OF after, of e before s0] i1 entry pp sm Some show ?thesis
        by (intro exI[of _ "[Call_RemoveGuidsFromPKey pk guids r]"]) (simp add: record_call_def)
    next
      case accepted: None
      with pp None sm pkey guids batch
      have fin: "delete_network e n ?s = retain_failed n failed (release_guids e guids ?s2)"
        by (simp add: step delete_network_pods_def remove_guids_from_pkey_def)
      from release_guids_trace[of e guids ?s2] obtain evs where
        "trace (release_guids e guids ?s2) = trace ?s2 @ evs"
        and rel: "released evs = map (HardwareAddr_String e) guids"
        by blast
      then have "trace (delete_network e n ?s) = trace s1 @ Call_RemoveGuidsFromPKey pk guids None # evs"
        using accepted by (simp add: fin retain_failed_trace record_call_def)
      with rel pp None sm accepted show ?thesis
        by (intro exI[of _ "Call_RemoveGuidsFromPKey pk guids None # evs"])
           (simp add: release_after_removal_seen)
    qed
  qed
qed

theorem release_only_after_removal_witness:
  "released (trace (delete_network refusing_env ''ibnet'' configured_pod_state)) = [] \<and>
   Items (DeletePeriodicUpdate refusing_env [''ibnet''] configured_pod_state) ''ibnet'' = Some (Pods [0]) \<and>
   released (trace (delete_network plain_env ''ibnet'' configured_pod_state))
     = [''02:00:00:00:00:00:00:02'']"
proof -
  let ?s1 = "record_call configured_pod_state
         (Call_GetNetworkAttachmentDefinition ''default'' ''ibnet'' (Inr ''ib-sriov 0x0005'')) 0"
  let ?spec = "\<lparr>PKey = ''0x0005''\<rparr>"
  let ?g = "[2, 0, 0, 0, 0, 0, 0, 2] :: HardwareAddr"
  note defs = refusing_env_def plain_env_def configured_pod_state_def pass_defs demo_defs
  have after: "''ibnet'' \<notin> set []" by simp
  have pkey: "PKey ?spec \<noteq> []" by simp
  have guids: "[?g] \<noteq> []" by simp
  have head1: "delete_network_head refusing_env ''ibnet'' (DeletePeriodicUpdate refusing_env [] configured_pod_state)
                = Proceed ([0], ?spec, ?s1)"
    by (simp add: defs)
  have batch1: "delete_pods refusing_env ''ibnet'' (heap ?s1) [0] ([], []) = ([?g], [])"
    by (simp add: defs)
  have refused: "snd (ParsePKey refusing_env (PKey ?spec)) = None"
    "fst (RemoveGuidsFromPKey refusing_env (fst (ParsePKey refusing_env (PKey ?spec))) [?g] (world ?s1)) \<noteq> None"
    by (simp_all add: defs)
  have head2: "delete_network_head plain_env ''ibnet'' (DeletePeriodicUpdate plain_env [] configured_pod_state)
                = Proceed ([0], ?spec, ?s1)"
    by (simp add: defs)
  have batch2: "delete_pods plain_env ''ibnet'' (heap ?s1) [0] ([], []) = ([?g], [])"
    by (simp add: defs)
  have accepted: "snd (ParsePKey plain_env (PKey ?spec)) = None"
    "fst (RemoveGuidsFromPKey plain_env (fst (ParsePKey plain_env (PKey ?spec))) [?g] (world ?s1)) = None"
    by (simp_all add: defs)
  have str: "HardwareAddr_String plain_env ?g = ''02:00:00:00:00:00:00:02''"
    by (simp add: defs)
  have t1: "trace ?s1 = [Call_GetNetworkAttachmentDefinition ''default'' ''ibnet'' (Inr ''ib-sriov 0x0005'')]"
    by (simp add: record_call_def configured_pod_state_def demo_state_def)
  from release_only_after_removal[OF after head1 batch1 pkey guids] refused
       release_only_after_removal[OF after head2 batch2 pkey guids] accepted str t1
  show ?thesis by (auto simp: released_append)
qed

text \<open>
  C5. Take a network of the add pass whose first loop returns, and in it a pod that
  passed the first loop: its iteration appended the GUID \<open>g\<close> to \<open>guidList\<close>, the GUID
  that \<open>AllocateGUID\<close> accepted for the pod's UID in that iteration. In the second
  loop, which starts at position \<open>0\<close> and advances by one per pod, this pod and its
  GUID stand at the same position \<open>k\<close> of \<open>passedPods\<close> and of \<open>guidList\<close>. Let the loop
  reach position \<open>k\<close>, and let \<open>SetAnnotationsOnPod\<close> return the error \<open>err\<close> for the pod
  there. The iteration returns. If the lower-cased \<open>err\<close> contains \<open>not found\<close>, the
  one further call of the iteration releases \<open>g\<close>, the pod's own GUID, \<open>g\<close> is appended
  to \<open>removedGuidList\<close>, and \<open>failedPods\<close> is as before; if in addition the PKey is not
  empty and the loop returns, the network's last call hands a batch that contains
  \<open>g\<close> to \<open>RemoveGuidsFromPKey\<close>. Otherwise the iteration makes no further call, the
  pod is appended to \<open>failedPods\<close>, and \<open>removedGuidList\<close> is as before. In both cases
  the loop goes on at position \<open>k + 1\<close>.
\<close>

theorem gone_pod_releases_own_guid:
  assumes before: "add_pods e n pre (s0, no_locals) = Returned (sa, la)"
      and passed: "add_pod e n p (sa, la) = Returned (sb, lb)"
      and own: "guidList lb = guidList la @ [g]"
      and after: "add_pods e n post (sb, lb) = Returned (s1, l)"
      and admit: "add_guids_to_pkey e spec (guidList l) s1 = Proceed s2"
      and k: "k = length (passedPods la)"
      and reach: "update_pods e l 0 (take k (passedPods l)) (s2, failedPods l, [])
                    = Returned (s, failed, removed)"
      and run: "update_pods e l 0 (take (Suc k) (passedPods l)) (s2, failedPods l, []) = out"
      and wrote: "trace (fst (final out)) = trace s @ Call_SetAnnotationsOnPod p (Some err) # rest"
  shows "passedPods l ! k = p \<and> guidList l ! k = g \<and>
         (\<exists>gs evs. trace sb = trace sa @ evs \<and>
            Call_AllocateGUID (UID (heap sa p)) n gs None \<in> set evs \<and>
            (ParseMAC e gs = Inr g \<or> gs = HardwareAddr_String e g)) \<and>
         has_returned out \<and>
         (if strings_Contains (strings_ToLower err) ''not found''
          then length rest = 1 \<and>
               released rest = [HardwareAddr_String e g] \<and>
               snd (snd (final out)) = removed @ [g] \<and>
               fst (snd (final out)) = failed
          else rest = [] \<and>
               fst (snd (final out)) = failed @ [p] \<and>
               snd (snd (final out)) = removed) \<and>
         update_pods e l 0 (passedPods l) (s2, failedPods l, [])
           = update_pods e l (Suc k) (drop (Suc k) (passedPods l)) (final out) \<and>
         (strings_Contains (strings_ToLower err) ''not found'' \<and> PKey spec \<noteq> [] \<and>
          has_returned (update_pods e l 0 (passedPods l) (s2, failedPods l, []))
          \<longrightarrow> (\<exists>batch r. g \<in> set batch \<and>
                 trace (final (add_network_pods e n spec (pre @ p # post) s0))
                   = trace (fst (final (update_pods e l 0 (passedPods l) (s2, failedPods l, []))))
                     @ [Call_RemoveGuidsFromPKey (fst (ParsePKey e (PKey spec))) batch r]))"
proof -
  let ?acc0 = "(s2, failedPods l, [])"
  from passed_position[OF before passed own after] k obtain gs pp where
    len: "length (guidList la) = k" and gl: "guidList l = guidList la @ g # gs"
    and pl: "passedPods l = passedPods la @ p # pp" and "length gs = length pp"
    by auto
  from pl k have pos: "passedPods l ! k = p" by simp
  from gl len have gpos: "guidList l ! k = g" by (simp add: nth_append)
  from gl len have idx: "k < length (guidList l)" by simp
  from pl k have tk: "take k (passedPods l) = passedPods la"
    and tsk: "take (Suc k) (passedPods l) = passedPods la @ [p]"
    and dsk: "drop (Suc k) (passedPods l) = pp"
    by simp_all
  let ?step = "update_pod e l k p (s, failed, removed)"
  from reach tk have r1: "update_pods e l 0 (passedPods la) ?acc0 = Returned (s, failed, removed)"
    by simp
  have out: "out = (case ?step of Panicked acc' \<Rightarrow> Panicked acc' | Returned acc' \<Rightarrow> Returned acc')"
    using run tsk r1 k by (auto simp: update_pods_append split: outcome.splits)
  then have fin: "final out = final ?step" and ret: "has_returned out = has_returned ?step"
    by (cases ?step; simp)+
  from wrote fin have w: "trace (fst (final ?step)) = trace s @ Call_SetAnnotationsOnPod p (Some err) # rest"
    by simp
  from update_pod_write_failure[OF idx w] fin ret gpos
  have main: "has_returned out \<and>
         (if strings_Contains (strings_ToLower err) ''not found''
          then length rest = 1 \<and>
               released rest = [HardwareAddr_String e g] \<and>
               snd (snd (final out)) = removed @ [g] \<and>
               fst (snd (final out)) = failed
          else rest = [] \<and>
               fst (snd (final out)) = failed @ [p] \<and>
               snd (snd (final out)) = removed)"
    by simp
  then have "out = Returned (final out)" by (simp add: has_returned_final)
  with out have step: "?step = Returned (final out)" by (cases ?step) simp_all
  have "update_pods e l 0 (passedPods l) ?acc0
          = update_pods e l 0 (passedPods la @ p # pp) ?acc0"
    by (simp add: pl)
  also have "\<dots> = update_pods e l k (p # pp) (s, failed, removed)"
    using r1 k by (simp add: update_pods_append)
  also have "\<dots> = update_pods e l (Suc k) pp (final out)"
    using step by simp
  finally have cont: "update_pods e l 0 (passedPods l) ?acc0
                        = update_pods e l (Suc k) (drop (Suc k) (passedPods l)) (final out)"
    by (simp add: dsk)
  have sm: "\<exists>batch r. g \<in> set batch \<and>
              trace (final (add_network_pods e n spec (pre @ p # post) s0))
                = trace (fst (final (update_pods e l 0 (passedPods l) ?acc0)))
                  @ [Call_RemoveGuidsFromPKey (fst (ParsePKey e (PKey spec))) batch r]"
    if nf: "strings_Contains (strings_ToLower err) ''not found''" and pkey: "PKey spec \<noteq> []"
      and whole: "has_returned (update_pods e l 0 (passedPods l) ?acc0)"
  proof -
    from whole obtain s3 failedF removedF where
      loop2: "update_pods e l 0 (passedPods l) ?acc0 = Returned (s3, failedF, removedF)"
      by (cases "update_pods e l 0 (passedPods l) ?acc0") auto
    obtain so fo ro where fo: "final out = (so, fo, ro)" by (cases "final out")
    from main nf fo have ro: "ro = removed @ [g]" by simp
    from cont loop2 fo dsk
    have "update_pods e l (Suc k) pp (so, fo, ro) = Returned (s3, failedF, removedF)" by simp
    then have "final (update_pods e l (Suc k) pp (so, fo, ro)) = (s3, failedF, removedF)" by simp
    with update_pods_frame[of e l pp "(so, fo, ro)" "Suc k"]
    obtain new where "removedF = ro @ new"
      by (auto simp: second_loop_frame_def)
    with ro have mem: "g \<in> set removedF" and ne: "removedF \<noteq> []" by simp_all
    have loop1: "add_pods e n (pre @ p # post) (s0, no_locals) = Returned (s1, l)"
      using before passed after by (simp add: add_pods_append)
    from add_network_pods_withdraws[OF loop1 admit loop2 pkey ne] mem loop2
    show ?thesis by auto
  qed
  from add_pod_passed_allocated[OF passed own] pos gpos main cont sm
  show ?thesis by blast
qed


theorem gone_pod_releases_own_guid_witness:
  "guidList (snd (final (add_pods second_gone_env ''ibnet'' [0, 1] (two_passing_state, no_locals))))
     = [[2, 0, 0, 0, 0, 0, 0, 1], [2, 0, 0, 0, 0, 0, 0, 2]] \<and>
   passedPods (snd (final (add_pods second_gone_env ''ibnet'' [0, 1] (two_passing_state, no_locals))))
     = [0, 1] \<and>
   drop 5 (trace (final (add_network_pods second_gone_env ''ibnet'' \<lparr>PKey = ''0x0005''\<rparr> [0, 1]
                           two_passing_state)))
     = [Call_SetAnnotationsOnPod 0 None,
        Call_SetAnnotationsOnPod 1 (Some ''pods w7 not found''),
        Call_ReleaseGUID ''02:00:00:00:00:00:00:02'' None,
        Call_RemoveGuidsFromPKey 5 [[2, 0, 0, 0, 0, 0, 0, 2]] None] \<and>
   trace (final (add_network_pods conflict_env ''ibnet'' \<lparr>PKey = ''0x0005''\<rparr> [0] one_pod_state))
     = [Call_GenerateGUID (Inr [2, 0, 0, 0, 0, 0, 0, 1]),
        Call_AllocateGUID ''w1'' ''ibnet'' ''02:00:00:00:00:00:00:01'' None,
        Call_AddGuidsToPKey 5 [[2, 0, 0, 0, 0, 0, 0, 1]] None,
        Call_SetAnnotationsOnPod 0 (Some ''the object has been modified'')] \<and>
   Items (final (add_network_pods conflict_env ''ibnet'' \<lparr>PKey = ''0x0005''\<rparr> [0] one_pod_state))
     ''ibnet'' = Some (Pods [0])"
proof -
  let ?e = second_gone_env
  let ?spec = "\<lparr>PKey = ''0x0005''\<rparr>"
  let ?g1 = "[2, 0, 0, 0, 0, 0, 0, 1] :: HardwareAddr"
  let ?g2 = "[2, 0, 0, 0, 0, 0, 0, 2] :: HardwareAddr"
  note defs = second_gone_env_def plain_env_def two_passing_state_def pass_defs demo_defs
  define ra where "ra = add_pods ?e ''ibnet'' [0] (two_passing_state, no_locals)"
  define sa where "sa = fst (final ra)"
  define la where "la = snd (final ra)"
  define rb where "rb = add_pod ?e ''ibnet'' 1 (sa, la)"
  define sb where "sb = fst (final rb)"
  define lb where "lb = snd (final rb)"
  define s2 where "s2 = record_call sb (Call_AddGuidsToPKey 5 [?g1, ?g2] None) 2"
  define r2 where "r2 = update_pods ?e lb 0 [0] (s2, [], [])"
  define s where "s = fst (final r2)"
  define out where "out = update_pods ?e lb 0 (take (Suc 1) (passedPods lb)) (s2, failedPods lb, [])"
  have va: "has_returned ra" "guidList la = [?g1]" "passedPods la = [0]"
    by (simp_all add: la_def ra_def defs)
  from va(1) have before: "add_pods ?e ''ibnet'' [0] (two_passing_state, no_locals) = Returned (sa, la)"
    unfolding ra_def[symmetric] sa_def la_def by (cases ra) simp_all
  have vb: "has_returned rb" "guidList lb = [?g1, ?g2]" "passedPods lb = [0, 1]" "failedPods lb = []"
    "world sb = 2"
    by (simp_all add: lb_def sb_def rb_def la_def sa_def ra_def defs)
  from vb(1) have passed: "add_pod ?e ''ibnet'' 1 (sa, la) = Returned (sb, lb)"
    unfolding rb_def[symmetric] sb_def lb_def by (cases rb) simp_all
  have own: "guidList lb = guidList la @ [?g2]" by (simp add: va vb)
  have after: "add_pods ?e ''ibnet'' [] (sb, lb) = Returned (sb, lb)" by simp
  have admit: "add_guids_to_pkey ?e ?spec (guidList lb) sb = Proceed s2"
    by (simp add: vb s2_def add_guids_to_pkey_def second_gone_env_def plain_env_def demo_defs)
  have k: "(1::nat) = length (passedPods la)" by (simp add: va)
  have v2: "has_returned r2" "fst (snd (final r2)) = []" "snd (snd (final r2)) = []"
    by (simp_all add: r2_def s2_def lb_def sb_def rb_def la_def sa_def ra_def defs)
  then have reach: "update_pods ?e lb 0 (take 1 (passedPods lb)) (s2, failedPods lb, [])
                      = Returned (s, [], [])"
    unfolding vb s_def by (cases r2) (auto simp: r2_def)
  have wrote: "trace (fst (final out))
                 = trace s @ Call_SetAnnotationsOnPod 1 (Some ''pods w7 not found'')
                     # [Call_ReleaseGUID ''02:00:00:00:00:00:00:02'' None]"
    by (simp add: out_def s_def r2_def s2_def lb_def sb_def rb_def la_def sa_def ra_def defs)
  have nf: "strings_Contains (strings_ToLower ''pods w7 not found'') ''not found''"
    by (simp add: strings_ToLower_def to_lower_char_def)
  have tr: "drop 5 (trace (final (add_network_pods ?e ''ibnet'' ?spec [0, 1] two_passing_state)))
     = [Call_SetAnnotationsOnPod 0 None,
        Call_SetAnnotationsOnPod 1 (Some ''pods w7 not found''),
        Call_ReleaseGUID ''02:00:00:00:00:00:00:02'' None,
        Call_RemoveGuidsFromPKey 5 [?g2] None]"
    by (simp add: defs)
  have first: "final (add_pods ?e ''ibnet'' [0, 1] (two_passing_state, no_locals)) = (sb, lb)"
    using before passed add_pods_append[of ?e "''ibnet''" "[0]" "[1]" "(two_passing_state, no_locals)"]
    by simp
  let ?c = conflict_env
  note cdefs = conflict_env_def plain_env_def one_pod_state_def pass_defs demo_defs
  define rc where "rc = add_pod ?c ''ibnet'' 0 (one_pod_state, no_locals)"
  define sc where "sc = fst (final rc)"
  define lc where "lc = snd (final rc)"
  define s2c where "s2c = record_call sc (Call_AddGuidsToPKey 5 [?g1] None) 1"
  define outc where "outc = update_pods ?c lc 0 (take (Suc 0) (passedPods lc)) (s2c, failedPods lc, [])"
  have cbefore: "add_pods ?c ''ibnet'' [] (one_pod_state, no_locals) = Returned (one_pod_state, no_locals)"
    by simp
  have vc: "has_returned rc" "guidList lc = [?g1]" "passedPods lc = [0]" "failedPods lc = []"
    "world sc = 1"
    by (simp_all add: lc_def sc_def rc_def cdefs)
  from vc(1) have cpassed: "add_pod ?c ''ibnet'' 0 (one_pod_state, no_locals) = Returned (sc, lc)"
    unfolding rc_def[symmetric] sc_def lc_def by (cases rc) simp_all
  have cown: "guidList lc = guidList no_locals @ [?g1]" by (simp add: vc no_locals_def)
  have cafter: "add_pods ?c ''ibnet'' [] (sc, lc) = Returned (sc, lc)" by simp
  have cadmit: "add_guids_to_pkey ?c ?spec (guidList lc) sc = Proceed s2c"
    by (simp add: vc s2c_def add_guids_to_pkey_def conflict_env_def plain_env_def demo_defs)
  have ck: "(0::nat) = length (passedPods no_locals)" by (simp add: no_locals_def)
  have creach: "update_pods ?c lc 0 (take 0 (passedPods lc)) (s2c, failedPods lc, [])
                  = Returned (s2c, failedPods lc, [])"
    by simp
  have cwrote: "trace (fst (final outc))
                  = trace s2c @ Call_SetAnnotationsOnPod 0 (Some ''the object has been modified'') # []"
    by (simp add: outc_def s2c_def lc_def sc_def rc_def cdefs)
  have cnf: "\<not> strings_Contains (strings_ToLower ''the object has been modified'') ''not found''"
    by (simp add: strings_ToLower_def to_lower_char_def)
  have ctr: "trace (final (add_network_pods ?c ''ibnet'' ?spec [0] one_pod_state))
     = [Call_GenerateGUID (Inr ?g1),
        Call_AllocateGUID ''w1'' ''ibnet'' ''02:00:00:00:00:00:00:01'' None,
        Call_AddGuidsToPKey 5 [?g1] None,
        Call_SetAnnotationsOnPod 0 (Some ''the object has been modified'')]"
    "Items (final (add_network_pods ?c ''ibnet'' ?spec [0] one_pod_state)) ''ibnet'' = Some (Pods [0])"
    by (simp_all add: cdefs)
  from gone_pod_releases_own_guid[OF before passed own after admit k reach out_def[symmetric] wrote]
       gone_pod_releases_own_guid[OF cbefore cpassed cown cafter cadmit ck creach outc_def[symmetric]
         cwrote]
       nf cnf vb vc tr ctr first
  show ?thesis by simp
qed

text \<open>
  C6. Take a network of the add pass whose first loop has reached a pod with a
  selection entry for the network, and let a step of the pod's iteration fail after
  \<open>AllocateGUID\<close> has accepted the pod's GUID: the GUID of the entry does not parse,
  or the generated GUID cannot be written into the entry, or the selections cannot
  be serialised. The iteration returns, the pod is appended to \<open>failedPods\<close>,
  \<open>passedPods\<close> and \<open>guidList\<close> are as before, and the loop goes on with the remaining
  pods. The allocation is not rolled back: the calls of the iteration hold the
  accepted \<open>AllocateGUID\<close> and no \<open>ReleaseGUID\<close>, and every GUID that the work on this
  network hands to \<open>ReleaseGUID\<close> stands in \<open>guidList\<close>, to which this pod added
  nothing: \<open>guidList\<close> holds the GUIDs of the pods that passed before it and after it.
\<close>

theorem failed_step_keeps_allocation:
  assumes reach: "add_pods e n pre (s0, no_locals) = Returned (s, l)"
      and look: "lookup_networks e (heap s p) s = Inr (networks, s1)"
      and entry: "GetPodNetwork networks n = Inr i"
      and fails: "fails_after_allocation e n (UID (heap s p)) networks i (world s)"
      and run: "add_pod e n p (s, l) = out"
  shows "has_returned out \<and>
         failedPods (snd (final out)) = failedPods l @ [p] \<and>
         passedPods (snd (final out)) = passedPods l \<and>
         guidList (snd (final out)) = guidList l \<and>
         (\<exists>evs gs. trace (fst (final out)) = trace s @ evs \<and>
            Call_AllocateGUID (UID (heap s p)) n gs None \<in> set evs \<and> released evs = []) \<and>
         add_pods e n (pre @ p # post) (s0, no_locals) = add_pods e n post (final out) \<and>
         (\<exists>evs gs. trace (final (add_network_pods e n spec (pre @ p # post) s0)) = trace s0 @ evs \<and>
            guidList (snd (final (add_pods e n post (final out)))) = guidList l @ gs \<and>
            set (released evs) \<subseteq> HardwareAddr_String e ` (set (guidList l) \<union> set gs))"
proof -
  let ?l1 = "l\<lparr>podNetworkMap := (podNetworkMap l)(UID (heap s p) \<mapsto> i)\<rparr>"
  from add_pod_fails_after_allocation[OF look entry fails, of l] run obtain s' evs gs where
    out: "out = Returned (s', append_failed ?l1 p)"
    and tr: "trace s' = trace s @ evs" "Call_AllocateGUID (UID (heap s p)) n gs None \<in> set evs"
    by auto
  from add_pod_released[of e n p s l evs] run out tr have norel: "released evs = []" by simp
  have loc: "has_returned out" "failedPods (snd (final out)) = failedPods l @ [p]"
    "passedPods (snd (final out)) = passedPods l" "guidList (snd (final out)) = guidList l"
    by (simp_all add: out append_failed_def)
  have cont: "add_pods e n (pre @ p # post) (s0, no_locals) = add_pods e n post (final out)"
    using reach run out by (simp add: add_pods_append)
  obtain so lo where fo: "final out = (so, lo)" by (cases "final out")
  from add_pods_guidList[of e n post so lo] fo loc obtain gs' where
    gl: "guidList (snd (final (add_pods e n post (final out)))) = guidList l @ gs'" by auto
  from add_network_pods_released[of e n spec "pre @ p # post" s0] cont gl obtain evs' where
    "trace (final (add_network_pods e n spec (pre @ p # post) s0)) = trace s0 @ evs'"
    "set (released evs') \<subseteq> HardwareAddr_String e ` (set (guidList l) \<union> set gs')"
    by auto
  with gl have net: "\<exists>evs gs. trace (final (add_network_pods e n spec (pre @ p # post) s0)) = trace s0 @ evs \<and>
            guidList (snd (final (add_pods e n post (final out)))) = guidList l @ gs \<and>
            set (released evs) \<subseteq> HardwareAddr_String e ` (set (guidList l) \<union> set gs)"
    by blast
  from out tr norel have "\<exists>evs gs. trace (fst (final out)) = trace s @ evs \<and>
            Call_AllocateGUID (UID (heap s p)) n gs None \<in> set evs \<and> released evs = []"
    by auto
  with loc cont net show ?thesis by blast
qed


theorem failed_step_keeps_allocation_witness:
  "ParseMAC plain_env ''zz'' = Inl ''invalid MAC address'' \<and>
   failedPods (snd (final (add_pod plain_env ''ibnet'' 0 (bad_then_good_state, no_locals)))) = [0] \<and>
   guidList (snd (final (add_pod plain_env ''ibnet'' 0 (bad_then_good_state, no_locals)))) = [] \<and>
   trace (final (add_network_pods plain_env ''ibnet'' \<lparr>PKey = ''0x0005''\<rparr> [0, 1] bad_then_good_state))
     = [Call_AllocateGUID ''w8'' ''ibnet'' ''zz'' None,
        Call_GenerateGUID (Inr [2, 0, 0, 0, 0, 0, 0, 1]),
        Call_AllocateGUID ''w4'' ''ibnet'' ''02:00:00:00:00:00:00:01'' None,
        Call_AddGuidsToPKey 5 [[2, 0, 0, 0, 0, 0, 0, 1]] None,
        Call_SetAnnotationsOnPod 1 None] \<and>
   Items (final (add_network_pods plain_env ''ibnet'' \<lparr>PKey = ''0x0005''\<rparr> [0, 1] bad_then_good_state))
     ''ibnet'' = Some (Pods [0]) \<and>
   failedPods (snd (final (add_pod unsettable_env ''ibnet'' 0 (one_pod_state, no_locals)))) = [0] \<and>
   trace (fst (final (add_pod unsettable_env ''ibnet'' 0 (one_pod_state, no_locals))))
     = [Call_GenerateGUID (Inr [2, 0, 0, 0, 0, 0, 0, 1]),
        Call_AllocateGUID ''w1'' ''ibnet'' ''02:00:00:00:00:00:00:01'' None]"
proof -
  let ?spec = "\<lparr>PKey = ''0x0005''\<rparr>"
  note defs = plain_env_def unsettable_env_def bad_then_good_state_def one_pod_state_def
    pass_defs demo_defs
  define nets1 where "nets1 = [\<lparr>nse_Name = ''ibnet'', nse_Namespace = [],
                                 CNIArgs = Some [''guid'' \<mapsto> ''zz'']\<rparr>]"
  define nets2 where "nets2 = [\<lparr>nse_Name = ''ibnet'', nse_Namespace = [], CNIArgs = None\<rparr>]"
  define out1 where "out1 = add_pod plain_env ''ibnet'' 0 (bad_then_good_state, no_locals)"
  define out2 where "out2 = add_pod unsettable_env ''ibnet'' 0 (one_pod_state, no_locals)"
  have reach1: "add_pods plain_env ''ibnet'' [] (bad_then_good_state, no_locals)
                  = Returned (bad_then_good_state, no_locals)"
    and reach2: "add_pods unsettable_env ''ibnet'' [] (one_pod_state, no_locals)
                  = Returned (one_pod_state, no_locals)"
    by simp_all
  have look1: "lookup_networks plain_env (heap bad_then_good_state 0) bad_then_good_state
                 = Inr (nets1, bad_then_good_state\<lparr>podNetworksMap := [''w8'' \<mapsto> nets1]\<rparr>)"
    by (simp add: nets1_def defs)
  have look2: "lookup_networks unsettable_env (heap one_pod_state 0) one_pod_state
                 = Inr (nets2, one_pod_state\<lparr>podNetworksMap := [''w1'' \<mapsto> nets2]\<rparr>)"
    by (simp add: nets2_def defs)
  have entry1: "GetPodNetwork nets1 ''ibnet'' = Inr 0" by (simp add: nets1_def)
  have entry2: "GetPodNetwork nets2 ''ibnet'' = Inr 0" by (simp add: nets2_def)
  have fails1: "fails_after_allocation plain_env ''ibnet'' (UID (heap bad_then_good_state 0)) nets1 0
                  (world bad_then_good_state)"
    by (simp add: fails_after_allocation_def nets1_def defs)
  have fails2: "fails_after_allocation unsettable_env ''ibnet'' (UID (heap one_pod_state 0)) nets2 0
                  (world one_pod_state)"
    by (simp add: fails_after_allocation_def nets2_def defs)
  have mac: "ParseMAC plain_env ''zz'' = Inl ''invalid MAC address''"
    by (simp add: defs)
  have tr1: "trace (final (add_network_pods plain_env ''ibnet'' ?spec [0, 1] bad_then_good_state))
     = [Call_AllocateGUID ''w8'' ''ibnet'' ''zz'' None,
        Call_GenerateGUID (Inr [2, 0, 0, 0, 0, 0, 0, 1]),
        Call_AllocateGUID ''w4'' ''ibnet'' ''02:00:00:00:00:00:00:01'' None,
        Call_AddGuidsToPKey 5 [[2, 0, 0, 0, 0, 0, 0, 1]] None,
        Call_SetAnnotationsOnPod 1 None]"
    "Items (final (add_network_pods plain_env ''ibnet'' ?spec [0, 1] bad_then_good_state)) ''ibnet''
       = Some (Pods [0])"
    by (simp_all add: defs)
  have tr2: "trace (fst (final out2))
     = [Call_GenerateGUID (Inr [2, 0, 0, 0, 0, 0, 0, 1]),
        Call_AllocateGUID ''w1'' ''ibnet'' ''02:00:00:00:00:00:00:01'' None]"
    by (simp add: out2_def defs)
  have nl: "failedPods no_locals = []" "guidList no_locals = []"
    by (simp_all add: no_locals_def)
  from failed_step_keeps_allocation[OF reach1 look1 entry1 fails1 out1_def[symmetric], of "[1]" ?spec]
       failed_step_keeps_allocation[OF reach2 look2 entry2 fails2 out2_def[symmetric], of "[]" ?spec]
       mac tr1 tr2 nl
  show ?thesis
    unfolding out1_def[symmetric] out2_def[symmetric] by simp
qed

text \<open>
  C7. Add pass: when the iteration for a network reads the IB-SRIOV spec, both loops
  return, and neither the admission to the PKey nor the withdrawal of removed GUIDs
  leaves by \<open>continue\<close>, then at the end of the pass the entry is absent if
  \<open>failedPods\<close> is empty and holds exactly \<open>failedPods\<close> otherwise. Delete pass: when
  the iteration reads the spec and the withdrawal from the PKey does not leave by
  \<open>continue\<close>, the same holds. In both passes the failed pods are pods of the entry.
\<close>

theorem completed_entry_bookkeeping:
  "(add_networks e before (s0\<lparr>podNetworksMap := Map.empty\<rparr>) = Returned s \<and> n \<notin> set after \<and>
    add_network_head e n s = Proceed (pods, spec, s1) \<and>
    add_pods e n pods (s1, no_locals) = Returned (s2, l) \<and>
    add_guids_to_pkey e spec (guidList l) s2 = Proceed s3 \<and>
    update_pods e l 0 (passedPods l) (s3, failedPods l, []) = Returned (s4, failed, removed) \<and>
    withdraw_removed_guids e spec removed s4 = Proceed s5
    \<longrightarrow> Items (final (AddPeriodicUpdate e (before @ n # after) s0)) n
          = (if failed = [] then None else Some (Pods failed)) \<and>
        set failed \<subseteq> set pods) \<and>
   (n \<notin> set after \<and>
    delete_network_head e n (DeletePeriodicUpdate e before d0) = Proceed (dpods, dspec, d1) \<and>
    delete_pods e n (heap d1) dpods ([], []) = (guids, dfailed) \<and>
    remove_guids_from_pkey e dspec guids d1 = Proceed d2
    \<longrightarrow> Items (DeletePeriodicUpdate e (before @ n # after) d0) n
          = (if dfailed = [] then None else Some (Pods dfailed)) \<and>
        set dfailed \<subseteq> set dpods)"
proof (intro conjI impI)
  assume a: "add_networks e before (s0\<lparr>podNetworksMap := Map.empty\<rparr>) = Returned s \<and> n \<notin> set after \<and>
    add_network_head e n s = Proceed (pods, spec, s1) \<and>
    add_pods e n pods (s1, no_locals) = Returned (s2, l) \<and>
    add_guids_to_pkey e spec (guidList l) s2 = Proceed s3 \<and>
    update_pods e l 0 (passedPods l) (s3, failedPods l, []) = Returned (s4, failed, removed) \<and>
    withdraw_removed_guids e spec removed s4 = Proceed s5"
  then have reach: "add_networks e before (s0\<lparr>podNetworksMap := Map.empty\<rparr>) = Returned s"
    and after: "n \<notin> set after"
    and head: "add_network_head e n s = Proceed (pods, spec, s1)"
    and loop1: "add_pods e n pods (s1, no_locals) = Returned (s2, l)"
    and admit: "add_guids_to_pkey e spec (guidList l) s2 = Proceed s3"
    and loop2: "update_pods e l 0 (passedPods l) (s3, failedPods l, []) = Returned (s4, failed, removed)"
    and wd: "withdraw_removed_guids e spec removed s4 = Proceed s5"
    by simp_all
  have "add_network e n s = Returned (retain_failed n failed s5)"
    using head loop1 admit loop2 wd by (simp add: add_network_def add_network_pods_def)
  then have "Items (final (add_network e n s)) n = (if failed = [] then None else Some (Pods failed))"
    by (simp add: retain_failed_entry)
  with add_pass_entry[OF reach after]
  show "Items (final (AddPeriodicUpdate e (before @ n # after) s0)) n
          = (if failed = [] then None else Some (Pods failed))"
    by simp
  from add_network_pods_failed_subset[OF loop1 loop2] show "set failed \<subseteq> set pods" .
next
  assume d: "n \<notin> set after \<and>
    delete_network_head e n (DeletePeriodicUpdate e before d0) = Proceed (dpods, dspec, d1) \<and>
    delete_pods e n (heap d1) dpods ([], []) = (guids, dfailed) \<and>
    remove_guids_from_pkey e dspec guids d1 = Proceed d2"
  then have after: "n \<notin> set after"
    and head: "delete_network_head e n (DeletePeriodicUpdate e before d0) = Proceed (dpods, dspec, d1)"
    and batch: "delete_pods e n (heap d1) dpods ([], []) = (guids, dfailed)"
    and rm: "remove_guids_from_pkey e dspec guids d1 = Proceed d2"
    by simp_all
  have "delete_network e n (DeletePeriodicUpdate e before d0)
          = retain_failed n dfailed (release_guids e guids d2)"
    using head batch rm by (simp add: delete_network_def delete_network_pods_def)
  then have "Items (delete_network e n (DeletePeriodicUpdate e before d0)) n
               = (if dfailed = [] then None else Some (Pods dfailed))"
    by (simp add: retain_failed_entry)
  with delete_pass_entry[OF after, of e before d0]
  show "Items (DeletePeriodicUpdate e (before @ n # after) d0) n
          = (if dfailed = [] then None else Some (Pods dfailed))"
    by simp
  from delete_pods_subset[OF batch] show "set dfailed \<subseteq> set dpods" by simp
qed

theorem completed_entry_bookkeeping_witness:
  "Items (final (AddPeriodicUpdate plain_env [''ibnet''] two_pod_state)) ''ibnet'' = Some (Pods [1]) \<and>
   Items (DeletePeriodicUpdate plain_env [''ibnet''] two_deleted_state) ''ibnet'' = Some (Pods [1])"
proof -
  let ?e = plain_env
  let ?spec = "\<lparr>PKey = ''0x0005''\<rparr>"
  let ?g1 = "[2, 0, 0, 0, 0, 0, 0, 1] :: HardwareAddr"
  let ?g2 = "[2, 0, 0, 0, 0, 0, 0, 2] :: HardwareAddr"
  let ?nad = "Call_GetNetworkAttachmentDefinition ''default'' ''ibnet'' (Inr ''ib-sriov 0x0005'')"
  let ?s = "two_pod_state\<lparr>podNetworksMap := Map.empty\<rparr>"
  note defs = plain_env_def two_pod_state_def two_deleted_state_def pass_defs demo_defs
  define s1 where "s1 = record_call ?s ?nad 0"
  define r1 where "r1 = add_pods ?e ''ibnet'' [0, 1] (s1, no_locals)"
  define s2 where "s2 = fst (final r1)"
  define l where "l = snd (final r1)"
  define s3 where "s3 = record_call s2 (Call_AddGuidsToPKey 5 [?g1] None) (Suc 0)"
  define r2 where "r2 = update_pods ?e l 0 [0] (s3, [1], [])"
  define s4 where "s4 = fst (final r2)"
  define d1 where "d1 = record_call two_deleted_state ?nad 0"
  define d2 where "d2 = record_call d1 (Call_RemoveGuidsFromPKey 5 [?g2] None) 0"
  have after: "''ibnet'' \<notin> set []" by simp
  have reach: "add_networks ?e [] ?s = Returned ?s" by simp
  have head: "add_network_head ?e ''ibnet'' ?s = Proceed ([0, 1], ?spec, s1)"
    by (simp add: s1_def plain_env_def two_pod_state_def add_network_head_def demo_defs)
  have v1: "has_returned r1" "guidList l = [?g1]" "passedPods l = [0]" "failedPods l = [1]" "world s2 = Suc 0"
    by (simp_all add: l_def s2_def r1_def s1_def defs)
  from v1(1) have loop1: "add_pods ?e ''ibnet'' [0, 1] (s1, no_locals) = Returned (s2, l)"
    unfolding r1_def[symmetric] s2_def l_def by (cases r1) simp_all
  have admit: "add_guids_to_pkey ?e ?spec (guidList l) s2 = Proceed s3"
    by (simp add: v1 s3_def add_guids_to_pkey_def plain_env_def demo_defs)
  have v2: "has_returned r2" "fst (snd (final r2)) = [1]" "snd (snd (final r2)) = []"
    by (simp_all add: s4_def r2_def s3_def l_def s2_def r1_def s1_def defs)
  then have loop2: "update_pods ?e l 0 (passedPods l) (s3, failedPods l, []) = Returned (s4, [1], [])"
    unfolding v1 r2_def[symmetric] s4_def by (cases r2) auto
  have wd: "withdraw_removed_guids ?e ?spec [] s4 = Proceed s4"
    by (simp add: withdraw_removed_guids_def)
  have dhead: "delete_network_head ?e ''ibnet'' (DeletePeriodicUpdate ?e [] two_deleted_state)
                 = Proceed ([0, 1], ?spec, d1)"
    by (simp add: d1_def plain_env_def two_deleted_state_def delete_network_head_def demo_defs)
  have batch: "delete_pods ?e ''ibnet'' (heap d1) [0, 1] ([], []) = ([?g2], [1])"
    by (simp add: d1_def defs)
  have rm: "remove_guids_from_pkey ?e ?spec [?g2] d1 = Proceed d2"
    by (simp add: d2_def d1_def defs)
  from completed_entry_bookkeeping[of ?e "[]" two_pod_state ?s "''ibnet''" "[]" "[0, 1]" ?spec
      s1 s2 l s3 s4 "[1]" "[]" s4 two_deleted_state "[0, 1]" ?spec d1 "[?g2]" "[1]" d2]
    reach after head loop1 admit loop2 wd dhead batch rm
  show ?thesis by simp
qed

text \<open>
  C8, as stated, fails where the pool refuses the GUID, and where the network has
  no PKey. With the pool of \<open>taken_env\<close>, the pod \<open>w2\<close>, whose selection entry carries
  \<open>02:00:00:00:00:00:00:03\<close>, fails and stays in the map, and the batch handed to the
  subnet manager holds the GUID of \<open>w4\<close> only. With a network without PKey, the GUID
  of \<open>w2\<close> is allocated, and the subnet manager is not called at all.
\<close>

theorem refused_user_guid_left_out:
  "ParsePodNetworkAnnotation taken_env (heap user_and_plain_state 0) = Inr user_guid_networks \<and>
   GetPodNetworkGuid taken_env (user_guid_networks ! 0) = Inr ''02:00:00:00:00:00:00:03'' \<and>
   trace (final (AddPeriodicUpdate taken_env [''ibnet''] user_and_plain_state))
     = [Call_GetNetworkAttachmentDefinition ''default'' ''ibnet'' (Inr ''ib-sriov 0x0005''),
        Call_AllocateGUID ''w2'' ''ibnet'' ''02:00:00:00:00:00:00:03'' (Some ''guid already allocated''),
        Call_GenerateGUID (Inr [2, 0, 0, 0, 0, 0, 0, 1]),
        Call_AllocateGUID ''w4'' ''ibnet'' ''02:00:00:00:00:00:00:01'' None,
        Call_AddGuidsToPKey 5 [[2, 0, 0, 0, 0, 0, 0, 1]] None,
        Call_SetAnnotationsOnPod 1 None] \<and>
   Items (final (AddPeriodicUpdate taken_env [''ibnet''] user_and_plain_state)) ''ibnet''
     = Some (Pods [0]) \<and>
   trace (final (AddPeriodicUpdate no_pkey_env [''ibnet''] user_guid_state))
     = [Call_GetNetworkAttachmentDefinition ''default'' ''ibnet'' (Inr ''ib-sriov''),
        Call_AllocateGUID ''w2'' ''ibnet'' ''02:00:00:00:00:00:00:03'' None,
        Call_SetAnnotationsOnPod 0 None]"
  by (simp add: taken_env_def no_pkey_env_def plain_env_def user_and_plain_state_def user_guid_state_def
        user_guid_networks_def pass_defs demo_defs)

text \<open>
  C8, amended. Take a network of the add pass whose first loop has reached a pod
  whose selection entry for the network carries the GUID \<open>g\<close>. The iteration returns,
  and its one call is \<open>AllocateGUID\<close> with the pod's UID, the network and \<open>g\<close> itself:
  no GUID is generated, and the pod is not written to. If the pool accepts \<open>g\<close> and
  \<open>g\<close> parses, the parsed \<open>g\<close> and the pod are appended to \<open>guidList\<close> and
  \<open>passedPods\<close>; otherwise the pod is appended to \<open>failedPods\<close> and \<open>guidList\<close> is as
  before. If the pool accepts \<open>g\<close>, \<open>g\<close> parses, the first loop returns, and the PKey
  of the network is not empty and parses, then the next call of the pass is
  \<open>AddGuidsToPKey\<close> with the parsed PKey and \<open>guidList\<close>, which holds the parsed \<open>g\<close>.
  Whatever the network iteration goes on to do, the cached selections of the pod
  keep the \<open>guid\<close> fields they were parsed with, and the annotations of the pod are
  either as they were or hold, as the network selection, the serialisation of
  selections with exactly those \<open>guid\<close> fields.
\<close>

theorem user_guid_reaches_subnet_manager:
  assumes reach: "add_pods e n pre (s0, no_locals) = Returned (s, l)"
      and look: "lookup_networks e (heap s p) s = Inr (networks, s1)"
      and entry: "GetPodNetwork networks n = Inr i"
      and given: "GetPodNetworkGuid e (networks ! i) = Inr g"
      and call: "AllocateGUID e (UID (heap s p)) n g (world s) = (r, w)"
      and run: "add_pod e n p (s, l) = out"
      and net: "final (add_network_pods e n spec (pre @ p # post) s0) = sf"
  shows "has_returned out \<and>
         trace (fst (final out)) = trace s @ [Call_AllocateGUID (UID (heap s p)) n g r] \<and>
         heap (fst (final out)) = heap s \<and>
         (if r = None \<and> \<not> isl (ParseMAC e g)
          then guidList (snd (final out)) = guidList l @ [projr (ParseMAC e g)] \<and>
               passedPods (snd (final out)) = passedPods l @ [p] \<and>
               failedPods (snd (final out)) = failedPods l
          else guidList (snd (final out)) = guidList l \<and>
               passedPods (snd (final out)) = passedPods l \<and>
               failedPods (snd (final out)) = failedPods l @ [p]) \<and>
         (r = None \<and> ParseMAC e g = Inr guidAddr \<and>
          add_pods e n post (final out) = Returned (s2, lf) \<and>
          PKey spec \<noteq> [] \<and> ParsePKey e (PKey spec) = (pKey, None)
          \<longrightarrow> guidAddr \<in> set (guidList lf) \<and>
              (\<exists>r' more. trace sf = trace s2 @ Call_AddGuidsToPKey pKey (guidList lf) r' # more)) \<and>
         UID (heap sf p) = UID (heap s p) \<and>
         guid_fields (podNetworksMap sf) (UID (heap s p))
           = map (\<lambda>network. cni_arg network ''guid'') networks \<and>
         (Annotations (heap sf p) = Annotations (heap s p) \<or>
          (\<exists>a netAnnotations networks'.
             Annotations (heap sf p) = Some (a(NetworkAttachmentAnnot \<mapsto> netAnnotations)) \<and>
             json_Marshal e networks' = Inr netAnnotations \<and>
             map (\<lambda>network. cni_arg network ''guid'') networks'
               = map (\<lambda>network. cni_arg network ''guid'') networks))"
proof -
  from lookup_networks_frame[OF look]
  have s1: "trace s1 = trace s" "world s1 = world s" "heap s1 = heap s" by simp_all
  from lookup_networks_cache[OF look]
  have c1: "podNetworksMap s1 (UID (heap s p)) = Some networks" by simp
  let ?sb = "record_call s1 (Call_AllocateGUID (UID (heap s p)) n g r) w"
  let ?l1 = "l\<lparr>podNetworkMap := (podNetworkMap l)(UID (heap s p) \<mapsto> i)\<rparr>"
  let ?ok = "r = None \<and> \<not> isl (ParseMAC e g)"
  have user: "allocate_user_guid e n (heap s p) g s1
                = (if ?ok then Some (projr (ParseMAC e g)) else None, ?sb)"
    using call s1 by (cases r; cases "ParseMAC e g") (simp_all add: allocate_user_guid_def)
  have out: "out = Returned (?sb, if ?ok then append_passed ?l1 p (projr (ParseMAC e g))
                                  else append_failed ?l1 p)"
    using look entry given user run by (auto simp: add_pod_def Let_def)
  have sb: "trace ?sb = trace s @ [Call_AllocateGUID (UID (heap s p)) n g r]" "heap ?sb = heap s"
    "podNetworksMap ?sb (UID (heap ?sb p)) = Some networks"
    using s1 c1 by (simp_all add: record_call_def)
  have iter: "has_returned out \<and>
         trace (fst (final out)) = trace s @ [Call_AllocateGUID (UID (heap s p)) n g r] \<and>
         heap (fst (final out)) = heap s \<and>
         (if ?ok
          then guidList (snd (final out)) = guidList l @ [projr (ParseMAC e g)] \<and>
               passedPods (snd (final out)) = passedPods l @ [p] \<and>
               failedPods (snd (final out)) = failedPods l
          else guidList (snd (final out)) = guidList l \<and>
               passedPods (snd (final out)) = passedPods l \<and>
               failedPods (snd (final out)) = failedPods l @ [p])"
    using sb(1,2) by (simp add: out append_passed_def append_failed_def)
  obtain lo where fo: "final out = (?sb, lo)" using out by simp
  have cont: "add_pods e n (pre @ p # post) (s0, no_locals) = add_pods e n post (final out)"
    using reach run out by (simp add: add_pods_append)
  define s3 where "s3 = fst (final (add_pods e n post (?sb, lo)))"
  from add_pods_user_entry_kept[OF entry given sb(3), of post lo] sb(2)
  have first: "podNetworksMap s3 (UID (heap s p)) = Some networks" "heap s3 p = heap s p"
    by (simp_all add: s3_def)
  from add_network_pods_guids_kept[of e n "pre @ p # post" s0 spec] cont fo net
  have kept: "guids_kept e s3 sf" by (simp add: s3_def)
  from kept first have uid: "UID (heap sf p) = UID (heap s p)"
    by (simp add: guids_kept_def)
  from kept first have cache: "guid_fields (podNetworksMap sf) (UID (heap s p))
                                 = map (\<lambda>network. cni_arg network ''guid'') networks"
    by (simp add: guids_kept_def guid_fields_def)
  from kept have "Annotations (heap sf p) = Annotations (heap s3 p) \<or>
          (\<exists>a netAnnotations networks'.
             Annotations (heap sf p) = Some (a(NetworkAttachmentAnnot \<mapsto> netAnnotations)) \<and>
             json_Marshal e networks' = Inr netAnnotations \<and>
             map (\<lambda>network. cni_arg network ''guid'') networks'
               = guid_fields (podNetworksMap s3) (UID (heap s3 p)))"
    unfolding guids_kept_def by blast
  with first have ann: "Annotations (heap sf p) = Annotations (heap s p) \<or>
          (\<exists>a netAnnotations networks'.
             Annotations (heap sf p) = Some (a(NetworkAttachmentAnnot \<mapsto> netAnnotations)) \<and>
             json_Marshal e networks' = Inr netAnnotations \<and>
             map (\<lambda>network. cni_arg network ''guid'') networks'
               = map (\<lambda>network. cni_arg network ''guid'') networks)"
    by (simp add: guid_fields_def)
  have sm: "guidAddr \<in> set (guidList lf) \<and>
            (\<exists>r' more. trace sf = trace s2 @ Call_AddGuidsToPKey pKey (guidList lf) r' # more)"
    if ok: "r = None" "ParseMAC e g = Inr guidAddr"
      and rest: "add_pods e n post (final out) = Returned (s2, lf)"
      and pkey: "PKey spec \<noteq> []" "ParsePKey e (PKey spec) = (pKey, None)"
  proof -
    from iter ok have "guidList (snd (final out)) = guidList l @ [guidAddr]" by simp
    with fo have "guidList lo = guidList l @ [guidAddr]" by simp
    moreover from add_pods_guidList[of e n post ?sb lo] rest fo obtain gs where
      "guidList lf = guidList lo @ gs" by auto
    ultimately have mem: "guidAddr \<in> set (guidList lf)" by simp
    then have ne: "guidList lf \<noteq> []" by auto
    from cont rest have loop1: "add_pods e n (pre @ p # post) (s0, no_locals) = Returned (s2, lf)"
      by simp
    from add_network_pods_admits[OF loop1 ne pkey] net mem show ?thesis by simp
  qed
  from iter sm uid cache ann show ?thesis by blast
qed


theorem user_guid_reaches_subnet_manager_witness:
  "trace (final (add_network_pods plain_env ''ibnet'' \<lparr>PKey = ''0x0005''\<rparr> [0] user_guid_state))
     = [Call_AllocateGUID ''w2'' ''ibnet'' ''02:00:00:00:00:00:00:03'' None,
        Call_AddGuidsToPKey 5 [[2, 0, 0, 0, 0, 0, 0, 3]] None,
        Call_SetAnnotationsOnPod 0 None] \<and>
   guid_fields (podNetworksMap (final (add_network_pods plain_env ''ibnet'' \<lparr>PKey = ''0x0005''\<rparr> [0]
                                         user_guid_state))) ''w2''
     = [Some ''02:00:00:00:00:00:00:03''] \<and>
   the (Annotations (heap (final (add_network_pods plain_env ''ibnet'' \<lparr>PKey = ''0x0005''\<rparr> [0]
                                    user_guid_state)) 0)) NetworkAttachmentAnnot
     = Some ''ibnet guid=02:00:00:00:00:00:00:03 configured'' \<and>
   trace (fst (final (add_pod taken_env ''ibnet'' 0 (user_and_plain_state, no_locals))))
     = [Call_AllocateGUID ''w2'' ''ibnet'' ''02:00:00:00:00:00:00:03'' (Some ''guid already allocated'')] \<and>
   failedPods (snd (final (add_pod taken_env ''ibnet'' 0 (user_and_plain_state, no_locals)))) = [0] \<and>
   guidList (snd (final (add_pod taken_env ''ibnet'' 0 (user_and_plain_state, no_locals)))) = []"
proof -
  let ?spec = "\<lparr>PKey = ''0x0005''\<rparr>"
  let ?g = "''02:00:00:00:00:00:00:03''"
  note defs = plain_env_def taken_env_def user_guid_state_def user_guid_parsed_def
    user_guid_networks_def user_and_plain_state_def pass_defs demo_defs
  define out1 where "out1 = add_pod plain_env ''ibnet'' 0 (user_guid_state, no_locals)"
  define sf1 where "sf1 = final (add_network_pods plain_env ''ibnet'' ?spec [0] user_guid_state)"
  define out2 where "out2 = add_pod taken_env ''ibnet'' 0 (user_and_plain_state, no_locals)"
  define sf2 where "sf2 = final (add_network_pods taken_env ''ibnet'' ?spec [0, 1] user_and_plain_state)"
  have reach1: "add_pods plain_env ''ibnet'' [] (user_guid_state, no_locals)
                  = Returned (user_guid_state, no_locals)"
    and reach2: "add_pods taken_env ''ibnet'' [] (user_and_plain_state, no_locals)
                  = Returned (user_and_plain_state, no_locals)"
    by simp_all
  have look1: "lookup_networks plain_env (heap user_guid_state 0) user_guid_state
                 = Inr (user_guid_networks, user_guid_parsed)"
    by (simp add: defs)
  have look2: "lookup_networks taken_env (heap user_and_plain_state 0) user_and_plain_state
                 = Inr (user_guid_networks,
                        user_and_plain_state\<lparr>podNetworksMap := [''w2'' \<mapsto> user_guid_networks]\<rparr>)"
    by (simp add: defs)
  have entry: "GetPodNetwork user_guid_networks ''ibnet'' = Inr 0"
    by (simp add: user_guid_networks_def)
  have given1: "GetPodNetworkGuid plain_env (user_guid_networks ! 0) = Inr ?g"
    and given2: "GetPodNetworkGuid taken_env (user_guid_networks ! 0) = Inr ?g"
    by (simp_all add: defs)
  have call1: "AllocateGUID plain_env (UID (heap user_guid_state 0)) ''ibnet'' ?g (world user_guid_state)
                 = (None, 0)"
    by (simp add: defs)
  have call2: "AllocateGUID taken_env (UID (heap user_and_plain_state 0)) ''ibnet'' ?g
                 (world user_and_plain_state) = (Some ''guid already allocated'', 0)"
    by (simp add: defs)
  have mac: "ParseMAC plain_env ?g = Inr [2, 0, 0, 0, 0, 0, 0, 3]"
    by (simp add: defs)
  have ret1: "has_returned out1" by (simp add: out1_def defs)
  then have rest1: "add_pods plain_env ''ibnet'' [] (final out1)
                      = Returned (fst (final out1), snd (final out1))"
    by simp
  have pkey: "PKey ?spec \<noteq> []" "ParsePKey plain_env (PKey ?spec) = (5, None)"
    by (simp_all add: defs)
  have vals: "UID (heap user_guid_state 0) = ''w2''" "UID (heap user_and_plain_state 0) = ''w2''"
    "trace user_guid_state = []" "trace user_and_plain_state = []"
    "guidList no_locals = []" "failedPods no_locals = []" "passedPods no_locals = []"
    "map (\<lambda>network. cni_arg network ''guid'') user_guid_networks = [Some ?g]"
    by (simp_all add: defs cni_arg_def)
  have tr1: "trace sf1
     = [Call_AllocateGUID ''w2'' ''ibnet'' ?g None,
        Call_AddGuidsToPKey 5 [[2, 0, 0, 0, 0, 0, 0, 3]] None,
        Call_SetAnnotationsOnPod 0 None]"
    "the (Annotations (heap sf1 0)) NetworkAttachmentAnnot
       = Some ''ibnet guid=02:00:00:00:00:00:00:03 configured''"
    by (simp_all add: sf1_def defs)
  have net1: "final (add_network_pods plain_env ''ibnet'' ?spec ([] @ 0 # []) user_guid_state) = sf1"
    and net2: "final (add_network_pods taken_env ''ibnet'' ?spec ([] @ 0 # [1]) user_and_plain_state) = sf2"
    by (simp_all add: sf1_def sf2_def)
  from user_guid_reaches_subnet_manager[OF reach1 look1 entry given1 call1 out1_def[symmetric] net1,
         of "[2, 0, 0, 0, 0, 0, 0, 3]" "fst (final out1)" "snd (final out1)" 5]
       user_guid_reaches_subnet_manager[OF reach2 look2 entry given2 call2 out2_def[symmetric] net2]
       mac rest1 pkey vals tr1
  show ?thesis
    unfolding out1_def[symmetric] out2_def[symmetric] sf1_def[symmetric] by simp
qed

text \<open>
  C9. The loop of the delete pass over the pods gives the same batch of GUIDs and the
  same \<open>failedPods\<close> as it gives on the list without the pods whose selection entry
  is not marked as configured: such a pod adds nothing to either. When the pass
  reaches a network entry, reads its IB-SRIOV spec, and none of its pods is
  configured, the iteration makes no call after the fetch (neither
  \<open>RemoveGuidsFromPKey\<close> nor \<open>ReleaseGUID\<close>), and the entry is absent at the end of
  the pass.
\<close>

theorem unconfigured_pods_skipped:
  assumes after: "n \<notin> set after"
      and head: "delete_network_head e n (DeletePeriodicUpdate e before s0) = Proceed (pods, spec, s1)"
      and none: "filter (\<lambda>p. \<not> not_configured e n (heap s1 p)) pods = []"
  shows "delete_pods e n h ps acc = delete_pods e n h (filter (\<lambda>p. \<not> not_configured e n (h p)) ps) acc \<and>
         delete_pods e n (heap s1) pods ([], []) = ([], []) \<and>
         trace (delete_network e n (DeletePeriodicUpdate e before s0)) = trace s1 \<and>
         Items (DeletePeriodicUpdate e (before @ n # after) s0) n = None"
proof -
  have batch: "delete_pods e n (heap s1) pods ([], []) = ([], [])"
    using delete_pods_skip[of e n "heap s1" pods "([], [])"] none by simp
  have step: "delete_network e n (DeletePeriodicUpdate e before s0) = UnSafeRemove n s1"
    using head batch
    by (simp add: delete_network_def delete_network_pods_def remove_guids_from_pkey_def retain_failed_def)
  then have "trace (delete_network e n (DeletePeriodicUpdate e before s0)) = trace s1"
    and "Items (delete_network e n (DeletePeriodicUpdate e before s0)) n = None"
    by (simp_all add: UnSafeRemove_def)
  with delete_pass_entry[OF after, of e before s0] batch delete_pods_skip[of e n h ps acc]
  show ?thesis by simp
qed

theorem unconfigured_pods_skipped_witness:
  "not_configured plain_env ''ibnet'' (heap unconfigured_state 0) \<and>
   trace (DeletePeriodicUpdate plain_env [''ibnet''] unconfigured_state)
     = [Call_GetNetworkAttachmentDefinition ''default'' ''ibnet'' (Inr ''ib-sriov 0x0005'')] \<and>
   Items (DeletePeriodicUpdate plain_env [''ibnet''] unconfigured_state) ''ibnet'' = None"
proof -
  let ?nad = "Call_GetNetworkAttachmentDefinition ''default'' ''ibnet'' (Inr ''ib-sriov 0x0005'')"
  let ?s1 = "record_call unconfigured_state ?nad 0"
  note defs = plain_env_def unconfigured_state_def not_configured_def pass_defs demo_defs
  have after: "''ibnet'' \<notin> set []" by simp
  have head: "delete_network_head plain_env ''ibnet'' (DeletePeriodicUpdate plain_env [] unconfigured_state)
                = Proceed ([0], \<lparr>PKey = ''0x0005''\<rparr>, ?s1)"
    by (simp add: defs)
  have nc: "not_configured plain_env ''ibnet'' (heap unconfigured_state 0)"
    by (simp add: defs)
  then have none: "filter (\<lambda>p. \<not> not_configured plain_env ''ibnet'' (heap ?s1 p)) [0] = []"
    by (simp add: record_call_def)
  have t1: "trace ?s1 = [?nad]"
    by (simp add: record_call_def unconfigured_state_def demo_state_def)
  from unconfigured_pods_skipped[OF after head none] nc t1
  show ?thesis by simp
qed

text \<open>
  C10. A network entry whose value is an empty pod list, or no pod list at all, is
  skipped by both passes: the iteration for it returns in the very state it started
  in (no call to the orchestrator, the pool or the subnet manager, no change to the
  map), and after a whole add pass or delete pass, in any order of visit, the entry
  is still what it was.
\<close>

theorem idle_entry_untouched:
  assumes "Items s n = Some (Pods []) \<or> Items s n = Some NotPods"
  shows "add_network e n s = Returned s \<and> delete_network e n s = s \<and>
         Items (final (AddPeriodicUpdate e order s)) n = Items s n \<and>
         Items (DeletePeriodicUpdate e order s) n = Items s n"
proof -
  have "Items (s\<lparr>podNetworksMap := Map.empty\<rparr>) n = Some (Pods [])
          \<or> Items (s\<lparr>podNetworksMap := Map.empty\<rparr>) n = Some NotPods"
    using assms by simp
  from add_networks_idle[OF this, of e order]
  have "Items (final (AddPeriodicUpdate e order s)) n = Items s n"
    by (simp add: AddPeriodicUpdate_def)
  with add_network_idle[OF assms, of e] delete_network_idle[OF assms, of e]
    DeletePeriodicUpdate_idle[OF assms, of e order]
  show ?thesis by simp
qed

theorem idle_entry_untouched_witness:
  "(Items idle_state ''ibnet'' = Some (Pods []) \<or> Items idle_state ''ibnet'' = Some NotPods) \<and>
   add_network plain_env ''ibnet'' idle_state = Returned idle_state \<and>
   delete_network plain_env ''ibnet'' idle_state = idle_state \<and>
   Items (final (AddPeriodicUpdate plain_env [''stale'', ''ibnet''] idle_state)) ''ibnet'' = Some (Pods []) \<and>
   Items (DeletePeriodicUpdate plain_env [''stale'', ''ibnet''] idle_state) ''ibnet'' = Some (Pods [])"
proof -
  have entry: "Items idle_state ''ibnet'' = Some (Pods [])"
    by (simp add: idle_state_def demo_state_def)
  then have h: "Items idle_state ''ibnet'' = Some (Pods []) \<or> Items idle_state ''ibnet'' = Some NotPods"
    by simp
  from idle_entry_untouched[OF h, of plain_env "[''stale'', ''ibnet'']"] entry
  show ?thesis by simp
qed

end
